(* ===== verification/Ecsc_Prelude.thy ===== *)
theory Ecsc_Prelude
  imports Main "HOL-Library.Word" "HOL-Library.Monad_Syntax" "HOL-Library.Signed_Division"
begin

text \<open>
  Shared ground of the development: the machine-integer type synonyms of the C++ sources, the
  \<open>require\<close> guard that stands for an early \<^verbatim>\<open>return false\<close>, little-endian byte strings as
  mathematical objects, the enumeration contract used for every \<^verbatim>\<open>enum class\<close>, and the lemma
  collections the component theories extend.
\<close>

unbundle bit_operations_syntax

named_theorems wire_defs \<open>definitions unfolded by the wire-format proofs\<close>
named_theorems wire_simps \<open>rewrite rules for reading encoded byte strings\<close>

type_synonym u8 = "8 word"
type_synonym u16 = "16 word"
type_synonym u32 = "32 word"
type_synonym u64 = "64 word"
type_synonym bytes = "u8 list"

section \<open>Guards\<close>

definition require :: "bool \<Rightarrow> unit option" where
  "require b = (if b then Some () else None)"

lemma bind_require_eq_Some [simp]:
  "(require b \<bind> f) = Some y \<longleftrightarrow> b \<and> f () = Some y"
  by (simp add: require_def)

lemma require_True [simp]: "require True = Some ()"
  and require_False [simp]: "require False = None"
  by (simp_all add: require_def)

lemma require_eq_Some [simp]: "require b = Some u \<longleftrightarrow> b"
  by (simp add: require_def)

section \<open>Lists\<close>

lemma nth_append_skip: "length xs \<le> n \<Longrightarrow> (xs @ ys) ! n = ys ! (n - length xs)"
  by (simp add: nth_append)

lemma find_key:
  assumes "x \<in> set xs" and "inj f"
  shows "find (\<lambda>y. f y = f x) xs = Some x"
  using assms(1) by (induction xs) (auto simp: inj_eq [OF assms(2)])

section \<open>Truncating division\<close>

lemma sdiv_pos: "0 \<le> a \<Longrightarrow> 0 < b \<Longrightarrow> a sdiv b = a div b" for a b :: int
  by (simp add: signed_divide_int_def sgn_if)

lemma smod_pos: "0 \<le> a \<Longrightarrow> 0 < b \<Longrightarrow> a smod b = a mod b" for a b :: int
  by (cases "a = 0") (simp_all add: signed_modulo_int_def)

section \<open>Enumerations with a fixed underlying type\<close>

text \<open>
  A C++ \<^verbatim>\<open>enum class E : T\<close> is a datatype of its named enumerators with a code function; a
  checked cast from a raw value searches the enumerators. The locale states what every
  enumeration provides and derives that the checked cast inverts the code function.
\<close>

definition enum_of_code :: "('e \<Rightarrow> 'w) \<Rightarrow> 'e list \<Rightarrow> 'w \<Rightarrow> 'e option" where
  "enum_of_code code enumerators raw = find (\<lambda>e. code e = raw) enumerators"

locale enum_codes =
  fixes code :: "'e \<Rightarrow> 'w"
    and enumerators :: "'e list"
  assumes all_listed: "e \<in> set enumerators"
    and code_inj: "code e = code e' \<Longrightarrow> e = e'"
begin

lemma of_code_code: "enum_of_code code enumerators (code e) = Some e"
  unfolding enum_of_code_def
  by (rule find_key) (auto simp: all_listed intro: injI code_inj)

lemma of_code_eq_Some: "enum_of_code code enumerators raw = Some e \<longleftrightarrow> code e = raw"
proof
  assume "enum_of_code code enumerators raw = Some e"
  then show "code e = raw" by (auto simp: enum_of_code_def find_Some_iff)
next
  assume "code e = raw"
  then show "enum_of_code code enumerators raw = Some e" using of_code_code [of e] by simp
qed

lemma of_code_eq_None: "enum_of_code code enumerators raw = None \<longleftrightarrow> raw \<notin> range code"
proof
  assume "enum_of_code code enumerators raw = None"
  then show "raw \<notin> range code" using of_code_code by auto
next
  assume "raw \<notin> range code"
  then show "enum_of_code code enumerators raw = None"
    by (auto simp: enum_of_code_def find_None_iff)
qed

end

section \<open>Little-endian byte strings\<close>

definition le_byte :: "'a::len word \<Rightarrow> nat \<Rightarrow> u8" where
  "le_byte v shift = ucast (drop_bit shift v AND 255)"

definition le_bytes :: "nat \<Rightarrow> 'a::len word \<Rightarrow> bytes" where
  "le_bytes k v = map (\<lambda>i. le_byte v (8 * i)) [0..<k]"

definition of_le :: "bytes \<Rightarrow> 'a::len word" where
  "of_le bs = fold (\<lambda>i decoded. decoded OR push_bit (8 * i) (ucast (bs ! i))) [0..<length bs] 0"

lemma length_le_bytes [simp]: "length (le_bytes k v) = k"
  by (simp add: le_bytes_def)

lemma bit_le_byte: "bit (le_byte v s) n \<longleftrightarrow> n < 8 \<and> bit v (s + n)"
proof -
  have *: "(255::'a word) = mask 8" by (simp add: mask_eq_exp_minus_1)
  show ?thesis
    unfolding le_byte_def *
    by (auto simp: bit_simps not_le ac_simps dest: bit_imp_le_length)
qed

lemma bit_push_ucast_byte:
  "bit (push_bit (8 * x) (ucast (b::u8)) :: 'a::len word) n \<longleftrightarrow>
    n < LENGTH('a) \<and> n div 8 = x \<and> bit b (n mod 8)"
proof (cases "n div 8 = x")
  case True
  then have "8 * x \<le> n" "n - 8 * x = n mod 8"
    using div_mult_mod_eq [of n 8] by linarith+
  then show ?thesis using True by (auto simp: bit_simps)
next
  case False
  have "\<not> bit b (n - 8 * x)" if "8 * x \<le> n"
  proof
    assume "bit b (n - 8 * x)"
    then have "n - 8 * x < 8" using bit_imp_le_length [of b] by simp
    with that False show False by linarith
  qed
  then show ?thesis using False by (auto simp: bit_simps)
qed

lemma bit_fold_le:
  "bit (fold (\<lambda>i d. d OR push_bit (8 * i) (ucast (bs ! i :: u8))) xs (d::'a::len word)) n \<longleftrightarrow>
    bit d n \<or> n < LENGTH('a) \<and> n div 8 \<in> set xs \<and> bit (bs ! (n div 8)) (n mod 8)"
  by (induction xs arbitrary: d) (auto simp: bit_or_iff bit_push_ucast_byte)

lemma bit_of_le:
  "bit (of_le bs :: 'a::len word) n \<longleftrightarrow>
    n < LENGTH('a) \<and> n div 8 < length bs \<and> bit (bs ! (n div 8)) (n mod 8)"
  unfolding of_le_def bit_fold_le by auto

lemma of_le_le_bytes:
  assumes "LENGTH('a) \<le> 8 * k"
  shows "of_le (le_bytes k (v::'a::len word)) = v"
proof (rule bit_word_eqI)
  fix n assume "n < LENGTH('a)"
  with assms have "n div 8 < k" by auto
  then show "bit (of_le (le_bytes k v) :: 'a word) n \<longleftrightarrow> bit v n"
    using \<open>n < LENGTH('a)\<close> by (simp add: bit_of_le le_bytes_def bit_le_byte)
qed

lemma le_bytes_of_le:
  assumes "length bs = k" and "8 * k \<le> LENGTH('a::len)"
  shows "le_bytes k (of_le bs :: 'a word) = bs"
proof (rule nth_equalityI)
  show "length (le_bytes k (of_le bs :: 'a word)) = length bs" using assms by simp
  fix i assume "i < length (le_bytes k (of_le bs :: 'a word))"
  then have i: "i < k" by simp
  show "le_bytes k (of_le bs :: 'a word) ! i = bs ! i"
  proof (rule bit_word_eqI)
    fix n assume n: "n < LENGTH(8)"
    from i n assms have "8 * i + n < LENGTH('a)" by simp
    with i n assms show "bit (le_bytes k (of_le bs :: 'a word) ! i) n \<longleftrightarrow> bit (bs ! i) n"
      by (simp add: le_bytes_def bit_le_byte bit_of_le)
  qed
qed

section \<open>Bitwise case analysis of bytes and of 32-bit words\<close>

lemma byte_eq_iff: "x = y \<longleftrightarrow> bit x 0 = bit y 0 \<and> bit x 1 = bit y 1 \<and> bit x 2 = bit y 2 \<and> bit x 3 = bit y 3
     \<and> bit x 4 = bit y 4 \<and> bit x 5 = bit y 5 \<and> bit x 6 = bit y 6 \<and> bit x 7 = bit y 7" for x y :: u8
proof -
  have "x = y \<longleftrightarrow> (\<forall>n\<in>{..<8}. bit x n = bit y n)" by (auto intro: bit_word_eqI)
  then show ?thesis by (simp add: lessThan_nat_numeral lessThan_Suc conj_ac)
qed

lemma u32_eq_iff: "x = y \<longleftrightarrow> bit x 0 = bit y 0 \<and> bit x 1 = bit y 1 \<and> bit x 2 = bit y 2 \<and> bit x 3 = bit y 3
     \<and> bit x 4 = bit y 4 \<and> bit x 5 = bit y 5 \<and> bit x 6 = bit y 6 \<and> bit x 7 = bit y 7
     \<and> bit x 8 = bit y 8 \<and> bit x 9 = bit y 9 \<and> bit x 10 = bit y 10 \<and> bit x 11 = bit y 11
     \<and> bit x 12 = bit y 12 \<and> bit x 13 = bit y 13 \<and> bit x 14 = bit y 14 \<and> bit x 15 = bit y 15
     \<and> bit x 16 = bit y 16 \<and> bit x 17 = bit y 17 \<and> bit x 18 = bit y 18 \<and> bit x 19 = bit y 19
     \<and> bit x 20 = bit y 20 \<and> bit x 21 = bit y 21 \<and> bit x 22 = bit y 22 \<and> bit x 23 = bit y 23
     \<and> bit x 24 = bit y 24 \<and> bit x 25 = bit y 25 \<and> bit x 26 = bit y 26 \<and> bit x 27 = bit y 27
     \<and> bit x 28 = bit y 28 \<and> bit x 29 = bit y 29 \<and> bit x 30 = bit y 30 \<and> bit x 31 = bit y 31" for x y :: u32
proof -
  have "x = y \<longleftrightarrow> (\<forall>n\<in>{..<32}. bit x n = bit y n)" by (auto intro: bit_word_eqI)
  then show ?thesis by (simp add: lessThan_nat_numeral lessThan_Suc conj_ac)
qed

lemmas bit_blast = byte_eq_iff u32_eq_iff

lemma less_exp_bits:
  "c < 2 ^ k \<longleftrightarrow> (\<forall>n. k \<le> n \<longrightarrow> \<not> bit c n)" if "k < LENGTH('a)" for c :: "'a::len word"
proof -
  have "c < 2 ^ k \<longleftrightarrow> take_bit k c = c"
    using that by (metis less_mask_eq take_bit_eq_mask and_mask_less')
  also have "\<dots> \<longleftrightarrow> (\<forall>n<LENGTH('a). k \<le> n \<longrightarrow> \<not> bit c n)"
    unfolding bit_eq_iff bit_take_bit_iff by (auto simp: not_less)
  also have "\<dots> \<longleftrightarrow> (\<forall>n. k \<le> n \<longrightarrow> \<not> bit c n)"
    using bit_imp_le_length [of c] by blast
  finally show ?thesis .
qed

section \<open>Components driven by operations\<close>

text \<open>
  A stateful component is a step function from an operation and a state to a reply and a new
  state. A run applies a list of operations; an invariant kept by every operation is kept by
  every run.
\<close>

definition run_ops :: "('op \<Rightarrow> 's \<Rightarrow> 'r \<times> 's) \<Rightarrow> 'op list \<Rightarrow> 's \<Rightarrow> 's" where
  "run_ops step ops s = fold (\<lambda>op s. snd (step op s)) ops s"

fun run_replies :: "('op \<Rightarrow> 's \<Rightarrow> 'r \<times> 's) \<Rightarrow> 'op list \<Rightarrow> 's \<Rightarrow> 'r list" where
  "run_replies step [] s = []"
| "run_replies step (op # ops) s = fst (step op s) # run_replies step ops (snd (step op s))"

lemma run_ops_simps [simp]:
  "run_ops step [] s = s"
  "run_ops step (op # ops) s = run_ops step ops (snd (step op s))"
  by (simp_all add: run_ops_def)

locale step_system =
  fixes step :: "'op \<Rightarrow> 's \<Rightarrow> 'r \<times> 's"
    and inv :: "'s \<Rightarrow> bool"
  assumes step_inv: "inv s \<Longrightarrow> inv (snd (step op s))"
begin

lemma run_inv: "inv s \<Longrightarrow> inv (run_ops step ops s)"
  by (induction ops arbitrary: s) (simp_all add: step_inv)

end

end
