(* ===== verification/Wire_Enums.thy ===== *)
theory Wire_Enums
  imports Ecsc_Prelude
begin

text \<open>
  Constants and enumerations of the ECSC version 1 protocol (\<^verbatim>\<open>protocol.hpp\<close>). Each
  \<^verbatim>\<open>enum class\<close> is a datatype of its enumerators, a code function giving the value on the
  wire, and a checked cast back. The \<^verbatim>\<open>IsKnown...\<close> predicates work on the raw value, which is
  what a C++ enumeration holds after a \<^verbatim>\<open>static_cast\<close> from received bytes.
\<close>

section \<open>Constants and enumerations\<close>

definition kMagic :: bytes where
  "kMagic = [0x45, 0x43, 0x53, 0x43]"

definition kVersion :: u8 where
  "kVersion = 1"

definition kEnvelopeSize :: nat where
  "kEnvelopeSize = 12"

definition kLengthPrefixSize :: nat where
  "kLengthPrefixSize = 4"

definition kMinimumFrameLength :: nat where
  "kMinimumFrameLength = kEnvelopeSize"

definition kMaximumFrameLength :: nat where
  "kMaximumFrameLength = 8192"

definition kMaximumBufferedInput :: nat where
  "kMaximumBufferedInput = 2 * (kLengthPrefixSize + kMaximumFrameLength)"

definition kMaximumOutputWrite :: nat where
  "kMaximumOutputWrite = 1024"

definition kMaximumPdoChunk :: nat where
  "kMaximumPdoChunk = 1024"

definition kMaximumPdoImage :: nat where
  "kMaximumPdoImage = 1024 * 1024"

definition kMaximumBusInfo :: nat where
  "kMaximumBusInfo = 2048"

lemmas protocol_constants =
  kMagic_def kVersion_def kEnvelopeSize_def kLengthPrefixSize_def kMinimumFrameLength_def
  kMaximumFrameLength_def kMaximumBufferedInput_def kMaximumOutputWrite_def
  kMaximumPdoChunk_def kMaximumPdoImage_def kMaximumBusInfo_def

datatype MessageType =
    MtHello | MtHeartbeat | MtOutputEnable | MtOutputWrite | MtClearCounters
  | MtReleaseControl | MtSubscribeInputs | MtAdapterUnlock | MtAdapterRescan
  | MtHelloAck | MtStatus | MtAck | MtPdoInput | MtBusInfo | MtError | MtOutputsDisabled

primrec MessageType_code :: "MessageType \<Rightarrow> u8" where
  "MessageType_code MtHello = 0x01"
| "MessageType_code MtHeartbeat = 0x02"
| "MessageType_code MtOutputEnable = 0x03"
| "MessageType_code MtOutputWrite = 0x04"
| "MessageType_code MtClearCounters = 0x05"
| "MessageType_code MtReleaseControl = 0x06"
| "MessageType_code MtSubscribeInputs = 0x07"
| "MessageType_code MtAdapterUnlock = 0x08"
| "MessageType_code MtAdapterRescan = 0x09"
| "MessageType_code MtHelloAck = 0x80"
| "MessageType_code MtStatus = 0x81"
| "MessageType_code MtAck = 0x82"
| "MessageType_code MtPdoInput = 0x83"
| "MessageType_code MtBusInfo = 0x84"
| "MessageType_code MtError = 0x85"
| "MessageType_code MtOutputsDisabled = 0x86"

definition MessageType_of_code :: "u8 \<Rightarrow> MessageType option" where
  "MessageType_of_code = enum_of_code MessageType_code
     [MtHello, MtHeartbeat, MtOutputEnable, MtOutputWrite, MtClearCounters, MtReleaseControl,
      MtSubscribeInputs, MtAdapterUnlock, MtAdapterRescan, MtHelloAck, MtStatus, MtAck,
      MtPdoInput, MtBusInfo, MtError, MtOutputsDisabled]"

definition IsKnownMessageType :: "u8 \<Rightarrow> bool" where
  "IsKnownMessageType raw \<longleftrightarrow> MessageType_of_code raw \<noteq> None"

datatype ClientRole = Observer | Controller

primrec ClientRole_code :: "ClientRole \<Rightarrow> u8" where
  "ClientRole_code Observer = 0"
| "ClientRole_code Controller = 1"

definition ClientRole_of_code :: "u8 \<Rightarrow> ClientRole option" where
  "ClientRole_of_code = enum_of_code ClientRole_code [Observer, Controller]"

datatype AckStatus =
    AckOk | AckMalformed | AckUnauthorized | AckBusy | AckDisabled | AckBadTarget | AckBounds
  | AckStaleEpoch | AckUnsupported | AckAdapterLocked | AckTopologyMismatch | AckQueueFull
  | AckInternalError

primrec AckStatus_code :: "AckStatus \<Rightarrow> u16" where
  "AckStatus_code AckOk = 0"
| "AckStatus_code AckMalformed = 1"
| "AckStatus_code AckUnauthorized = 2"
| "AckStatus_code AckBusy = 3"
| "AckStatus_code AckDisabled = 4"
| "AckStatus_code AckBadTarget = 5"
| "AckStatus_code AckBounds = 6"
| "AckStatus_code AckStaleEpoch = 7"
| "AckStatus_code AckUnsupported = 8"
| "AckStatus_code AckAdapterLocked = 9"
| "AckStatus_code AckTopologyMismatch = 10"
| "AckStatus_code AckQueueFull = 11"
| "AckStatus_code AckInternalError = 12"

definition AckStatus_of_code :: "u16 \<Rightarrow> AckStatus option" where
  "AckStatus_of_code = enum_of_code AckStatus_code
     [AckOk, AckMalformed, AckUnauthorized, AckBusy, AckDisabled, AckBadTarget, AckBounds,
      AckStaleEpoch, AckUnsupported, AckAdapterLocked, AckTopologyMismatch, AckQueueFull,
      AckInternalError]"

definition IsKnownAckStatus :: "u16 \<Rightarrow> bool" where
  "IsKnownAckStatus raw \<longleftrightarrow> AckStatus_of_code raw \<noteq> None"

datatype DisableReason =
    DrRequested | DrHeartbeatTimeout | DrDisconnect | DrLinkLoss | DrReinitialize | DrShutdown
  | DrEpochChange | DrAdapterMismatch | DrProcessDataFault | DrOutputCommandTimeout

primrec DisableReason_code :: "DisableReason \<Rightarrow> u16" where
  "DisableReason_code DrRequested = 1"
| "DisableReason_code DrHeartbeatTimeout = 2"
| "DisableReason_code DrDisconnect = 3"
| "DisableReason_code DrLinkLoss = 4"
| "DisableReason_code DrReinitialize = 5"
| "DisableReason_code DrShutdown = 6"
| "DisableReason_code DrEpochChange = 7"
| "DisableReason_code DrAdapterMismatch = 8"
| "DisableReason_code DrProcessDataFault = 9"
| "DisableReason_code DrOutputCommandTimeout = 10"

definition DisableReason_of_code :: "u16 \<Rightarrow> DisableReason option" where
  "DisableReason_of_code = enum_of_code DisableReason_code
     [DrRequested, DrHeartbeatTimeout, DrDisconnect, DrLinkLoss, DrReinitialize, DrShutdown,
      DrEpochChange, DrAdapterMismatch, DrProcessDataFault, DrOutputCommandTimeout]"

datatype AdapterLockState =
  LockUnlocked | LockMatched | LockMissing | LockMismatch | LockRuntimeUnlocked

primrec AdapterLockState_code :: "AdapterLockState \<Rightarrow> u8" where
  "AdapterLockState_code LockUnlocked = 0"
| "AdapterLockState_code LockMatched = 1"
| "AdapterLockState_code LockMissing = 2"
| "AdapterLockState_code LockMismatch = 3"
| "AdapterLockState_code LockRuntimeUnlocked = 4"

definition AdapterLockState_of_code :: "u8 \<Rightarrow> AdapterLockState option" where
  "AdapterLockState_of_code = enum_of_code AdapterLockState_code
     [LockUnlocked, LockMatched, LockMissing, LockMismatch, LockRuntimeUnlocked]"

datatype AdapterLockReason =
    ReasonNone | ReasonInterfaceMissing | ReasonIdentityUnavailable | ReasonIdPathMismatch
  | ReasonPermanentMacMismatch | ReasonUsbSerialMismatch | ReasonUsbVendorMismatch
  | ReasonUsbProductMismatch | ReasonNonEthernetInterface | ReasonPathOnlyIdentity

primrec AdapterLockReason_code :: "AdapterLockReason \<Rightarrow> u8" where
  "AdapterLockReason_code ReasonNone = 0"
| "AdapterLockReason_code ReasonInterfaceMissing = 1"
| "AdapterLockReason_code ReasonIdentityUnavailable = 2"
| "AdapterLockReason_code ReasonIdPathMismatch = 3"
| "AdapterLockReason_code ReasonPermanentMacMismatch = 4"
| "AdapterLockReason_code ReasonUsbSerialMismatch = 5"
| "AdapterLockReason_code ReasonUsbVendorMismatch = 6"
| "AdapterLockReason_code ReasonUsbProductMismatch = 7"
| "AdapterLockReason_code ReasonNonEthernetInterface = 8"
| "AdapterLockReason_code ReasonPathOnlyIdentity = 9"

definition AdapterLockReason_of_code :: "u8 \<Rightarrow> AdapterLockReason option" where
  "AdapterLockReason_of_code = enum_of_code AdapterLockReason_code
     [ReasonNone, ReasonInterfaceMissing, ReasonIdentityUnavailable, ReasonIdPathMismatch,
      ReasonPermanentMacMismatch, ReasonUsbSerialMismatch, ReasonUsbVendorMismatch,
      ReasonUsbProductMismatch, ReasonNonEthernetInterface, ReasonPathOnlyIdentity]"

datatype SchedulingMode = SchedOther | SchedFifo

primrec SchedulingMode_code :: "SchedulingMode \<Rightarrow> u8" where
  "SchedulingMode_code SchedOther = 0"
| "SchedulingMode_code SchedFifo = 1"

definition SchedulingMode_of_code :: "u8 \<Rightarrow> SchedulingMode option" where
  "SchedulingMode_of_code = enum_of_code SchedulingMode_code [SchedOther, SchedFifo]"

definition IsKnownSchedulingMode :: "u8 \<Rightarrow> bool" where
  "IsKnownSchedulingMode raw \<longleftrightarrow>
     raw = SchedulingMode_code SchedOther \<or> raw = SchedulingMode_code SchedFifo"

datatype BusState =
    BusStarting | BusWaitingForLink | BusInitializing | BusSafeOperational | BusOperational
  | BusFault | BusStopping

primrec BusState_code :: "BusState \<Rightarrow> u8" where
  "BusState_code BusStarting = 0"
| "BusState_code BusWaitingForLink = 1"
| "BusState_code BusInitializing = 2"
| "BusState_code BusSafeOperational = 3"
| "BusState_code BusOperational = 4"
| "BusState_code BusFault = 5"
| "BusState_code BusStopping = 6"

definition BusState_of_code :: "u8 \<Rightarrow> BusState option" where
  "BusState_of_code = enum_of_code BusState_code
     [BusStarting, BusWaitingForLink, BusInitializing, BusSafeOperational, BusOperational,
      BusFault, BusStopping]"

definition IsKnownBusState :: "u8 \<Rightarrow> bool" where
  "IsKnownBusState raw \<longleftrightarrow> BusState_of_code raw \<noteq> None"

text \<open>The enumerations satisfy the enumeration contract.\<close>

interpretation mt_codes: enum_codes MessageType_code
  "[MtHello, MtHeartbeat, MtOutputEnable, MtOutputWrite, MtClearCounters, MtReleaseControl,
    MtSubscribeInputs, MtAdapterUnlock, MtAdapterRescan, MtHelloAck, MtStatus, MtAck,
    MtPdoInput, MtBusInfo, MtError, MtOutputsDisabled]"
proof
  show "e \<in> set [MtHello, MtHeartbeat, MtOutputEnable, MtOutputWrite, MtClearCounters,
    MtReleaseControl, MtSubscribeInputs, MtAdapterUnlock, MtAdapterRescan, MtHelloAck, MtStatus,
    MtAck, MtPdoInput, MtBusInfo, MtError, MtOutputsDisabled]" for e
    by (cases e) simp_all
  show "MessageType_code e = MessageType_code e' \<Longrightarrow> e = e'" for e e'
    by (cases e; cases e') simp_all
qed

interpretation role_codes: enum_codes ClientRole_code "[Observer, Controller]"
proof
  show "e \<in> set [Observer, Controller]" for e by (cases e) simp_all
  show "ClientRole_code e = ClientRole_code e' \<Longrightarrow> e = e'" for e e'
    by (cases e; cases e') simp_all
qed

interpretation ack_codes: enum_codes AckStatus_code
  "[AckOk, AckMalformed, AckUnauthorized, AckBusy, AckDisabled, AckBadTarget, AckBounds,
    AckStaleEpoch, AckUnsupported, AckAdapterLocked, AckTopologyMismatch, AckQueueFull,
    AckInternalError]"
proof
  show "e \<in> set [AckOk, AckMalformed, AckUnauthorized, AckBusy, AckDisabled, AckBadTarget,
    AckBounds, AckStaleEpoch, AckUnsupported, AckAdapterLocked, AckTopologyMismatch,
    AckQueueFull, AckInternalError]" for e
    by (cases e) simp_all
  show "AckStatus_code e = AckStatus_code e' \<Longrightarrow> e = e'" for e e'
    by (cases e; cases e') simp_all
qed

interpretation reason_codes: enum_codes DisableReason_code
  "[DrRequested, DrHeartbeatTimeout, DrDisconnect, DrLinkLoss, DrReinitialize, DrShutdown,
    DrEpochChange, DrAdapterMismatch, DrProcessDataFault, DrOutputCommandTimeout]"
proof
  show "e \<in> set [DrRequested, DrHeartbeatTimeout, DrDisconnect, DrLinkLoss, DrReinitialize,
    DrShutdown, DrEpochChange, DrAdapterMismatch, DrProcessDataFault, DrOutputCommandTimeout]" for e
    by (cases e) simp_all
  show "DisableReason_code e = DisableReason_code e' \<Longrightarrow> e = e'" for e e'
    by (cases e; cases e') simp_all
qed

interpretation lock_codes: enum_codes AdapterLockState_code
  "[LockUnlocked, LockMatched, LockMissing, LockMismatch, LockRuntimeUnlocked]"
proof
  show "e \<in> set [LockUnlocked, LockMatched, LockMissing, LockMismatch, LockRuntimeUnlocked]" for e
    by (cases e) simp_all
  show "AdapterLockState_code e = AdapterLockState_code e' \<Longrightarrow> e = e'" for e e'
    by (cases e; cases e') simp_all
qed

interpretation lock_reason_codes: enum_codes AdapterLockReason_code
  "[ReasonNone, ReasonInterfaceMissing, ReasonIdentityUnavailable, ReasonIdPathMismatch,
    ReasonPermanentMacMismatch, ReasonUsbSerialMismatch, ReasonUsbVendorMismatch,
    ReasonUsbProductMismatch, ReasonNonEthernetInterface, ReasonPathOnlyIdentity]"
proof
  show "e \<in> set [ReasonNone, ReasonInterfaceMissing, ReasonIdentityUnavailable,
    ReasonIdPathMismatch, ReasonPermanentMacMismatch, ReasonUsbSerialMismatch,
    ReasonUsbVendorMismatch, ReasonUsbProductMismatch, ReasonNonEthernetInterface,
    ReasonPathOnlyIdentity]" for e
    by (cases e) simp_all
  show "AdapterLockReason_code e = AdapterLockReason_code e' \<Longrightarrow> e = e'" for e e'
    by (cases e; cases e') simp_all
qed

interpretation sched_codes: enum_codes SchedulingMode_code "[SchedOther, SchedFifo]"
proof
  show "e \<in> set [SchedOther, SchedFifo]" for e by (cases e) simp_all
  show "SchedulingMode_code e = SchedulingMode_code e' \<Longrightarrow> e = e'" for e e'
    by (cases e; cases e') simp_all
qed

interpretation bus_codes: enum_codes BusState_code
  "[BusStarting, BusWaitingForLink, BusInitializing, BusSafeOperational, BusOperational,
    BusFault, BusStopping]"
proof
  show "e \<in> set [BusStarting, BusWaitingForLink, BusInitializing, BusSafeOperational,
    BusOperational, BusFault, BusStopping]" for e
    by (cases e) simp_all
  show "BusState_code e = BusState_code e' \<Longrightarrow> e = e'" for e e'
    by (cases e; cases e') simp_all
qed

lemmas of_code_defs =
  MessageType_of_code_def ClientRole_of_code_def AckStatus_of_code_def DisableReason_of_code_def
  AdapterLockState_of_code_def AdapterLockReason_of_code_def SchedulingMode_of_code_def
  BusState_of_code_def

lemma checked_cast_code [simp]:
  "MessageType_of_code (MessageType_code mt) = Some mt"
  "ClientRole_of_code (ClientRole_code role) = Some role"
  "AckStatus_of_code (AckStatus_code status) = Some status"
  "DisableReason_of_code (DisableReason_code reason) = Some reason"
  "AdapterLockState_of_code (AdapterLockState_code ls) = Some ls"
  "AdapterLockReason_of_code (AdapterLockReason_code lr) = Some lr"
  "SchedulingMode_of_code (SchedulingMode_code sm) = Some sm"
  "BusState_of_code (BusState_code bs) = Some bs"
  unfolding of_code_defs
  by (rule mt_codes.of_code_code role_codes.of_code_code ack_codes.of_code_code
      reason_codes.of_code_code lock_codes.of_code_code lock_reason_codes.of_code_code
      sched_codes.of_code_code bus_codes.of_code_code)+

lemma of_code_iff:
  "MessageType_of_code r8 = Some mt \<longleftrightarrow> MessageType_code mt = r8"
  "ClientRole_of_code r8 = Some role \<longleftrightarrow> ClientRole_code role = r8"
  "AckStatus_of_code r16 = Some status \<longleftrightarrow> AckStatus_code status = r16"
  "DisableReason_of_code r16 = Some reason \<longleftrightarrow> DisableReason_code reason = r16"
  "AdapterLockState_of_code r8 = Some ls \<longleftrightarrow> AdapterLockState_code ls = r8"
  "AdapterLockReason_of_code r8 = Some lr \<longleftrightarrow> AdapterLockReason_code lr = r8"
  "SchedulingMode_of_code r8 = Some sm \<longleftrightarrow> SchedulingMode_code sm = r8"
  "BusState_of_code r8 = Some bs \<longleftrightarrow> BusState_code bs = r8"
  unfolding of_code_defs
  by (rule mt_codes.of_code_eq_Some role_codes.of_code_eq_Some ack_codes.of_code_eq_Some
      reason_codes.of_code_eq_Some lock_codes.of_code_eq_Some lock_reason_codes.of_code_eq_Some
      sched_codes.of_code_eq_Some bus_codes.of_code_eq_Some)+

lemma IsKnown_iff:
  "IsKnownMessageType r8 \<longleftrightarrow> (\<exists>mt. MessageType_code mt = r8)"
  "IsKnownAckStatus r16 \<longleftrightarrow> (\<exists>status. AckStatus_code status = r16)"
  "IsKnownBusState r8 \<longleftrightarrow> (\<exists>bs. BusState_code bs = r8)"
  "IsKnownSchedulingMode r8 \<longleftrightarrow> (\<exists>sm. SchedulingMode_code sm = r8)"
  unfolding IsKnownMessageType_def IsKnownAckStatus_def IsKnownBusState_def
    IsKnownSchedulingMode_def
  by (simp_all add: of_code_iff) (metis SchedulingMode.exhaust SchedulingMode_code.simps)

text \<open>
  The range comparisons the decoders use before a \<^verbatim>\<open>static_cast\<close> admit exactly the named
  enumerators: the numeric codes have no gap.
\<close>

locale enum_range = enum_codes code enumerators
  for code :: "'e \<Rightarrow> 'a::len word" and enumerators :: "'e list" +
  fixes lo hi :: nat
  assumes codes: "map (\<lambda>e. unat (code e)) enumerators = [lo..<hi]"
begin

lemma in_range: "(\<exists>e. code e = raw) \<longleftrightarrow> lo \<le> unat raw \<and> unat raw < hi"
proof -
  have "(\<exists>e. code e = raw) \<longleftrightarrow> (\<exists>e\<in>set enumerators. unat (code e) = unat raw)"
    using all_listed by (metis unsigned_word_eqI)
  also have "\<dots> \<longleftrightarrow> unat raw \<in> set (map (\<lambda>e. unat (code e)) enumerators)"
    unfolding set_map image_iff by metis
  also have "\<dots> \<longleftrightarrow> lo \<le> unat raw \<and> unat raw < hi" by (simp add: codes)
  finally show ?thesis .
qed

end

interpretation role_range: enum_range ClientRole_code "[Observer, Controller]" 0 2
  by unfold_locales (simp add: upt_conv_Cons)

interpretation reason_range: enum_range DisableReason_code
  "[DrRequested, DrHeartbeatTimeout, DrDisconnect, DrLinkLoss, DrReinitialize, DrShutdown,
    DrEpochChange, DrAdapterMismatch, DrProcessDataFault, DrOutputCommandTimeout]" 1 11
  by unfold_locales (simp add: upt_conv_Cons)

interpretation lock_range: enum_range AdapterLockState_code
  "[LockUnlocked, LockMatched, LockMissing, LockMismatch, LockRuntimeUnlocked]" 0 5
  by unfold_locales (simp add: upt_conv_Cons)

interpretation lock_reason_range: enum_range AdapterLockReason_code
  "[ReasonNone, ReasonInterfaceMissing, ReasonIdentityUnavailable, ReasonIdPathMismatch,
    ReasonPermanentMacMismatch, ReasonUsbSerialMismatch, ReasonUsbVendorMismatch,
    ReasonUsbProductMismatch, ReasonNonEthernetInterface, ReasonPathOnlyIdentity]" 0 10
  by unfold_locales (simp add: upt_conv_Cons)

interpretation bus_range: enum_range BusState_code
  "[BusStarting, BusWaitingForLink, BusInitializing, BusSafeOperational, BusOperational,
    BusFault, BusStopping]" 0 7
  by unfold_locales (simp add: upt_conv_Cons)

lemma code_range:
  "r8 \<le> ClientRole_code Controller \<longleftrightarrow> (\<exists>role. ClientRole_code role = r8)"
  "r16 \<ge> DisableReason_code DrRequested \<and> r16 \<le> DisableReason_code DrOutputCommandTimeout
     \<longleftrightarrow> (\<exists>reason. DisableReason_code reason = r16)"
  "r8 \<le> AdapterLockState_code LockRuntimeUnlocked \<longleftrightarrow> (\<exists>ls. AdapterLockState_code ls = r8)"
  "r8 \<le> AdapterLockReason_code ReasonPathOnlyIdentity \<longleftrightarrow> (\<exists>lr. AdapterLockReason_code lr = r8)"
  "r8 \<le> BusState_code BusStopping \<longleftrightarrow> (\<exists>bs. BusState_code bs = r8)"
  unfolding role_range.in_range reason_range.in_range lock_range.in_range
    lock_reason_range.in_range bus_range.in_range
  by (auto simp: word_le_nat_alt)

lemma code_bounds [simp]:
  "ClientRole_code role \<le> 1"
  "1 \<le> DisableReason_code reason" "DisableReason_code reason \<le> 10"
  "AdapterLockState_code ls \<le> 4"
  "AdapterLockReason_code lr \<le> 9"
  "BusState_code bs \<le> 6"
  using code_range(1) [of "ClientRole_code role"] code_range(2) [of "DisableReason_code reason"]
    code_range(3) [of "AdapterLockState_code ls"] code_range(4) [of "AdapterLockReason_code lr"]
    code_range(5) [of "BusState_code bs"]
  by auto

lemma DisableReason_code_nonzero [simp]: "DisableReason_code reason \<noteq> 0"
  by (cases reason) simp_all

end
