(* ===== verification/Wire_Format.thy ===== *)
theory Wire_Format
  imports Wire_Enums
begin

text \<open>
  The fixed-layout payloads of the ECSC version 1 wire format (\<^verbatim>\<open>protocol.hpp\<close>): the
  little-endian primitives and one encoder and one decoder per payload. An encoder returns the
  empty byte string where the C++ returns an empty vector; a decoder returns \<open>None\<close> where the
  C++ returns \<^verbatim>\<open>false\<close>. The out-parameters of the decoders are never null in the sources and
  their content after a failure is never read, so the decoded record is the result. A test that
  an enumeration-typed field holds a named enumerator is discharged by the type of that field.
  The locale \<open>codec\<close> is the contract of a payload: decoding succeeds exactly on the non-empty
  encodings.
\<close>

section \<open>Little-endian primitives\<close>

definition AppendLe16 :: "bytes \<Rightarrow> u16 \<Rightarrow> bytes" where
  "AppendLe16 destination value =
     (let destination = destination @ [ucast (value AND 0xff)]
      in destination @ [ucast (drop_bit 8 value AND 0xff)])"

definition AppendLe32 :: "bytes \<Rightarrow> u32 \<Rightarrow> bytes" where
  "AppendLe32 destination value =
     foldl (\<lambda>destination shift. destination @ [ucast (drop_bit shift value AND 0xff)])
       destination [0, 8, 16, 24]"

definition AppendLe64 :: "bytes \<Rightarrow> u64 \<Rightarrow> bytes" where
  "AppendLe64 destination value =
     foldl (\<lambda>destination shift. destination @ [ucast (drop_bit shift value AND 0xff)])
       destination [0, 8, 16, 24, 32, 40, 48, 56]"

definition ReadLe16 :: "bytes \<Rightarrow> nat \<Rightarrow> u16 option" where
  "ReadLe16 bs offset =
     (if offset > length bs \<or> length bs - offset < 2 then None
      else Some (ucast (bs ! offset) OR push_bit 8 (ucast (bs ! (offset + 1)))))"

definition ReadLe32 :: "bytes \<Rightarrow> nat \<Rightarrow> u32 option" where
  "ReadLe32 bs offset =
     (if offset > length bs \<or> length bs - offset < 4 then None
      else Some (foldl (\<lambda>decoded index. decoded OR push_bit (index * 8) (ucast (bs ! (offset + index))))
                   0 [0..<4]))"

definition ReadLe64 :: "bytes \<Rightarrow> nat \<Rightarrow> u64 option" where
  "ReadLe64 bs offset =
     (if offset > length bs \<or> length bs - offset < 8 then None
      else Some (foldl (\<lambda>decoded index. decoded OR push_bit (index * 8) (ucast (bs ! (offset + index))))
                   0 [0..<8]))"

definition bool_byte :: "bool \<Rightarrow> u8" where
  "bool_byte b = (if b then 1 else 0)"

lemma AppendLe_le_bytes [wire_simps]:
  "AppendLe16 d v16 = d @ le_bytes 2 v16"
  "AppendLe32 d v32 = d @ le_bytes 4 v32"
  "AppendLe64 d v64 = d @ le_bytes 8 v64"
  by (simp_all add: AppendLe16_def AppendLe32_def AppendLe64_def le_bytes_def le_byte_def
      upt_rec_numeral upt_conv_Cons)

lemma foldl_of_le:
  assumes "offset + k \<le> length bs"
  shows "foldl (\<lambda>decoded index. decoded OR push_bit (index * 8) (ucast (bs ! (offset + index))))
           0 [0..<k] = (of_le (take k (drop offset bs)) :: 'a::len word)"
proof -
  have "(of_le (take k (drop offset bs)) :: 'a word) =
      fold (\<lambda>i d. d OR push_bit (8 * i) (ucast (take k (drop offset bs) ! i))) [0..<k] 0"
    using assms by (simp add: of_le_def)
  also have "\<dots> = fold (\<lambda>i d. d OR push_bit (8 * i) (ucast (bs ! (offset + i)))) [0..<k] 0"
    using assms by (intro fold_cong) simp_all
  finally show ?thesis by (simp add: foldl_conv_fold mult.commute)
qed

lemma slice_le_bytes_iff:
  assumes "8 * k = LENGTH('a::len)"
  shows "of_le (take k (drop n bs)) = (v::'a word) \<and> n + k \<le> length bs
    \<longleftrightarrow> le_bytes k v = take k (drop n bs)"
proof
  assume "of_le (take k (drop n bs)) = v \<and> n + k \<le> length bs"
  then show "le_bytes k v = take k (drop n bs)"
    using le_bytes_of_le [of "take k (drop n bs)" k, where 'a = 'a] assms by auto
next
  assume *: "le_bytes k v = take k (drop n bs)"
  then have "k = length (take k (drop n bs))" by (metis length_le_bytes)
  moreover have "0 < k" using assms by (cases k) auto
  ultimately have "n + k \<le> length bs" by (auto simp: min_def split: if_splits)
  moreover have "of_le (take k (drop n bs)) = v"
    using of_le_le_bytes [of k v] assms * by simp
  ultimately show "of_le (take k (drop n bs)) = v \<and> n + k \<le> length bs" by blast
qed

lemma read_le_iff:
  assumes "8 * k = LENGTH('a::len)"
  shows "(if n > length bs \<or> length bs - n < k then None
     else Some (foldl (\<lambda>decoded index. decoded OR push_bit (index * 8) (ucast (bs ! (n + index))))
       0 [0..<k])) = Some (v::'a word) \<longleftrightarrow> le_bytes k v = take k (drop n bs)"
proof (cases "n + k \<le> length bs")
  case True
  then show ?thesis
    using foldl_of_le [OF True, where 'a = 'a] slice_le_bytes_iff [OF assms, of n bs v] by auto
next
  case False
  moreover have "0 < k" using assms by (cases k) auto
  ultimately show ?thesis using slice_le_bytes_iff [OF assms, of n bs v] by auto
qed

lemma ReadLe_iff [wire_simps]:
  "ReadLe16 bs n = Some v16 \<longleftrightarrow> le_bytes 2 v16 = take 2 (drop n bs)"
  "ReadLe32 bs n = Some v32 \<longleftrightarrow> le_bytes 4 v32 = take 4 (drop n bs)"
  "ReadLe64 bs n = Some v64 \<longleftrightarrow> le_bytes 8 v64 = take 8 (drop n bs)"
proof -
  have "ReadLe16 bs n = (if n > length bs \<or> length bs - n < 2 then None
      else Some (foldl (\<lambda>decoded index. decoded OR push_bit (index * 8) (ucast (bs ! (n + index))))
        0 [0..<2]))"
    by (simp add: ReadLe16_def upt_conv_Cons)
  then show "ReadLe16 bs n = Some v16 \<longleftrightarrow> le_bytes 2 v16 = take 2 (drop n bs)"
    using read_le_iff [of 2 bs n v16] by simp
  show "ReadLe32 bs n = Some v32 \<longleftrightarrow> le_bytes 4 v32 = take 4 (drop n bs)"
    unfolding ReadLe32_def by (rule read_le_iff) simp
  show "ReadLe64 bs n = Some v64 \<longleftrightarrow> le_bytes 8 v64 = take 8 (drop n bs)"
    unfolding ReadLe64_def by (rule read_le_iff) simp
qed

lemma slice_join [simp]:
  "m = k + n \<Longrightarrow> take k (drop n bs) @ drop m bs = drop n bs"
  "m = k + n \<Longrightarrow> take k (drop n bs) @ drop m bs @ ys = drop n bs @ ys"
  by (metis add.commute append_take_drop_id drop_drop append.assoc)+

lemma nth_join [simp]:
  "m = Suc n \<Longrightarrow> n < length bs \<Longrightarrow> bs ! n # drop m bs = drop n bs"
  "length bs = Suc n \<Longrightarrow> [bs ! n] = drop n bs"
  using Cons_nth_drop_Suc [of n bs] by simp_all

lemma le_bytes_inject_full:
  assumes "LENGTH('a) \<le> 8 * k"
  shows "le_bytes k v = le_bytes k w \<longleftrightarrow> v = (w :: 'a::len word)"
  using of_le_le_bytes [OF assms] by metis

lemma le_bytes_inject [simp]:
  "le_bytes 2 v16 = le_bytes 2 w16 \<longleftrightarrow> v16 = w16"
  "le_bytes 4 v32 = le_bytes 4 w32 \<longleftrightarrow> v32 = w32"
  "le_bytes 8 v64 = le_bytes 8 w64 \<longleftrightarrow> v64 = w64"
  for v16 w16 :: u16 and v32 w32 :: u32 and v64 w64 :: u64
  by (rule le_bytes_inject_full, simp)+

lemma chunk_length_simps [simp]:
  assumes "n \<le> 1024"
  shows "unat (of_nat n :: u16) = n" "(of_nat n :: u16) = 0 \<longleftrightarrow> n = 0"
proof -
  show *: "unat (of_nat n :: u16) = n"
    using assms by (simp add: unsigned_of_nat take_bit_nat_eq_self)
  have "(of_nat n :: u16) = 0 \<longleftrightarrow> unat (of_nat n :: u16) = unat (0 :: u16)"
    by (rule word_unat_eq_iff)
  then show "(of_nat n :: u16) = 0 \<longleftrightarrow> n = 0" by (simp add: *)
qed

lemma bool_byte_simps [simp]:
  "bool_byte b \<le> 1" "bool_byte b = 0 \<longleftrightarrow> \<not> b" "x \<le> 1 \<Longrightarrow> bool_byte (x \<noteq> 0) = x"
proof -
  have "x \<le> 1 \<longleftrightarrow> x = 0 \<or> x = 1" for x :: u8
    by (auto simp: word_le_nat_alt word_unat_eq_iff)
  then show "bool_byte b \<le> 1" "bool_byte b = 0 \<longleftrightarrow> \<not> b" "x \<le> 1 \<Longrightarrow> bool_byte (x \<noteq> 0) = x"
    by (auto simp: bool_byte_def)
qed

section \<open>Payload records, encoders and decoders\<close>

record HelloPayload =
  hello_role :: ClientRole
  hello_subscribeInputs :: bool
  hello_inputPeriodMs :: u16
  hello_lastSeenEpoch :: u64

definition kHelloPayloadSize :: nat where
  "kHelloPayloadSize = 12"

definition EncodeHelloPayload :: "HelloPayload \<Rightarrow> bytes" where
  "EncodeHelloPayload hello =
     (if hello_inputPeriodMs hello < 10 \<or> hello_inputPeriodMs hello > 1000 then []
      else let payload = [ClientRole_code (hello_role hello)];
               payload = payload @ [bool_byte (hello_subscribeInputs hello)];
               payload = AppendLe16 payload (hello_inputPeriodMs hello);
               payload = AppendLe64 payload (hello_lastSeenEpoch hello)
           in payload)"

definition DecodeHelloPayload :: "bytes \<Rightarrow> HelloPayload option" where
  "DecodeHelloPayload payload = do {
     require (length payload = kHelloPayloadSize);
     require (payload ! 0 \<le> ClientRole_code Controller);
     require (payload ! 1 \<le> 1);
     period \<leftarrow> ReadLe16 payload 2;
     require (\<not> (period < 10 \<or> period > 1000));
     epoch \<leftarrow> ReadLe64 payload 4;
     role \<leftarrow> ClientRole_of_code (payload ! 0);
     Some \<lparr>hello_role = role, hello_subscribeInputs = (payload ! 1 \<noteq> 0),
       hello_inputPeriodMs = period, hello_lastSeenEpoch = epoch\<rparr>
   }"

record HelloAckPayload =
  helloack_grantedRole :: ClientRole
  helloack_outputsEnabled :: bool
  helloack_heartbeatTimeoutMs :: u16
  helloack_epoch :: u64
  helloack_peerPid :: u32
  helloack_capabilities :: u32

definition kHelloAckPayloadSize :: nat where
  "kHelloAckPayloadSize = 20"

definition EncodeHelloAckPayload :: "HelloAckPayload \<Rightarrow> bytes" where
  "EncodeHelloAckPayload hello =
     (if helloack_heartbeatTimeoutMs hello = 0 \<or> helloack_epoch hello = 0 then []
      else let payload = [ClientRole_code (helloack_grantedRole hello)];
               payload = payload @ [bool_byte (helloack_outputsEnabled hello)];
               payload = AppendLe16 payload (helloack_heartbeatTimeoutMs hello);
               payload = AppendLe64 payload (helloack_epoch hello);
               payload = AppendLe32 payload (helloack_peerPid hello);
               payload = AppendLe32 payload (helloack_capabilities hello)
           in payload)"

definition DecodeHelloAckPayload :: "bytes \<Rightarrow> HelloAckPayload option" where
  "DecodeHelloAckPayload payload = do {
     require (length payload = kHelloAckPayloadSize);
     require (payload ! 0 \<le> ClientRole_code Controller);
     require (payload ! 1 \<le> 1);
     heartbeatTimeoutMs \<leftarrow> ReadLe16 payload 2;
     require (heartbeatTimeoutMs \<noteq> 0);
     epoch \<leftarrow> ReadLe64 payload 4;
     require (epoch \<noteq> 0);
     peerPid \<leftarrow> ReadLe32 payload 12;
     capabilities \<leftarrow> ReadLe32 payload 16;
     role \<leftarrow> ClientRole_of_code (payload ! 0);
     Some \<lparr>helloack_grantedRole = role, helloack_outputsEnabled = (payload ! 1 \<noteq> 0),
       helloack_heartbeatTimeoutMs = heartbeatTimeoutMs, helloack_epoch = epoch,
       helloack_peerPid = peerPid, helloack_capabilities = capabilities\<rparr>
   }"

definition EncodeEpochPayload :: "u64 \<Rightarrow> bytes" where
  "EncodeEpochPayload epoch = (if epoch = 0 then [] else AppendLe64 [] epoch)"

definition DecodeEpochPayload :: "bytes \<Rightarrow> u64 option" where
  "DecodeEpochPayload payload = do {
     require (length payload = 8);
     epoch \<leftarrow> ReadLe64 payload 0;
     require (epoch \<noteq> 0);
     Some epoch
   }"

record OutputEnablePayload =
  enable_epoch :: u64
  enable_enabled :: bool

definition EncodeOutputEnablePayload :: "OutputEnablePayload \<Rightarrow> bytes" where
  "EncodeOutputEnablePayload enable =
     (let payload = EncodeEpochPayload (enable_epoch enable)
      in if payload = [] then [] else payload @ [bool_byte (enable_enabled enable)])"

definition DecodeOutputEnablePayload :: "bytes \<Rightarrow> OutputEnablePayload option" where
  "DecodeOutputEnablePayload payload = do {
     require (length payload = 9);
     require (payload ! 8 \<le> 1);
     epoch \<leftarrow> ReadLe64 payload 0;
     require (epoch \<noteq> 0);
     Some \<lparr>enable_epoch = epoch, enable_enabled = (payload ! 8 \<noteq> 0)\<rparr>
   }"

record OutputWritePayload =
  write_epoch :: u64
  write_busIndex :: u16
  write_subDeviceIndex :: u16
  write_offset :: u32
  write_data :: bytes

definition EncodeOutputWritePayload :: "OutputWritePayload \<Rightarrow> bytes" where
  "EncodeOutputWritePayload wr =
     (if write_epoch wr = 0 \<or> write_subDeviceIndex wr = 0 \<or> write_data wr = []
         \<or> length (write_data wr) > kMaximumOutputWrite then []
      else let payload = AppendLe64 [] (write_epoch wr);
               payload = AppendLe16 payload (write_busIndex wr);
               payload = AppendLe16 payload (write_subDeviceIndex wr);
               payload = AppendLe32 payload (write_offset wr);
               payload = AppendLe16 payload (of_nat (length (write_data wr)));
               payload = AppendLe16 payload 0
           in payload @ write_data wr)"

definition DecodeOutputWritePayload :: "bytes \<Rightarrow> OutputWritePayload option" where
  "DecodeOutputWritePayload payload = do {
     require (\<not> length payload < 20);
     epoch \<leftarrow> ReadLe64 payload 0;
     require (epoch \<noteq> 0);
     busIndex \<leftarrow> ReadLe16 payload 8;
     subDeviceIndex \<leftarrow> ReadLe16 payload 10;
     require (subDeviceIndex \<noteq> 0);
     offset \<leftarrow> ReadLe32 payload 12;
     len \<leftarrow> ReadLe16 payload 16;
     require (len \<noteq> 0);
     require (\<not> unat len > kMaximumOutputWrite);
     reserved \<leftarrow> ReadLe16 payload 18;
     require (reserved = 0);
     require (length payload = 20 + unat len);
     Some \<lparr>write_epoch = epoch, write_busIndex = busIndex,
       write_subDeviceIndex = subDeviceIndex, write_offset = offset,
       write_data = drop 20 payload\<rparr>
   }"

record SubscribeInputsPayload =
  subscribe_enabled :: bool
  subscribe_periodMs :: u16

definition EncodeSubscribeInputsPayload :: "SubscribeInputsPayload \<Rightarrow> bytes" where
  "EncodeSubscribeInputsPayload subscription =
     (if subscribe_periodMs subscription < 10 \<or> subscribe_periodMs subscription > 1000 then []
      else let payload = [bool_byte (subscribe_enabled subscription)];
               payload = payload @ [0]
           in AppendLe16 payload (subscribe_periodMs subscription))"

definition DecodeSubscribeInputsPayload :: "bytes \<Rightarrow> SubscribeInputsPayload option" where
  "DecodeSubscribeInputsPayload payload = do {
     require (length payload = 4);
     require (payload ! 0 \<le> 1);
     require (payload ! 1 = 0);
     periodMs \<leftarrow> ReadLe16 payload 2;
     require (periodMs \<ge> 10);
     require (periodMs \<le> 1000);
     Some \<lparr>subscribe_enabled = (payload ! 0 \<noteq> 0), subscribe_periodMs = periodMs\<rparr>
   }"

record AdapterUnlockPayload =
  unlock_epoch :: u64
  unlock_busIndex :: u16

definition EncodeAdapterUnlockPayload :: "AdapterUnlockPayload \<Rightarrow> bytes" where
  "EncodeAdapterUnlockPayload unlock =
     (let payload = EncodeEpochPayload (unlock_epoch unlock)
      in if payload = [] then [] else AppendLe16 payload (unlock_busIndex unlock))"

definition DecodeAdapterUnlockPayload :: "bytes \<Rightarrow> AdapterUnlockPayload option" where
  "DecodeAdapterUnlockPayload payload = do {
     require (length payload = 10);
     epoch \<leftarrow> ReadLe64 payload 0;
     require (epoch \<noteq> 0);
     busIndex \<leftarrow> ReadLe16 payload 8;
     Some \<lparr>unlock_epoch = epoch, unlock_busIndex = busIndex\<rparr>
   }"

record OutputsDisabledPayload =
  disabled_reason :: DisableReason
  disabled_busIndex :: u16
  disabled_epoch :: u64

definition EncodeOutputsDisabledPayload :: "OutputsDisabledPayload \<Rightarrow> bytes" where
  "EncodeOutputsDisabledPayload disabled =
     (if disabled_epoch disabled = 0 then []
      else let payload = AppendLe16 [] (DisableReason_code (disabled_reason disabled));
               payload = AppendLe16 payload (disabled_busIndex disabled)
           in AppendLe64 payload (disabled_epoch disabled))"

definition DecodeOutputsDisabledPayload :: "bytes \<Rightarrow> OutputsDisabledPayload option" where
  "DecodeOutputsDisabledPayload payload = do {
     require (length payload = 12);
     raw \<leftarrow> ReadLe16 payload 0;
     require (\<not> (raw < DisableReason_code DrRequested
       \<or> raw > DisableReason_code DrOutputCommandTimeout));
     busIndex \<leftarrow> ReadLe16 payload 2;
     epoch \<leftarrow> ReadLe64 payload 4;
     require (epoch \<noteq> 0);
     reason \<leftarrow> DisableReason_of_code raw;
     Some \<lparr>disabled_reason = reason, disabled_busIndex = busIndex, disabled_epoch = epoch\<rparr>
   }"

record StatusPayload =
  status_aggregateState :: u8
  status_flags :: u8
  status_activeAdapters :: u16
  status_subDevices :: u16
  status_activeFaults :: u16
  status_maximumJitterUs :: u32
  status_currentJitterUs :: u32
  status_lostFrames :: u64
  status_cycleOverruns :: u64
  status_epoch :: u64
  status_controllerPid :: u32
  status_configuredBuses :: u16
  status_schedulingMode :: SchedulingMode
  status_realtimeErrorBits :: u8
  status_monotonicTimestampUs :: u64

definition kStatusPayloadSize :: nat where
  "kStatusPayloadSize = 56"

definition EncodeStatusPayload :: "StatusPayload \<Rightarrow> bytes" where
  "EncodeStatusPayload status =
     (if \<not> IsKnownBusState (status_aggregateState status) \<or> status_epoch status = 0
         \<or> \<not> IsKnownSchedulingMode (SchedulingMode_code (status_schedulingMode status))
         \<or> status_realtimeErrorBits status AND 0x80 \<noteq> 0 then []
      else let payload = [status_aggregateState status];
               payload = payload @ [status_flags status];
               payload = AppendLe16 payload (status_activeAdapters status);
               payload = AppendLe16 payload (status_subDevices status);
               payload = AppendLe16 payload (status_activeFaults status);
               payload = AppendLe32 payload (status_maximumJitterUs status);
               payload = AppendLe32 payload (status_currentJitterUs status);
               payload = AppendLe64 payload (status_lostFrames status);
               payload = AppendLe64 payload (status_cycleOverruns status);
               payload = AppendLe64 payload (status_epoch status);
               payload = AppendLe32 payload (status_controllerPid status);
               payload = AppendLe16 payload (status_configuredBuses status);
               payload = payload @ [SchedulingMode_code (status_schedulingMode status)];
               payload = payload @ [status_realtimeErrorBits status]
           in AppendLe64 payload (status_monotonicTimestampUs status))"

definition DecodeStatusPayload :: "bytes \<Rightarrow> StatusPayload option" where
  "DecodeStatusPayload payload = do {
     require (length payload = kStatusPayloadSize);
     activeAdapters \<leftarrow> ReadLe16 payload 2;
     subDevices \<leftarrow> ReadLe16 payload 4;
     activeFaults \<leftarrow> ReadLe16 payload 6;
     maximumJitterUs \<leftarrow> ReadLe32 payload 8;
     currentJitterUs \<leftarrow> ReadLe32 payload 12;
     lostFrames \<leftarrow> ReadLe64 payload 16;
     cycleOverruns \<leftarrow> ReadLe64 payload 24;
     epoch \<leftarrow> ReadLe64 payload 32;
     controllerPid \<leftarrow> ReadLe32 payload 40;
     configuredBuses \<leftarrow> ReadLe16 payload 44;
     monotonicTimestampUs \<leftarrow> ReadLe64 payload 48;
     require (IsKnownBusState (payload ! 0));
     require (epoch \<noteq> 0);
     require (IsKnownSchedulingMode (payload ! 46));
     require (payload ! 47 AND 0x80 = 0);
     schedulingMode \<leftarrow> SchedulingMode_of_code (payload ! 46);
     Some \<lparr>status_aggregateState = payload ! 0, status_flags = payload ! 1,
       status_activeAdapters = activeAdapters, status_subDevices = subDevices,
       status_activeFaults = activeFaults, status_maximumJitterUs = maximumJitterUs,
       status_currentJitterUs = currentJitterUs, status_lostFrames = lostFrames,
       status_cycleOverruns = cycleOverruns, status_epoch = epoch,
       status_controllerPid = controllerPid, status_configuredBuses = configuredBuses,
       status_schedulingMode = schedulingMode, status_realtimeErrorBits = payload ! 47,
       status_monotonicTimestampUs = monotonicTimestampUs\<rparr>
   }"

definition EncodeAckPayload :: "AckStatus \<Rightarrow> u32 \<Rightarrow> bytes" where
  "EncodeAckPayload status detail =
     (let payload = AppendLe16 [] (AckStatus_code status);
          payload = AppendLe16 payload 0
      in AppendLe32 payload detail)"

definition DecodeAckPayload :: "bytes \<Rightarrow> (AckStatus \<times> u32) option" where
  "DecodeAckPayload payload = do {
     require (length payload = 8);
     rawStatus \<leftarrow> ReadLe16 payload 0;
     reserved \<leftarrow> ReadLe16 payload 2;
     require (reserved = 0);
     detail \<leftarrow> ReadLe32 payload 4;
     require (IsKnownAckStatus rawStatus);
     status \<leftarrow> AckStatus_of_code rawStatus;
     Some (status, detail)
   }"

record PdoInputPayload =
  pdo_busIndex :: u16
  pdo_subDeviceIndex :: u16
  pdo_offset :: u32
  pdo_totalSize :: u32
  pdo_epoch :: u64
  pdo_cycleSequence :: u64
  pdo_data :: bytes

definition EncodePdoInputPayload :: "PdoInputPayload \<Rightarrow> bytes" where
  "EncodePdoInputPayload input =
     (if pdo_subDeviceIndex input = 0 \<or> pdo_epoch input = 0
         \<or> pdo_cycleSequence input = 0 \<or> pdo_totalSize input = 0
         \<or> pdo_data input = []
         \<or> length (pdo_data input) > kMaximumPdoChunk
         \<or> unat (pdo_totalSize input) > kMaximumPdoImage
         \<or> pdo_offset input > pdo_totalSize input
         \<or> length (pdo_data input) > unat (pdo_totalSize input - pdo_offset input) then []
      else let payload = AppendLe16 [] (pdo_busIndex input);
               payload = AppendLe16 payload (pdo_subDeviceIndex input);
               payload = AppendLe32 payload (pdo_offset input);
               payload = AppendLe32 payload (pdo_totalSize input);
               payload = AppendLe16 payload (of_nat (length (pdo_data input)));
               payload = AppendLe16 payload 0;
               payload = AppendLe64 payload (pdo_epoch input);
               payload = AppendLe64 payload (pdo_cycleSequence input)
           in payload @ pdo_data input)"

definition DecodePdoInputPayload :: "bytes \<Rightarrow> nat \<Rightarrow> PdoInputPayload option" where
  "DecodePdoInputPayload payload maximumTotalSize = do {
     require (\<not> length payload < 32);
     busIndex \<leftarrow> ReadLe16 payload 0;
     subDeviceIndex \<leftarrow> ReadLe16 payload 2;
     offset \<leftarrow> ReadLe32 payload 4;
     totalSize \<leftarrow> ReadLe32 payload 8;
     chunkLength \<leftarrow> ReadLe16 payload 12;
     reserved \<leftarrow> ReadLe16 payload 14;
     require (reserved = 0);
     epoch \<leftarrow> ReadLe64 payload 16;
     cycleSequence \<leftarrow> ReadLe64 payload 24;
     require (\<not> (subDeviceIndex = 0 \<or> epoch = 0 \<or> cycleSequence = 0 \<or> totalSize = 0
       \<or> chunkLength = 0 \<or> unat chunkLength > kMaximumPdoChunk
       \<or> unat totalSize > maximumTotalSize \<or> offset > totalSize
       \<or> unat chunkLength > unat (totalSize - offset)
       \<or> length payload \<noteq> 32 + unat chunkLength));
     Some \<lparr>pdo_busIndex = busIndex, pdo_subDeviceIndex = subDeviceIndex, pdo_offset = offset,
       pdo_totalSize = totalSize, pdo_epoch = epoch, pdo_cycleSequence = cycleSequence,
       pdo_data = drop 32 payload\<rparr>
   }"

lemmas payload_defs =
  EncodeHelloPayload_def DecodeHelloPayload_def kHelloPayloadSize_def
  EncodeHelloAckPayload_def DecodeHelloAckPayload_def kHelloAckPayloadSize_def
  EncodeEpochPayload_def DecodeEpochPayload_def
  EncodeOutputEnablePayload_def DecodeOutputEnablePayload_def
  EncodeOutputWritePayload_def DecodeOutputWritePayload_def
  EncodeSubscribeInputsPayload_def DecodeSubscribeInputsPayload_def
  EncodeAdapterUnlockPayload_def DecodeAdapterUnlockPayload_def
  EncodeOutputsDisabledPayload_def DecodeOutputsDisabledPayload_def
  EncodeStatusPayload_def DecodeStatusPayload_def kStatusPayloadSize_def
  EncodeAckPayload_def DecodeAckPayload_def
  EncodePdoInputPayload_def DecodePdoInputPayload_def

section \<open>The codec contract\<close>

text \<open>
  A payload codec is canonical: the decoder accepts a byte string exactly when it is the
  non-empty encoding of the decoded value. Both round trips, the injectivity of the encoder on
  encodable values and the exact set of accepted strings follow.
\<close>

locale codec =
  fixes enc :: "'p \<Rightarrow> bytes" and dec :: "bytes \<Rightarrow> 'p option"
  assumes canonical: "dec bs = Some p \<longleftrightarrow> enc p = bs \<and> bs \<noteq> []"
begin

lemma decode_encode: "enc p \<noteq> [] \<Longrightarrow> dec (enc p) = Some p"
  by (simp add: canonical)

lemma encode_decode: "dec bs = Some p \<Longrightarrow> enc p = bs"
  by (simp add: canonical)

lemma encode_inj: "enc p = enc q \<Longrightarrow> enc p \<noteq> [] \<Longrightarrow> p = q"
  by (metis decode_encode option.inject)

lemma decode_None_iff: "dec bs = None \<longleftrightarrow> bs \<notin> range enc - {[]}"
proof (cases "dec bs")
  case None
  then show ?thesis using decode_encode by force
next
  case (Some p)
  then show ?thesis using canonical [of bs p] by auto
qed

end

lemma le_bytes_Nil_iff [simp]: "le_bytes k v = [] \<longleftrightarrow> k = 0"
  by (simp add: le_bytes_def)

lemma IsKnown_code [simp]:
  "IsKnownAckStatus (AckStatus_code status)" "IsKnownSchedulingMode (SchedulingMode_code sm)"
  by (auto simp: IsKnown_iff)

lemmas decode_simps = wire_simps Option.bind_eq_Some_conv of_code_iff
  protocol_constants Let_def not_less nth_append_skip unat_eq_zero

lemma hello_canonical:
  "DecodeHelloPayload bs = Some p \<longleftrightarrow> EncodeHelloPayload p = bs \<and> bs \<noteq> []"
  by (cases p) (auto simp: payload_defs decode_simps)

lemma hello_ack_canonical:
  "DecodeHelloAckPayload bs = Some p \<longleftrightarrow> EncodeHelloAckPayload p = bs \<and> bs \<noteq> []"
  by (cases p) (auto simp: payload_defs decode_simps)

lemma epoch_canonical:
  "DecodeEpochPayload bs = Some p \<longleftrightarrow> EncodeEpochPayload p = bs \<and> bs \<noteq> []"
  by (auto simp: payload_defs decode_simps)

lemma output_enable_canonical:
  "DecodeOutputEnablePayload bs = Some p \<longleftrightarrow> EncodeOutputEnablePayload p = bs \<and> bs \<noteq> []"
  by (cases p) (auto simp: payload_defs decode_simps)

lemma output_write_canonical:
  "DecodeOutputWritePayload bs = Some p \<longleftrightarrow> EncodeOutputWritePayload p = bs \<and> bs \<noteq> []"
  by (cases p) (auto simp: payload_defs decode_simps)

lemma zero_join [simp]:
  "bs ! Suc 0 = 0 \<Longrightarrow> length bs = 4 \<Longrightarrow> 0 # drop 2 bs = drop (Suc 0) (bs :: bytes)"
  using nth_join(1) [of 2 1 bs] by simp

lemma subscribe_inputs_canonical:
  "DecodeSubscribeInputsPayload bs = Some p \<longleftrightarrow> EncodeSubscribeInputsPayload p = bs \<and> bs \<noteq> []"
  by (cases p) (auto simp: payload_defs decode_simps)

lemma adapter_unlock_canonical:
  "DecodeAdapterUnlockPayload bs = Some p \<longleftrightarrow> EncodeAdapterUnlockPayload p = bs \<and> bs \<noteq> []"
  by (cases p) (auto simp: payload_defs decode_simps)

lemma outputs_disabled_canonical:
  "DecodeOutputsDisabledPayload bs = Some p \<longleftrightarrow> EncodeOutputsDisabledPayload p = bs \<and> bs \<noteq> []"
  by (cases p) (auto simp: payload_defs decode_simps)

lemma ack_canonical:
  "DecodeAckPayload bs = Some p \<longleftrightarrow> case_prod EncodeAckPayload p = bs \<and> bs \<noteq> []"
  by (cases p) (auto simp: payload_defs decode_simps)

lemma pdo_input_canonical:
  "DecodePdoInputPayload bs kMaximumPdoImage = Some p \<longleftrightarrow> EncodePdoInputPayload p = bs \<and> bs \<noteq> []"
  by (cases p) (auto simp: payload_defs decode_simps)

lemma status_canonical:
  "DecodeStatusPayload bs = Some p \<longleftrightarrow> EncodeStatusPayload p = bs \<and> bs \<noteq> []"
  by (cases p) (auto simp: payload_defs decode_simps)

interpretation hello: codec EncodeHelloPayload DecodeHelloPayload
  by unfold_locales (rule hello_canonical)

interpretation hello_ack: codec EncodeHelloAckPayload DecodeHelloAckPayload
  by unfold_locales (rule hello_ack_canonical)

interpretation epoch: codec EncodeEpochPayload DecodeEpochPayload
  by unfold_locales (rule epoch_canonical)

interpretation output_enable: codec EncodeOutputEnablePayload DecodeOutputEnablePayload
  by unfold_locales (rule output_enable_canonical)

interpretation output_write: codec EncodeOutputWritePayload DecodeOutputWritePayload
  by unfold_locales (rule output_write_canonical)

interpretation subscribe_inputs: codec EncodeSubscribeInputsPayload DecodeSubscribeInputsPayload
  by unfold_locales (rule subscribe_inputs_canonical)

interpretation adapter_unlock: codec EncodeAdapterUnlockPayload DecodeAdapterUnlockPayload
  by unfold_locales (rule adapter_unlock_canonical)

interpretation outputs_disabled: codec EncodeOutputsDisabledPayload DecodeOutputsDisabledPayload
  by unfold_locales (rule outputs_disabled_canonical)

interpretation ack: codec "case_prod EncodeAckPayload" DecodeAckPayload
  by unfold_locales (rule ack_canonical)

interpretation status: codec EncodeStatusPayload DecodeStatusPayload
  by unfold_locales (rule status_canonical)

interpretation pdo_input: codec EncodePdoInputPayload "\<lambda>bs. DecodePdoInputPayload bs kMaximumPdoImage"
  by unfold_locales (rule pdo_input_canonical)

section \<open>Golden vectors\<close>

text \<open>
  The encoders produce the canonical vectors of \<^verbatim>\<open>clients/protocol-v1-golden.properties\<close>, which every
  client library of the repository is tested against.
\<close>

lemma golden_payloads:
  "EncodeHelloPayload \<lparr>hello_role = Controller, hello_subscribeInputs = True,
     hello_inputPeriodMs = 20, hello_lastSeenEpoch = 0x0102030405060708\<rparr> =
     [0x01, 0x01, 0x14, 0x00, 0x08, 0x07, 0x06, 0x05, 0x04, 0x03, 0x02, 0x01]
   \<and> EncodeEpochPayload 0x1122334455667788 = [0x88, 0x77, 0x66, 0x55, 0x44, 0x33, 0x22, 0x11]
   \<and> EncodeOutputEnablePayload \<lparr>enable_epoch = 0x1122334455667788, enable_enabled = True\<rparr> =
     [0x88, 0x77, 0x66, 0x55, 0x44, 0x33, 0x22, 0x11, 0x01]
   \<and> EncodeOutputWritePayload \<lparr>write_epoch = 0x1122334455667788, write_busIndex = 2,
     write_subDeviceIndex = 3, write_offset = 0, write_data = [0xde, 0xad, 0xbe, 0xef]\<rparr> =
     [0x88, 0x77, 0x66, 0x55, 0x44, 0x33, 0x22, 0x11, 0x02, 0x00, 0x03, 0x00, 0x00, 0x00, 0x00,
      0x00, 0x04, 0x00, 0x00, 0x00, 0xde, 0xad, 0xbe, 0xef]
   \<and> EncodeAckPayload AckOk 0x12345678 = [0x00, 0x00, 0x00, 0x00, 0x78, 0x56, 0x34, 0x12]
   \<and> EncodeOutputsDisabledPayload \<lparr>disabled_reason = DrOutputCommandTimeout,
     disabled_busIndex = 0xffff, disabled_epoch = 0x1122334455667788\<rparr> =
     [0x0a, 0x00, 0xff, 0xff, 0x88, 0x77, 0x66, 0x55, 0x44, 0x33, 0x22, 0x11]
   \<and> EncodePdoInputPayload \<lparr>pdo_busIndex = 2, pdo_subDeviceIndex = 3, pdo_offset = 0,
     pdo_totalSize = 4, pdo_epoch = 0x1122334455667788, pdo_cycleSequence = 1,
     pdo_data = [0xde, 0xad, 0xbe, 0xef]\<rparr> =
     [0x02, 0x00, 0x03, 0x00, 0x00, 0x00, 0x00, 0x00, 0x04, 0x00, 0x00, 0x00, 0x04, 0x00, 0x00,
      0x00, 0x88, 0x77, 0x66, 0x55, 0x44, 0x33, 0x22, 0x11, 0x01, 0x00, 0x00, 0x00, 0x00, 0x00,
      0x00, 0x00, 0xde, 0xad, 0xbe, 0xef]"
  by (intro conjI) (simp_all add: payload_defs AppendLe16_def AppendLe32_def AppendLe64_def protocol_constants
      bool_byte_def)

end
