(* ===== verification/Bus_Info.thy ===== *)
theory Bus_Info
  imports Wire_Format
begin

text \<open>
  The variable-length BUS_INFO payload of \<^verbatim>\<open>protocol.hpp\<close> and the UTF-8 validation of its
  seven strings. A \<^verbatim>\<open>std::string\<close> is a list of characters; its bytes are the codes of the
  characters. UTF-8 validation is characterised by a reference encoder of Unicode scalar values.
\<close>

section \<open>UTF-8 validation\<close>

definition string_bytes :: "string \<Rightarrow> bytes" where
  "string_bytes text = map of_char text"

definition bytes_string :: "bytes \<Rightarrow> string" where
  "bytes_string bs = map (\<lambda>b. char_of (unat b)) bs"

text \<open>The number of continuation bytes and the leading bits announced by a first byte.\<close>

definition Utf8Lead :: "u8 \<Rightarrow> (nat \<times> u32) option" where
  "Utf8Lead first =
     (if first AND 0xe0 = 0xc0 then Some (1, ucast (first AND 0x1f))
      else if first AND 0xf0 = 0xe0 then Some (2, ucast (first AND 0x0f))
      else if first AND 0xf8 = 0xf0 then Some (3, ucast (first AND 0x07))
      else None)"

fun Utf8Continue :: "bytes \<Rightarrow> u32 \<Rightarrow> u32 option" where
  "Utf8Continue [] codePoint = Some codePoint"
| "Utf8Continue (b # bs) codePoint =
     (if b AND 0xc0 \<noteq> 0x80 then None
      else Utf8Continue bs (push_bit 6 codePoint OR ucast (b AND 0x3f)))"

definition Utf8Forbidden :: "nat \<Rightarrow> u32 \<Rightarrow> bool" where
  "Utf8Forbidden continuationCount codePoint \<longleftrightarrow>
     continuationCount = 1 \<and> codePoint < 0x80
     \<or> continuationCount = 2 \<and> codePoint < 0x800
     \<or> continuationCount = 3 \<and> codePoint < 0x10000
     \<or> codePoint > 0x10ffff
     \<or> codePoint \<ge> 0xd800 \<and> codePoint \<le> 0xdfff"

fun IsValidUtf8 :: "bytes \<Rightarrow> bool" where
  "IsValidUtf8 [] = True"
| "IsValidUtf8 (first # rest) =
     (if first = 0 then False
      else if first \<le> 0x7f then IsValidUtf8 rest
      else case Utf8Lead first of
             None \<Rightarrow> False
           | Some (continuationCount, lead) \<Rightarrow>
               if length (first # rest) \<le> continuationCount then False
               else case Utf8Continue (take continuationCount rest) lead of
                      None \<Rightarrow> False
                    | Some codePoint \<Rightarrow>
                        if Utf8Forbidden continuationCount codePoint then False
                        else IsValidUtf8 (drop continuationCount rest))"

text \<open>The reference: the UTF-8 encoding of one scalar value (RFC 3629).\<close>

definition scalar_value :: "u32 \<Rightarrow> bool" where
  "scalar_value c \<longleftrightarrow> c \<noteq> 0 \<and> c \<le> 0x10ffff \<and> \<not> (0xd800 \<le> c \<and> c \<le> 0xdfff)"

definition utf8_tail :: "u32 \<Rightarrow> nat \<Rightarrow> u8" where
  "utf8_tail c shift = 0x80 OR ucast (drop_bit shift c AND 0x3f)"

definition utf8_encode :: "u32 \<Rightarrow> bytes" where
  "utf8_encode c =
     (if c < 0x80 then [ucast c]
      else if c < 0x800 then [0xc0 OR ucast (drop_bit 6 c), utf8_tail c 0]
      else if c < 0x10000 then [0xe0 OR ucast (drop_bit 12 c), utf8_tail c 6, utf8_tail c 0]
      else [0xf0 OR ucast (drop_bit 18 c), utf8_tail c 12, utf8_tail c 6, utf8_tail c 0])"

lemma ascii_iff: "first \<le> 0x7f \<longleftrightarrow> \<not> bit first 7" for first :: u8
proof -
  have "first \<le> 0x7f \<longleftrightarrow> first < 2 ^ 7" by (auto simp: word_le_nat_alt word_less_nat_alt)
  also have "\<dots> \<longleftrightarrow> (\<forall>n. 7 \<le> n \<longrightarrow> \<not> bit first n)" by (rule less_exp_bits) simp
  also have "\<dots> \<longleftrightarrow> \<not> bit first 7"
  proof -
    have "n = 7" if "7 \<le> n" "bit first n" for n
      using bit_imp_le_length [OF that(2)] that(1) by simp
    then show ?thesis by auto
  qed
  finally show ?thesis .
qed

lemma code_point_bits:
  "c < 0x800 \<longleftrightarrow> (\<forall>n\<ge>11. \<not> bit c n)" "c < 0x10000 \<longleftrightarrow> (\<forall>n\<ge>16. \<not> bit c n)"
  "c < 0x200000 \<longleftrightarrow> (\<forall>n\<ge>21. \<not> bit c n)" "c < 0x80 \<longleftrightarrow> (\<forall>n\<ge>7. \<not> bit c n)"
  for c :: u32
  using less_exp_bits [of 11 c] less_exp_bits [of 16 c] less_exp_bits [of 21 c]
    less_exp_bits [of 7 c] by simp_all

lemma Utf8Lead_encode:
  "c < 0x800 \<Longrightarrow> Utf8Lead (0xc0 OR ucast (drop_bit 6 c)) = Some (1, drop_bit 6 c)"
  "c < 0x10000 \<Longrightarrow> Utf8Lead (0xe0 OR ucast (drop_bit 12 c)) = Some (2, drop_bit 12 c)"
  "c < 0x200000 \<Longrightarrow> Utf8Lead (0xf0 OR ucast (drop_bit 18 c)) = Some (3, drop_bit 18 c)"
  by (auto simp: Utf8Lead_def bit_blast code_point_bits bit_simps)

lemma utf8_tail_simps:
  "utf8_tail c s AND 0xc0 = 0x80" "ucast (utf8_tail c s AND 0x3f) = drop_bit s c AND 0x3f"
  by (auto simp: utf8_tail_def bit_blast bit_simps)

lemma utf8_join:
  "push_bit 6 (drop_bit 6 c) OR (c AND 0x3f) = c"
  "push_bit 6 (drop_bit 12 c) OR (drop_bit 6 c AND 0x3f) = drop_bit 6 c"
  "push_bit 6 (drop_bit 18 c) OR (drop_bit 12 c AND 0x3f) = drop_bit 12 c" for c :: u32
  by (auto simp: bit_blast bit_simps)

lemma small_masks: "(0x1f :: u8) = mask 5" "(0x0f :: u8) = mask 4" "(0x3f :: u8) = mask 6"
  by (simp_all add: mask_eq_exp_minus_1)

lemma utf8_split_bounds:
  "push_bit 6 (ucast (first AND 0x1f)) OR ucast (b1 AND 0x3f) < (0x800 :: u32)"
  "push_bit 6 (push_bit 6 (ucast (first AND 0x0f)) OR ucast (b1 AND 0x3f)) OR ucast (b2 AND 0x3f)
     < (0x10000 :: u32)" for first b1 b2 :: u8
  unfolding code_point_bits small_masks by (auto simp: bit_simps)

lemma utf8_split2:
  assumes "first AND 0xe0 = 0xc0" "b1 AND 0xc0 = 0x80"
    and "c = push_bit 6 (ucast (first AND 0x1f)) OR ucast (b1 AND 0x3f)"
  shows "[first, b1] = [0xc0 OR ucast (drop_bit 6 c), utf8_tail c 0]"
  using assms(1,2) unfolding assms(3) by (auto simp: utf8_tail_def bit_blast bit_simps)

lemma utf8_split3:
  assumes "first AND 0xf0 = 0xe0" "b1 AND 0xc0 = 0x80" "b2 AND 0xc0 = 0x80"
    and "c = push_bit 6 (push_bit 6 (ucast (first AND 0x0f)) OR ucast (b1 AND 0x3f)) OR
      ucast (b2 AND 0x3f)"
  shows "[first, b1, b2] = [0xe0 OR ucast (drop_bit 12 c), utf8_tail c 6, utf8_tail c 0]"
  using assms(1-3) unfolding assms(4) by (auto simp: utf8_tail_def bit_blast bit_simps)

lemma utf8_split4:
  assumes "first AND 0xf8 = 0xf0" "b1 AND 0xc0 = 0x80" "b2 AND 0xc0 = 0x80" "b3 AND 0xc0 = 0x80"
    and "c = push_bit 6 (push_bit 6 (push_bit 6 (ucast (first AND 0x07)) OR
      ucast (b1 AND 0x3f)) OR ucast (b2 AND 0x3f)) OR ucast (b3 AND 0x3f)"
  shows "[first, b1, b2, b3] =
    [0xf0 OR ucast (drop_bit 18 c), utf8_tail c 12, utf8_tail c 6, utf8_tail c 0]"
  using assms(1-4) unfolding assms(5) by (auto simp: utf8_tail_def bit_blast bit_simps)

lemma utf8_lead_not_ascii:
  "0xc0 OR b \<noteq> 0" "0xe0 OR b \<noteq> 0" "0xf0 OR b \<noteq> 0"
  "\<not> 0xc0 OR b \<le> 0x7f" "\<not> 0xe0 OR b \<le> 0x7f" "\<not> 0xf0 OR b \<le> 0x7f" for b :: u8
  unfolding ascii_iff byte_eq_iff by (auto simp: bit_simps)

lemma Utf8Continue_Cons_iff:
  "Utf8Continue (b # bs) lead = Some c \<longleftrightarrow>
     b AND 0xc0 = 0x80 \<and> Utf8Continue bs (push_bit 6 lead OR ucast (b AND 0x3f)) = Some c"
  by simp

lemma Utf8Continue_encode:
  "Utf8Continue [utf8_tail c 0] (drop_bit 6 c) = Some c"
  "Utf8Continue [utf8_tail c 6, utf8_tail c 0] (drop_bit 12 c) = Some c"
  "Utf8Continue [utf8_tail c 12, utf8_tail c 6, utf8_tail c 0] (drop_bit 18 c) = Some c"
  by (simp_all only: Utf8Continue_Cons_iff utf8_tail_simps utf8_join drop_bit_0 id_apply
      Utf8Continue.simps if_False simp_thms)

lemma IsValidUtf8_multi:
  assumes "first \<noteq> 0" "\<not> first \<le> 0x7f" "Utf8Lead first = Some (k, lead)"
    and "Utf8Continue tails lead = Some c" "\<not> Utf8Forbidden k c" "length tails = k"
  shows "IsValidUtf8 (first # tails @ rest) = IsValidUtf8 rest"
  using assms by auto

lemma utf8_encode_accepted:
  assumes "scalar_value c"
  shows "IsValidUtf8 (utf8_encode c @ rest) = IsValidUtf8 rest"
proof -
  have nz: "c \<noteq> 0" and top: "c \<le> 0x10ffff" and sur: "\<not> (0xd800 \<le> c \<and> c \<le> 0xdfff)"
    using assms by (simp_all add: scalar_value_def)
  consider (one) "c < 0x80" | (two) "\<not> c < 0x80" "c < 0x800"
    | (three) "\<not> c < 0x80" "\<not> c < 0x800" "c < 0x10000"
    | (four) "\<not> c < 0x80" "\<not> c < 0x800" "\<not> c < 0x10000" by blast
  then show ?thesis
  proof cases
    case one
    then have "unat c < 128" "unat c \<noteq> 0" using nz by (auto simp: word_less_nat_alt unat_eq_zero)
    then have "(ucast c :: u8) \<noteq> 0" "(ucast c :: u8) \<le> 0x7f"
      by (auto simp: word_unat_eq_iff word_le_nat_alt unsigned_ucast_eq
          unsigned_take_bit_eq take_bit_eq_mod)
    with one show ?thesis by (simp add: utf8_encode_def)
  next
    case two
    have "\<not> Utf8Forbidden 1 c" using two top sur by (simp add: Utf8Forbidden_def)
    with two show ?thesis
      using IsValidUtf8_multi [where tails = "[utf8_tail c 0]", OF utf8_lead_not_ascii(1,4)]
        Utf8Lead_encode(1) [of c] Utf8Continue_encode(1) [of c]
      by (simp add: utf8_encode_def del: IsValidUtf8.simps Utf8Continue.simps)
  next
    case three
    have "\<not> Utf8Forbidden 2 c" using three top sur by (simp add: Utf8Forbidden_def)
    with three show ?thesis
      using IsValidUtf8_multi [where tails = "[utf8_tail c 6, utf8_tail c 0]", OF utf8_lead_not_ascii(2,5)]
        Utf8Lead_encode(2) [of c] Utf8Continue_encode(2) [of c]
      by (simp add: utf8_encode_def del: IsValidUtf8.simps Utf8Continue.simps)
  next
    case four
    have "\<not> Utf8Forbidden 3 c" using four top sur by (simp add: Utf8Forbidden_def)
    moreover have "c < 0x200000" using top by (auto simp: word_le_nat_alt word_less_nat_alt)
    ultimately show ?thesis using four
      IsValidUtf8_multi [where tails = "[utf8_tail c 12, utf8_tail c 6, utf8_tail c 0]", OF utf8_lead_not_ascii(3,6)]
        Utf8Lead_encode(3) [of c] Utf8Continue_encode(3) [of c]
      by (simp add: utf8_encode_def del: IsValidUtf8.simps Utf8Continue.simps)
  qed
qed

lemma take_few:
  "k = 1 \<Longrightarrow> k \<le> length xs \<Longrightarrow> \<exists>a. take k xs = [a]"
  "k = 2 \<Longrightarrow> k \<le> length xs \<Longrightarrow> \<exists>a b. take k xs = [a, b]"
  "k = 3 \<Longrightarrow> k \<le> length xs \<Longrightarrow> \<exists>a b c. take k xs = [a, b, c]"
  by (auto simp: numeral_eq_Suc Suc_le_length_iff)

lemma utf8_step_accepted:
  assumes "Utf8Lead first = Some (k, lead)" "k \<le> length rest"
    and "Utf8Continue (take k rest) lead = Some c" "\<not> Utf8Forbidden k c"
  shows "scalar_value c \<and> first # take k rest = utf8_encode c"
proof -
  have range: "c \<le> 0x10ffff" "\<not> (0xd800 \<le> c \<and> c \<le> 0xdfff)"
    using assms(4) by (auto simp: Utf8Forbidden_def)
  from assms(1) consider (two) "k = 1" "first AND 0xe0 = 0xc0" "lead = ucast (first AND 0x1f)"
    | (three) "k = 2" "first AND 0xf0 = 0xe0" "lead = ucast (first AND 0x0f)"
    | (four) "k = 3" "first AND 0xf8 = 0xf0" "lead = ucast (first AND 0x07)"
    by (auto simp: Utf8Lead_def split: if_splits)
  then show ?thesis
  proof cases
    case two
    with assms(2) obtain b1 where t: "take k rest = [b1]"
      using take_few(1) by blast
    with assms(3) two have *: "b1 AND 0xc0 = 0x80" "c = push_bit 6 (ucast (first AND 0x1f)) OR ucast (b1 AND 0x3f)"
      by (simp_all only: Utf8Continue_Cons_iff Utf8Continue.simps(1) option.inject)
    have "\<not> c < 0x80" using assms(4) two by (simp add: Utf8Forbidden_def)
    moreover from this have "c \<noteq> 0" by auto
    moreover have "c < 0x800" using utf8_split_bounds(1) *(2) by simp
    ultimately have "scalar_value c" "utf8_encode c = [first, b1]"
      unfolding utf8_split2 [OF two(2) *] using range by (simp_all only: scalar_value_def utf8_encode_def if_True if_False simp_thms)
    then show ?thesis unfolding t by simp
  next
    case three
    with assms(2) obtain b1 b2 where t: "take k rest = [b1, b2]"
      using take_few(2) by blast
    with assms(3) three have *: "b1 AND 0xc0 = 0x80" "b2 AND 0xc0 = 0x80"
      "c = push_bit 6 (push_bit 6 (ucast (first AND 0x0f)) OR ucast (b1 AND 0x3f)) OR ucast (b2 AND 0x3f)"
      by (simp_all only: Utf8Continue_Cons_iff Utf8Continue.simps(1) option.inject)
    have "\<not> c < 0x800" using assms(4) three by (simp add: Utf8Forbidden_def)
    moreover from this have "c \<noteq> 0" "\<not> c < 0x80" by (auto simp: word_less_nat_alt)
    moreover have "c < 0x10000" using utf8_split_bounds(2) *(3) by simp
    ultimately have "scalar_value c" "utf8_encode c = [first, b1, b2]"
      unfolding utf8_split3 [OF three(2) *] using range by (simp_all only: scalar_value_def utf8_encode_def if_True if_False simp_thms)
    then show ?thesis unfolding t by simp
  next
    case four
    with assms(2) obtain b1 b2 b3 where t: "take k rest = [b1, b2, b3]"
      using take_few(3) by blast
    with assms(3) four have *: "b1 AND 0xc0 = 0x80" "b2 AND 0xc0 = 0x80" "b3 AND 0xc0 = 0x80"
      "c = push_bit 6 (push_bit 6 (push_bit 6 (ucast (first AND 0x07)) OR ucast (b1 AND 0x3f)) OR
        ucast (b2 AND 0x3f)) OR ucast (b3 AND 0x3f)"
      by (simp_all only: Utf8Continue_Cons_iff Utf8Continue.simps(1) option.inject)
    have "\<not> c < 0x10000" using assms(4) four by (simp add: Utf8Forbidden_def)
    moreover from this have "c \<noteq> 0" "\<not> c < 0x80" "\<not> c < 0x800" by (auto simp: word_less_nat_alt)
    ultimately have "scalar_value c" "utf8_encode c = [first, b1, b2, b3]"
      unfolding utf8_split4 [OF four(2) *] using range by (simp_all only: scalar_value_def utf8_encode_def if_True if_False simp_thms)
    then show ?thesis unfolding t by simp
  qed
qed

lemma ascii_scalar:
  assumes "first \<noteq> 0" "first \<le> 0x7f"
  shows "scalar_value (ucast first) \<and> utf8_encode (ucast first) = [first]"
proof -
  have "unat (ucast first :: u32) = unat first"
    using unsigned_less [of first, where 'a = nat] by (simp add: unsigned_ucast_eq unsigned_take_bit_eq take_bit_nat_eq_self)
  moreover have "(ucast (ucast first :: u32) :: u8) = first"
    by (simp add: byte_eq_iff bit_simps)
  ultimately show ?thesis using assms
    by (simp add: scalar_value_def utf8_encode_def word_less_nat_alt word_le_nat_alt word_unat_eq_iff)
qed

lemma utf8_sound: "IsValidUtf8 bs \<Longrightarrow> \<exists>cs. list_all scalar_value cs \<and> bs = concat (map utf8_encode cs)"
proof (induction bs rule: IsValidUtf8.induct)
  case 1
  show ?case by (intro exI [of _ "[]"]) simp
next
  case (2 first rest)
  have step: ?case if "scalar_value c" "first # rest = utf8_encode c @ rest'"
      "\<exists>cs. list_all scalar_value cs \<and> rest' = concat (map utf8_encode cs)" for c rest'
  proof -
    from that(3) obtain cs where "list_all scalar_value cs" "rest' = concat (map utf8_encode cs)" by blast
    with that(1,2) show ?thesis by (intro exI [of _ "c # cs"]) simp
  qed
  show ?case
  proof (cases "first \<le> 0x7f")
    case True
    with 2 ascii_scalar [of first] show ?thesis
      by (intro step [of "ucast first" rest]) (auto split: if_splits)
  next
    case False
    with "2.prems" obtain k lead c where *: "Utf8Lead first = Some (k, lead)" "k \<le> length rest"
      "Utf8Continue (take k rest) lead = Some c" "\<not> Utf8Forbidden k c" "IsValidUtf8 (drop k rest)"
      "first \<noteq> 0"
      by (auto split: if_splits option.splits prod.splits)
    with 2(2) [OF *(6) False] have "\<exists>cs. list_all scalar_value cs \<and> drop k rest = concat (map utf8_encode cs)"
      by (auto simp: not_le)
    moreover have "first # rest = (first # take k rest) @ drop k rest" by simp
    ultimately show ?thesis
      using utf8_step_accepted [OF *(1-4)] step [of c "drop k rest"] by simp
  qed
qed

lemma utf8_complete: "list_all scalar_value cs \<Longrightarrow> IsValidUtf8 (concat (map utf8_encode cs))"
  by (induction cs) (simp_all add: utf8_encode_accepted)

section \<open>The BUS_INFO payload\<close>

record BusInfoPayload =
  bi_busIndex :: u16
  bi_state :: BusState
  bi_linkUp :: bool
  bi_lockState :: AdapterLockState
  bi_lockReason :: AdapterLockReason
  bi_subDeviceCount :: u16
  bi_logicalName :: string
  bi_physicalInterface :: string
  bi_idPath :: string
  bi_permanentMac :: string
  bi_usbSerial :: string
  bi_usbVendorId :: string
  bi_usbProductId :: string
  bi_epoch :: u64

definition kBusInfoHeaderSize :: nat where
  "kBusInfoHeaderSize = 30"

definition bus_info_strings :: "BusInfoPayload \<Rightarrow> string list" where
  "bus_info_strings information =
     [bi_logicalName information, bi_physicalInterface information, bi_idPath information,
      bi_permanentMac information, bi_usbSerial information, bi_usbVendorId information,
      bi_usbProductId information]"

text \<open>The loop of the encoder that validates the strings and accumulates the total size.\<close>

fun bus_info_size :: "nat \<Rightarrow> string list \<Rightarrow> nat option" where
  "bus_info_size totalSize [] = Some totalSize"
| "bus_info_size totalSize (value # strings) =
     (if length value > 65535 \<or> \<not> IsValidUtf8 (string_bytes value)
         \<or> length value > kMaximumBusInfo - min totalSize kMaximumBusInfo then None
      else bus_info_size (totalSize + length value) strings)"

definition EncodeBusInfoPayload :: "BusInfoPayload \<Rightarrow> bytes" where
  "EncodeBusInfoPayload information =
     (let strings = bus_info_strings information
      in case bus_info_size kBusInfoHeaderSize strings of
           None \<Rightarrow> []
         | Some totalSize \<Rightarrow>
             if bi_epoch information = 0 \<or> totalSize > kMaximumBusInfo
                \<or> BusState_code (bi_state information) > BusState_code BusStopping
                \<or> AdapterLockState_code (bi_lockState information)
                    > AdapterLockState_code LockRuntimeUnlocked
                \<or> AdapterLockReason_code (bi_lockReason information)
                    > AdapterLockReason_code ReasonPathOnlyIdentity then []
             else let payload = AppendLe16 [] (bi_busIndex information);
                      payload = payload @ [BusState_code (bi_state information)];
                      payload = payload @ [bool_byte (bi_linkUp information)];
                      payload = payload @ [AdapterLockState_code (bi_lockState information)];
                      payload = payload @ [AdapterLockReason_code (bi_lockReason information)];
                      payload = AppendLe16 payload (bi_subDeviceCount information);
                      payload = foldl (\<lambda>payload value. AppendLe16 payload (of_nat (length value)))
                                  payload strings;
                      payload = AppendLe64 payload (bi_epoch information)
                  in foldl (\<lambda>payload value. payload @ string_bytes value) payload strings)"

text \<open>
  The two loops of the decoder: reading the remaining lengths from a given index, and assigning
  the strings from a given offset.
\<close>

fun bus_info_lengths :: "bytes \<Rightarrow> nat \<Rightarrow> nat \<Rightarrow> nat \<Rightarrow> (u16 list \<times> nat) option" where
  "bus_info_lengths payload index 0 totalSize = Some ([], totalSize)"
| "bus_info_lengths payload index (Suc remaining) totalSize = do {
     len \<leftarrow> ReadLe16 payload (8 + index * 2);
     require (\<not> unat len > length payload - min totalSize (length payload));
     (lengths, totalSize) \<leftarrow>
       bus_info_lengths payload (index + 1) remaining (totalSize + unat len);
     Some (len # lengths, totalSize)
   }"

fun bus_info_assign :: "bytes \<Rightarrow> nat \<Rightarrow> u16 list \<Rightarrow> string list option" where
  "bus_info_assign payload offset [] = Some []"
| "bus_info_assign payload offset (len # lengths) = do {
     let destination = bytes_string (take (unat len) (drop offset payload));
     require (IsValidUtf8 (string_bytes destination));
     rest \<leftarrow> bus_info_assign payload (offset + unat len) lengths;
     Some (destination # rest)
   }"

definition DecodeBusInfoPayload :: "bytes \<Rightarrow> BusInfoPayload option" where
  "DecodeBusInfoPayload payload = do {
     require (\<not> length payload < kBusInfoHeaderSize);
     require (\<not> length payload > kMaximumBusInfo);
     busIndex \<leftarrow> ReadLe16 payload 0;
     require (\<not> payload ! 2 > BusState_code BusStopping);
     require (\<not> payload ! 3 > 1);
     require (\<not> payload ! 4 > AdapterLockState_code LockRuntimeUnlocked);
     require (\<not> payload ! 5 > AdapterLockReason_code ReasonPathOnlyIdentity);
     subDeviceCount \<leftarrow> ReadLe16 payload 6;
     epoch \<leftarrow> ReadLe64 payload 22;
     require (epoch \<noteq> 0);
     (lengths, totalSize) \<leftarrow> bus_info_lengths payload 0 7 kBusInfoHeaderSize;
     require (totalSize = length payload);
     strings \<leftarrow> bus_info_assign payload kBusInfoHeaderSize lengths;
     state \<leftarrow> BusState_of_code (payload ! 2);
     lockState \<leftarrow> AdapterLockState_of_code (payload ! 4);
     lockReason \<leftarrow> AdapterLockReason_of_code (payload ! 5);
     Some \<lparr>bi_busIndex = busIndex, bi_state = state, bi_linkUp = (payload ! 3 \<noteq> 0),
       bi_lockState = lockState, bi_lockReason = lockReason,
       bi_subDeviceCount = subDeviceCount, bi_logicalName = strings ! 0,
       bi_physicalInterface = strings ! 1, bi_idPath = strings ! 2,
       bi_permanentMac = strings ! 3, bi_usbSerial = strings ! 4,
       bi_usbVendorId = strings ! 5, bi_usbProductId = strings ! 6, bi_epoch = epoch\<rparr>
   }"

section \<open>Canonicity of BUS_INFO\<close>

lemma length_string_bytes [simp]: "length (string_bytes s) = length s"
  by (simp add: string_bytes_def)

lemma length_bytes_string [simp]: "length (bytes_string bs) = length bs"
  by (simp add: bytes_string_def)

lemma of_char_via_nat: "(of_char c :: u8) = of_nat (of_char c)"
  by (cases c) (simp add: of_char_def)

lemma string_bytes_bytes_string [simp]: "string_bytes (bytes_string bs) = bs"
proof -
  have "of_char (char_of (unat b)) = b" for b :: u8
    unfolding of_char_via_nat of_char_of
    using unsigned_less [of b, where 'a = nat] by simp
  then show ?thesis by (simp add: string_bytes_def bytes_string_def map_idI)
qed

lemma bytes_string_string_bytes [simp]: "bytes_string (string_bytes s) = s"
proof -
  have "char_of (unat (of_char c :: u8)) = c" for c
    by (simp add: of_char_via_nat unsigned_of_nat take_bit_nat_eq_self)
  then show ?thesis by (simp add: string_bytes_def bytes_string_def map_idI)
qed

lemma length_concat_le_bytes [simp]: "length (concat (map (le_bytes 2) ls)) = 2 * length ls"
  by (induction ls) simp_all

lemma take_pair: "take (2 * Suc k) (drop m xs) = take 2 (drop m xs) @ take (2 * k) (drop (m + 2) xs)"
  using take_add [of 2 "2 * k" "drop m xs"] by (simp add: add.commute)

lemma bus_info_size_Some:
  assumes "t \<le> kMaximumBusInfo"
  shows "bus_info_size t strings = Some s \<longleftrightarrow>
     s = t + sum_list (map length strings) \<and>
     list_all (\<lambda>v. IsValidUtf8 (string_bytes v)) strings \<and> s \<le> kMaximumBusInfo"
  using assms
  by (induction strings arbitrary: t) (auto simp: kMaximumBusInfo_def)

definition len_fields :: "string list \<Rightarrow> bytes" where
  "len_fields strings = concat (map (\<lambda>v. le_bytes 2 (of_nat (length v) :: u16)) strings)"

lemma foldl_len_fields:
  "foldl (\<lambda>payload value. AppendLe16 payload (of_nat (length value))) d strings =
     d @ len_fields strings"
  by (induction strings arbitrary: d) (simp_all add: len_fields_def wire_simps)

lemma foldl_string_bytes:
  "foldl (\<lambda>payload value. payload @ string_bytes value) d strings =
     d @ concat (map string_bytes strings)"
  by (induction strings arbitrary: d) simp_all

lemma bus_info_lengths_SomeD:
  "bus_info_lengths payload i k t = Some (ls, t') \<Longrightarrow>
     length ls = k \<and> t' = t + sum_list (map unat ls) \<and>
     concat (map (le_bytes 2) ls) = take (2 * k) (drop (8 + 2 * i) payload)"
proof (induction k arbitrary: i t ls)
  case (Suc k)
  then obtain l ls' where ls: "ls = l # ls'" "ReadLe16 payload (8 + i * 2) = Some l"
    and rest: "bus_info_lengths payload (i + 1) k (t + unat l) = Some (ls', t')"
    by (auto simp: Option.bind_eq_Some_conv)
  from ls(2) have "le_bytes 2 l = take 2 (drop (8 + 2 * i) payload)"
    by (simp add: wire_simps mult.commute)
  then show ?case using Suc.IH [OF rest] ls(1) take_pair [of k "8 + 2 * i" payload]
    by (simp add: add.commute)
qed simp

lemma bus_info_lengths_SomeI:
  "concat (map (le_bytes 2) ls) = take (2 * length ls) (drop (8 + 2 * i) payload) \<Longrightarrow>
   t + sum_list (map unat ls) \<le> length payload \<Longrightarrow>
   bus_info_lengths payload i (length ls) t = Some (ls, t + sum_list (map unat ls))"
proof (induction ls arbitrary: i t)
  case (Cons l ls)
  have "2 * length (l # ls) \<le> length payload - (8 + 2 * i)"
    using arg_cong [OF Cons.prems(1), of length] by (simp add: length_concat_le_bytes del: length_concat)
  then have 1: "le_bytes 2 l = take 2 (drop (8 + 2 * i) payload)"
   and 2: "concat (map (le_bytes 2) ls) = take (2 * length ls) (drop (8 + 2 * (i + 1)) payload)"
    using Cons.prems(1) take_pair [of "length ls" "8 + 2 * i" payload]
    by (auto simp: append_eq_append_conv)
  have "ReadLe16 payload (8 + i * 2) = Some l" using 1 by (simp add: wire_simps mult.commute)
  moreover have "unat l \<le> length payload - min t (length payload)" using Cons.prems(2) by simp
  ultimately show ?case using Cons.IH [OF 2, of "t + unat l"] Cons.prems(2)
    by (simp add: add.assoc)
qed simp

lemma bus_info_assign_Some:
  assumes "offset + sum_list (map unat ls) \<le> length payload"
  shows "bus_info_assign payload offset ls = Some strings \<longleftrightarrow>
     map length strings = map unat ls \<and>
     list_all (\<lambda>v. IsValidUtf8 (string_bytes v)) strings \<and>
     concat (map string_bytes strings) = take (sum_list (map unat ls)) (drop offset payload)"
  using assms
proof (induction ls arbitrary: offset strings)
  case (Cons l ls)
  show ?case
  proof (cases strings)
    case Nil
    then show ?thesis by (auto simp: Option.bind_eq_Some_conv)
  next
    case (Cons v vs)
    have IH: "bus_info_assign payload (offset + unat l) ls = Some vs \<longleftrightarrow>
     map length vs = map unat ls \<and> list_all (\<lambda>v. IsValidUtf8 (string_bytes v)) vs \<and>
     concat (map string_bytes vs) = take (sum_list (map unat ls)) (drop (offset + unat l) payload)"
      using Cons.IH [of "offset + unat l" vs] Cons.prems by (simp add: add.assoc)
    have "v = bytes_string (take (unat l) (drop offset payload)) \<longleftrightarrow>
      length v = unat l \<and> string_bytes v = take (unat l) (drop offset payload)"
      using Cons.prems bytes_string_string_bytes [of v] by (auto simp del: bytes_string_string_bytes)
    moreover have "string_bytes v @ xs = take (unat l) (drop offset payload) @ ys \<longleftrightarrow>
      string_bytes v = take (unat l) (drop offset payload) \<and> xs = ys" if "length v = unat l" for xs ys
      using that Cons.prems by (intro append_eq_append_conv) simp
    ultimately show ?thesis using IH Cons
      by (auto simp: Option.bind_eq_Some_conv take_add Let_def add.commute)
  qed
qed auto

lemmas code_not_greater [simp] = code_bounds [THEN leD] bool_byte_simps(1) [THEN leD]

lemma seven_strings: "length xs = 7 \<Longrightarrow> [xs ! 0, xs ! 1, xs ! 2, xs ! 3, xs ! 4, xs ! 5, xs ! 6] = xs"
  by (rule nth_equalityI) (auto simp: nth_Cons' less_Suc_eq numeral_eq_Suc)

lemma len_fields_lengths:
  "map length strings = map unat ls \<Longrightarrow> len_fields strings = concat (map (le_bytes 2) ls)"
  for ls :: "u16 list"
proof (induction strings arbitrary: ls)
  case (Cons v vs)
  then obtain l ls' where "ls = l # ls'" "length v = unat l" "map length vs = map unat ls'"
    by (cases ls) auto
  moreover have "(of_nat (unat l) :: u16) = l" by simp
  ultimately show ?case using Cons.IH [of ls'] by (simp add: len_fields_def)
qed (simp add: len_fields_def)

lemma map_unat_of_nat:
  assumes "sum_list ns \<le> 2018"
  shows "map (\<lambda>n. unat (of_nat n :: u16)) ns = ns"
proof (rule map_idI)
  fix n assume "n \<in> set ns"
  then have "n \<le> sum_list ns" by (intro member_le_sum_list) simp_all
  with assms show "unat (of_nat n :: u16) = n" by (simp add: unsigned_of_nat take_bit_nat_eq_self)
qed

definition bus_info_header :: "BusInfoPayload \<Rightarrow> bytes" where
  "bus_info_header p = le_bytes 2 (bi_busIndex p) @ [BusState_code (bi_state p), bool_byte (bi_linkUp p),
     AdapterLockState_code (bi_lockState p), AdapterLockReason_code (bi_lockReason p)] @
     le_bytes 2 (bi_subDeviceCount p) @ len_fields (bus_info_strings p) @ le_bytes 8 (bi_epoch p)"

lemma length_bus_info_header [simp]: "length (bus_info_header p) = 30"
proof -
  have "length (len_fields strings) = 2 * length strings" for strings
    by (induction strings) (simp_all add: len_fields_def)
  then show ?thesis by (simp add: bus_info_header_def bus_info_strings_def)
qed

lemma length_concat_string_bytes [simp]:
  "length (concat (map string_bytes strings)) = sum_list (map length strings)"
  by (simp add: length_concat comp_def)

lemma EncodeBusInfo_iff:
  "EncodeBusInfoPayload p = bs \<and> bs \<noteq> [] \<longleftrightarrow>
     bs = bus_info_header p @ concat (map string_bytes (bus_info_strings p)) \<and> bi_epoch p \<noteq> 0 \<and>
     list_all (\<lambda>v. IsValidUtf8 (string_bytes v)) (bus_info_strings p) \<and>
     30 + sum_list (map length (bus_info_strings p)) \<le> 2048"
proof (cases "list_all (\<lambda>v. IsValidUtf8 (string_bytes v)) (bus_info_strings p) \<and>
    30 + sum_list (map length (bus_info_strings p)) \<le> 2048")
  case True
  then have "bus_info_size 30 (bus_info_strings p) = Some (30 + sum_list (map length (bus_info_strings p)))"
    using bus_info_size_Some [of 30 "bus_info_strings p"] by (simp add: kMaximumBusInfo_def)
  with True show ?thesis
    unfolding EncodeBusInfoPayload_def Let_def foldl_len_fields foldl_string_bytes
    by (auto simp: bus_info_header_def wire_simps kBusInfoHeaderSize_def kMaximumBusInfo_def)
next
  case False
  then have "bus_info_size 30 (bus_info_strings p) \<noteq> Some s" for s
    using bus_info_size_Some [of 30 "bus_info_strings p" s] by (auto simp: kMaximumBusInfo_def)
  then have "bus_info_size 30 (bus_info_strings p) = None" by (rule not_Some_eq [THEN iffD1, OF allI])
  with False show ?thesis
    by (auto simp: EncodeBusInfoPayload_def Let_def kBusInfoHeaderSize_def)
qed

lemma DecodeBusInfo_sound:
  assumes "DecodeBusInfoPayload bs = Some p"
  shows "EncodeBusInfoPayload p = bs \<and> bs \<noteq> []"
proof -
  from assms obtain ls strings where
    len: "30 \<le> length bs" "length bs \<le> 2048" and
    f: "le_bytes 2 (bi_busIndex p) = take 2 bs" "le_bytes 2 (bi_subDeviceCount p) = take 2 (drop 6 bs)"
       "le_bytes 8 (bi_epoch p) = take 8 (drop 22 bs)" "bi_epoch p \<noteq> 0"
       "BusState_code (bi_state p) = bs ! 2" "bool_byte (bi_linkUp p) = bs ! 3"
       "AdapterLockState_code (bi_lockState p) = bs ! 4" "AdapterLockReason_code (bi_lockReason p) = bs ! 5"
    and lens: "bus_info_lengths bs 0 7 30 = Some (ls, length bs)"
    and strs: "bus_info_assign bs 30 ls = Some strings"
       "bus_info_strings p = [strings ! 0, strings ! 1, strings ! 2, strings ! 3, strings ! 4,
          strings ! 5, strings ! 6]"
    by (auto simp: DecodeBusInfoPayload_def decode_simps kBusInfoHeaderSize_def bus_info_strings_def)
  have ls: "length ls = 7" "length bs = 30 + sum_list (map unat ls)"
     "concat (map (le_bytes 2) ls) = take 14 (drop 8 bs)"
    using bus_info_lengths_SomeD [OF lens] by auto
  then have st: "map length strings = map unat ls"
     "list_all (\<lambda>v. IsValidUtf8 (string_bytes v)) strings" "concat (map string_bytes strings) = drop 30 bs"
    using bus_info_assign_Some [of 30 ls bs strings] strs(1) by auto
  then have "length strings = 7" using ls(1) by (metis length_map)
  then have "bus_info_strings p = strings" using strs(2) seven_strings by simp
  then show ?thesis
    unfolding EncodeBusInfo_iff bus_info_header_def f len_fields_lengths [OF st(1)] ls(3)
    using st ls f(4) len len_fields_lengths [OF st(1)] by (simp add: bus_info_header_def)
qed

lemma DecodeBusInfo_complete:
  assumes "EncodeBusInfoPayload p = bs \<and> bs \<noteq> []"
  shows "DecodeBusInfoPayload bs = Some p"
proof -
  define strings where "strings = bus_info_strings p"
  define ls :: "u16 list" where "ls = map (\<lambda>v. of_nat (length v)) strings"
  have len7: "length strings = 7" by (simp add: strings_def bus_info_strings_def)
  from assms have enc: "bs = bus_info_header p @ concat (map string_bytes strings)" "bi_epoch p \<noteq> 0"
     "list_all (\<lambda>v. IsValidUtf8 (string_bytes v)) strings" "sum_list (map length strings) \<le> 2018"
    unfolding EncodeBusInfo_iff strings_def by auto
  have lens: "map unat ls = map length strings"
    using map_unat_of_nat [OF enc(4)] by (simp add: ls_def comp_def)
  have lf: "len_fields strings = concat (map (le_bytes 2) ls)" by (rule len_fields_lengths) (simp add: lens)
  have size: "length bs = 30 + sum_list (map length strings)"
    by (simp add: enc(1) del: length_concat)
  have hdr: "drop 8 (bus_info_header p) = concat (map (le_bytes 2) ls) @ le_bytes 8 (bi_epoch p)"
    "length ls = 7"
    unfolding bus_info_header_def strings_def [symmetric] lf by (simp_all add: ls_def len7)
  have "bus_info_lengths bs 0 (length ls) 30 = Some (ls, 30 + sum_list (map unat ls))"
    using hdr by (intro bus_info_lengths_SomeI) (simp_all add: size lens enc(1))
  then have 1: "bus_info_lengths bs 0 7 30 = Some (ls, length bs)"
    by (simp add: size lens hdr)
  have 2: "bus_info_assign bs 30 ls = Some strings"
    using bus_info_assign_Some [of 30 ls bs strings] enc(3) size lens by (simp add: enc(1))
  have 3: "ReadLe16 bs 0 = Some (bi_busIndex p)" "ReadLe16 bs 6 = Some (bi_subDeviceCount p)"
    "bs ! 2 = BusState_code (bi_state p)" "bs ! 3 = bool_byte (bi_linkUp p)"
    "bs ! 4 = AdapterLockState_code (bi_lockState p)" "bs ! 5 = AdapterLockReason_code (bi_lockReason p)"
    by (simp_all add: enc(1) bus_info_header_def wire_simps nth_append_skip)
  have 4: "ReadLe64 bs 22 = Some (bi_epoch p)"
    using arg_cong [OF hdr(1), of "drop 14"] hdr(2) by (simp add: wire_simps enc(1))
  show ?thesis
    using 1 2 3 4 enc(2,4) size
    by (cases p) (simp add: DecodeBusInfoPayload_def kBusInfoHeaderSize_def kMaximumBusInfo_def
        strings_def bus_info_strings_def)
qed

lemma bus_info_canonical:
  "DecodeBusInfoPayload bs = Some p \<longleftrightarrow> EncodeBusInfoPayload p = bs \<and> bs \<noteq> []"
  using DecodeBusInfo_sound DecodeBusInfo_complete by blast

interpretation bus_info: codec EncodeBusInfoPayload DecodeBusInfoPayload
  by unfold_locales (rule bus_info_canonical)

section \<open>Properties\<close>

text \<open>
  C26: \<^verbatim>\<open>IsValidUtf8\<close> accepts exactly the UTF-8 encodings of sequences of non-zero Unicode
  scalar values: overlong forms, surrogates, values above U+10FFFF, embedded NUL bytes, stray and
  missing continuation bytes are all rejected, and nothing else is.
\<close>

theorem IsValidUtf8_iff_encoding:
  "IsValidUtf8 bs \<longleftrightarrow> (\<exists>cs. list_all scalar_value cs \<and> bs = concat (map utf8_encode cs))"
  using utf8_sound utf8_complete by blast


end
