(* ===== verification/Frame_Decoder.thy ===== *)
theory Frame_Decoder
  imports Bus_Info
begin

text \<open>
  Frame envelope and the incremental decoder of \<^verbatim>\<open>protocol.hpp\<close>. \<open>parse_frame\<close> is the body
  of the \<^verbatim>\<open>while\<close> loop of \<^verbatim>\<open>FrameDecoder::Feed\<close> at one parse offset, \<open>feed_loop\<close> the loop and
  \<open>Feed\<close> the method; the frames appended to the caller's vector are returned. A byte stream is
  specified by the frames it begins with and what follows them; the decoder computes that
  decomposition however the stream is cut into reads.
\<close>

section \<open>Frames and their envelope\<close>

record Frame =
  frame_type :: MessageType
  frame_requestId :: u32
  frame_payload :: bytes

definition EncodeFrame :: "MessageType \<Rightarrow> u32 \<Rightarrow> bytes \<Rightarrow> bytes" where
  "EncodeFrame mt requestId payload =
     (let frameLength = kEnvelopeSize + length payload
      in if \<not> IsKnownMessageType (MessageType_code mt) \<or> frameLength > kMaximumFrameLength then []
         else let encoded = AppendLe32 [] (of_nat frameLength);
                  encoded = encoded @ kMagic;
                  encoded = encoded @ [kVersion];
                  encoded = encoded @ [MessageType_code mt];
                  encoded = AppendLe16 encoded 0;
                  encoded = AppendLe32 encoded requestId
              in encoded @ payload)"

abbreviation encode_frame :: "Frame \<Rightarrow> bytes" where
  "encode_frame f \<equiv> EncodeFrame (frame_type f) (frame_requestId f) (frame_payload f)"

section \<open>The decoder\<close>

datatype DecoderError =
    ErrNone | ErrBufferLimit | ErrInvalidLength | ErrInvalidMagic | ErrUnsupportedVersion
  | ErrReservedFlags | ErrInvalidMessageType

datatype parse_result = NeedMore | Failed DecoderError | Parsed Frame nat

definition parse_frame :: "bytes \<Rightarrow> nat \<Rightarrow> parse_result" where
  "parse_frame buffer parseOffset =
     (if \<not> length buffer - parseOffset \<ge> kLengthPrefixSize then NeedMore
      else case ReadLe32 buffer parseOffset of
        None \<Rightarrow> Failed ErrInvalidLength
      | Some frameLength \<Rightarrow>
          if unat frameLength < kMinimumFrameLength \<or> unat frameLength > kMaximumFrameLength
          then Failed ErrInvalidLength
          else let totalLength = kLengthPrefixSize + unat frameLength
          in if length buffer - parseOffset < totalLength then NeedMore
          else if take (length kMagic) (drop (parseOffset + kLengthPrefixSize) buffer) \<noteq> kMagic
          then Failed ErrInvalidMagic
          else if buffer ! (parseOffset + 8) \<noteq> kVersion then Failed ErrUnsupportedVersion
          else if ReadLe16 buffer (parseOffset + 10) \<noteq> Some 0 then Failed ErrReservedFlags
          else case ReadLe32 buffer (parseOffset + 12) of
            None \<Rightarrow> Failed ErrInvalidLength
          | Some requestId \<Rightarrow>
              case MessageType_of_code (buffer ! (parseOffset + 9)) of
                None \<Rightarrow> Failed ErrInvalidMessageType
              | Some mt \<Rightarrow>
                  Parsed \<lparr>frame_type = mt, frame_requestId = requestId,
                      frame_payload = drop (parseOffset + kLengthPrefixSize + kEnvelopeSize)
                        (take (parseOffset + totalLength) buffer)\<rparr> totalLength)"

lemma parse_frame_Parsed_pos: "parse_frame buffer off = Parsed f n \<Longrightarrow> 0 < n \<and> off + n \<le> length buffer"
  by (auto simp: parse_frame_def Let_def protocol_constants not_less split: if_splits option.splits)

function feed_loop :: "bytes \<Rightarrow> nat \<Rightarrow> Frame list \<Rightarrow> DecoderError \<times> nat \<times> Frame list" where
  "feed_loop buffer parseOffset decodedFrames =
     (case parse_frame buffer parseOffset of
        NeedMore \<Rightarrow> (ErrNone, parseOffset, decodedFrames)
      | Failed err \<Rightarrow> (err, parseOffset, decodedFrames)
      | Parsed f totalLength \<Rightarrow>
          feed_loop buffer (parseOffset + totalLength) (decodedFrames @ [f]))"
  by pat_completeness auto
termination
  by (relation "measure (\<lambda>(buffer, parseOffset, _). length buffer - parseOffset)")
    (auto dest: parse_frame_Parsed_pos)

record FrameDecoder =
  fd_buffer :: bytes
  fd_error :: DecoderError

definition decoder_init :: FrameDecoder where
  "decoder_init = \<lparr>fd_buffer = [], fd_error = ErrNone\<rparr>"

definition Feed :: "FrameDecoder \<Rightarrow> bytes \<Rightarrow> bool \<times> Frame list \<times> FrameDecoder" where
  "Feed d bs =
     (if fd_error d \<noteq> ErrNone then (False, [], d)
      else if length bs > kMaximumBufferedInput
              \<or> length (fd_buffer d) > kMaximumBufferedInput - length bs
      then (False, [], d\<lparr>fd_error := ErrBufferLimit\<rparr>)
      else let buffer = fd_buffer d @ bs
           in case feed_loop buffer 0 [] of
                (err, parseOffset, decodedFrames) \<Rightarrow>
                  if err \<noteq> ErrNone
                  then (False, decodedFrames, \<lparr>fd_buffer = buffer, fd_error = err\<rparr>)
                  else (True, decodedFrames, \<lparr>fd_buffer = drop parseOffset buffer, fd_error = err\<rparr>))"

definition bufferedBytes :: "FrameDecoder \<Rightarrow> nat" where
  "bufferedBytes d = length (fd_buffer d)"

definition Reset :: "FrameDecoder \<Rightarrow> FrameDecoder" where
  "Reset d = d\<lparr>fd_buffer := [], fd_error := ErrNone\<rparr>"

declare feed_loop.simps [simp del]

section \<open>One frame\<close>

lemma length_kMagic [simp]: "length kMagic = 4"
  by (simp add: kMagic_def)

lemma unat_of_nat_u32: "n < 2 ^ 32 \<Longrightarrow> unat (of_nat n :: u32) = n"
  by (simp add: unsigned_of_nat take_bit_nat_eq_self)

lemmas size_constants = kEnvelopeSize_def kLengthPrefixSize_def kMinimumFrameLength_def
  kMaximumFrameLength_def kMaximumBufferedInput_def kVersion_def

lemma EncodeFrame_layout:
  "EncodeFrame mt requestId payload =
     (if length payload > 8180 then []
      else le_bytes 4 (of_nat (12 + length payload) :: u32) @ kMagic @ [1, MessageType_code mt] @
        le_bytes 2 (0 :: u16) @ le_bytes 4 requestId @ payload)"
  by (auto simp: EncodeFrame_def Let_def wire_simps protocol_constants IsKnown_iff)

lemma ReadLe_shift:
  "off \<le> length buffer \<Longrightarrow> ReadLe32 buffer (off + n) = ReadLe32 (drop off buffer) n"
  "off \<le> length buffer \<Longrightarrow> ReadLe16 buffer (off + n) = ReadLe16 (drop off buffer) n"
  by (simp_all add: ReadLe32_def ReadLe16_def upt_conv_Cons add.assoc)

lemma parse_frame_shift:
  assumes "off \<le> length buffer"
  shows "parse_frame buffer off = parse_frame (drop off buffer) 0"
proof (cases "ReadLe32 buffer off")
  case None
  then show ?thesis
    using ReadLe_shift(1) [OF assms, of 0] by (simp add: parse_frame_def)
next
  case (Some l)
  moreover have "ReadLe32 (drop off buffer) 0 = Some l"
    using Some ReadLe_shift(1) [OF assms, of 0] by simp
  ultimately show ?thesis
    using ReadLe_shift(1) [OF assms, of 12] ReadLe_shift(2) [OF assms, of 10] assms
    by (auto simp: parse_frame_def Let_def drop_take add.assoc add.commute [of _ off]
        split: option.split)
qed

lemma parse_frame_complete:
  assumes "encode_frame f \<noteq> []"
  shows "parse_frame (encode_frame f @ rest) 0 = Parsed f (length (encode_frame f))"
proof -
  define l where "l = (of_nat (12 + length (frame_payload f)) :: u32)"
  have len: "length (frame_payload f) \<le> 8180"
    using assms by (auto simp: EncodeFrame_layout split: if_splits)
  then have n: "unat l = 12 + length (frame_payload f)"
    unfolding l_def by (intro unat_of_nat_u32) simp
  have enc: "encode_frame f = le_bytes 4 l @ kMagic @ [1, MessageType_code (frame_type f)] @
        le_bytes 2 (0 :: u16) @ le_bytes 4 (frame_requestId f) @ frame_payload f"
    using len by (simp add: EncodeFrame_layout l_def)
  have "ReadLe32 (encode_frame f @ rest) 0 = Some l"
    "ReadLe16 (encode_frame f @ rest) 10 = Some 0"
    "ReadLe32 (encode_frame f @ rest) 12 = Some (frame_requestId f)"
    unfolding enc by (simp_all add: wire_simps)
  then show ?thesis using len n unfolding enc
    by (cases f) (simp add: parse_frame_def size_constants Let_def nth_append_skip drop_take)
qed

lemma header_slices:
  "16 \<le> length ts \<Longrightarrow> take 4 ts @ take 4 (drop 4 ts) @ [ts ! 8, ts ! 9] @ take 2 (drop 10 ts) @
     take 4 (drop 12 ts) @ drop 16 ts = ts"
  by simp

lemma parse_frame_sound:
  assumes "parse_frame bs 0 = Parsed f n"
  shows "encode_frame f \<noteq> [] \<and> n = length (encode_frame f) \<and> bs = encode_frame f @ drop n bs"
proof -
  from assms obtain l where l: "le_bytes 4 (l :: u32) = take 4 bs" "12 \<le> unat l" "unat l \<le> 8192"
     "4 + unat l \<le> length bs" "take 4 (drop 4 bs) = kMagic" "bs ! 8 = 1"
     "le_bytes 2 (0::u16) = take 2 (drop 10 bs)" "le_bytes 4 (frame_requestId f) = take 4 (drop 12 bs)"
     "MessageType_code (frame_type f) = bs ! 9" "frame_payload f = drop 16 (take (4 + unat l) bs)" "n = 4 + unat l"
    by (auto simp: parse_frame_def Let_def size_constants wire_simps of_code_iff not_less
        split: if_splits option.splits)
  have "of_nat (unat l) = l" by simp
  with l have "encode_frame f = take 4 bs @ take 4 (drop 4 bs) @ [bs ! 8, bs ! 9] @ take 2 (drop 10 bs) @
      take 4 (drop 12 bs) @ drop 16 (take (4 + unat l) bs)"
    by (simp add: EncodeFrame_layout)
  also have "\<dots> = take n bs"
    using header_slices [of "take n bs"] l(2,4,11) by (simp add: take_drop min_def)
  finally show ?thesis using l by auto
qed

lemma parse_frame_Parsed_iff:
  "parse_frame bs 0 = Parsed f n \<longleftrightarrow>
     encode_frame f \<noteq> [] \<and> n = length (encode_frame f) \<and> (\<exists>rest. bs = encode_frame f @ rest)"
  using parse_frame_sound parse_frame_complete by blast

section \<open>Streams of frames\<close>

text \<open>The decomposition of a byte stream that specifies the decoder.\<close>

definition stream_of :: "Frame list \<Rightarrow> bytes" where
  "stream_of fs = concat (map encode_frame fs)"

definition frame_ok :: "Frame \<Rightarrow> bool" where
  "frame_ok f \<longleftrightarrow> encode_frame f \<noteq> []"

definition tail_result :: "bytes \<Rightarrow> DecoderError option" where
  "tail_result bs = (case parse_frame bs 0 of NeedMore \<Rightarrow> Some ErrNone | Failed err \<Rightarrow> Some err
     | Parsed _ _ \<Rightarrow> None)"

lemma feed_loop_spec:
  assumes "off \<le> length buffer"
  shows "\<exists>fs off' err. feed_loop buffer off acc = (err, off', acc @ fs) \<and> off' \<le> length buffer \<and>
     list_all frame_ok fs \<and> drop off buffer = stream_of fs @ drop off' buffer \<and>
     tail_result (drop off' buffer) = Some err"
  using assms
proof (induction buffer off acc rule: feed_loop.induct)
  case (1 buffer off acc)
  note shift = parse_frame_shift [OF "1.prems"]
  show ?case
  proof (cases "parse_frame buffer off")
    case NeedMore
    then show ?thesis using 1 shift
      by (intro exI [of _ "[]"]) (simp add: feed_loop.simps [of buffer off acc] stream_of_def tail_result_def)
  next
    case (Failed err)
    then show ?thesis using 1 shift
      by (intro exI [of _ "[]"]) (simp add: feed_loop.simps [of buffer off acc] stream_of_def tail_result_def)
  next
    case (Parsed f n)
    then have le: "off + n \<le> length buffer" using parse_frame_Parsed_pos by blast
    from "1.IH" [OF Parsed le] obtain fs off' err where
      *: "feed_loop buffer (off + n) (acc @ [f]) = (err, off', acc @ f # fs)" "off' \<le> length buffer"
      "list_all frame_ok fs" "drop (off + n) buffer = stream_of fs @ drop off' buffer"
      "tail_result (drop off' buffer) = Some err" by auto
    from Parsed shift have "frame_ok f" "drop off buffer = encode_frame f @ drop (off + n) buffer"
      using parse_frame_sound [of "drop off buffer" f n] by (auto simp: frame_ok_def add.commute)
    with * Parsed show ?thesis
      by (intro exI [of _ "f # fs"] exI [of _ off'] exI [of _ err])
         (simp add: feed_loop.simps [of buffer off acc] stream_of_def)
  qed
qed

lemma stream_unique:
  assumes "stream_of fs @ rest = stream_of gs @ rest'" "list_all frame_ok fs" "list_all frame_ok gs"
    "tail_result rest \<noteq> None" "tail_result rest' \<noteq> None"
  shows "fs = gs \<and> rest = rest'"
  using assms
proof (induction fs arbitrary: gs)
  case Nil
  then show ?case
    by (cases gs) (auto simp: stream_of_def tail_result_def frame_ok_def parse_frame_complete)
next
  case (Cons f fs)
  show ?case
  proof (cases gs)
    case Nil
    with Cons.prems show ?thesis
      using parse_frame_complete [of f "stream_of fs @ rest"]
      by (auto simp: stream_of_def tail_result_def frame_ok_def)
  next
    case (Cons g gs')
    have "parse_frame (stream_of (f # fs) @ rest) 0 = Parsed f (length (encode_frame f))"
      "parse_frame (stream_of gs @ rest') 0 = Parsed g (length (encode_frame g))"
      using Cons.prems Cons parse_frame_complete [of f "stream_of fs @ rest"]
        parse_frame_complete [of g "stream_of gs' @ rest'"]
      by (simp_all add: stream_of_def frame_ok_def)
    with Cons.prems(1) have "f = g" by simp
    with Cons.IH [of gs'] Cons.prems Cons show ?thesis by (simp add: stream_of_def)
  qed
qed

lemma parse_frame_not_Failed_None: "parse_frame bs off \<noteq> Failed ErrNone"
  by (auto simp: parse_frame_def Let_def split: option.splits)

lemma parse_frame_not_BufferLimit: "parse_frame bs off \<noteq> Failed ErrBufferLimit"
  by (auto simp: parse_frame_def Let_def split: option.splits)

lemma tail_result_None: "tail_result rest = Some ErrNone \<longleftrightarrow> parse_frame rest 0 = NeedMore"
  using parse_frame_not_Failed_None [of rest 0] by (auto simp: tail_result_def split: parse_result.splits)

lemma parse_frame_prefix:
  assumes "parse_frame p 0 \<noteq> NeedMore"
  shows "parse_frame (p @ q) 0 = parse_frame p 0"
proof -
  have 4: "4 \<le> length p" using assms by (cases "4 \<le> length p") (simp_all add: parse_frame_def size_constants)
  have read: "ReadLe32 (p @ q) n = ReadLe32 p n" "ReadLe16 (p @ q) m = ReadLe16 p m"
    if "n + 4 \<le> length p" "m + 2 \<le> length p" for n m
    using that by (simp_all add: ReadLe32_def ReadLe16_def nth_append upt_conv_Cons)
  obtain l where l: "ReadLe32 p 0 = Some l" using 4 by (simp add: ReadLe32_def)
  show ?thesis
  proof (cases "unat l < 12 \<or> 8192 < unat l")
    case True
    then show ?thesis using 4 l read(1) [of 0 0] by (auto simp: parse_frame_def size_constants)
  next
    case False
    then have len: "4 + unat l \<le> length p" "16 \<le> length p"
      using assms 4 l by (auto simp: parse_frame_def size_constants Let_def not_le not_less split: if_splits)
    then show ?thesis
      using l read [of 0 0] read [of 12 10]
      by (simp add: parse_frame_def size_constants Let_def nth_append split: option.split)
  qed
qed

lemma NeedMore_short: "parse_frame rest 0 = NeedMore \<Longrightarrow> length rest < 8196"
  by (auto simp: parse_frame_def size_constants Let_def split: if_splits option.splits)

lemma Feed_decomposes:
  assumes "fd_error d = ErrNone" "length (fd_buffer d) + length bs \<le> kMaximumBufferedInput"
  obtains fs rest err where "list_all frame_ok fs" "fd_buffer d @ bs = stream_of fs @ rest"
    "tail_result rest = Some err"
    "Feed d bs = (err = ErrNone, fs,
       \<lparr>fd_buffer = (if err = ErrNone then rest else fd_buffer d @ bs), fd_error = err\<rparr>)"
proof -
  define buffer where "buffer = fd_buffer d @ bs"
  from feed_loop_spec [of 0 buffer "[]"] obtain fs off err where
    *: "feed_loop buffer 0 [] = (err, off, fs)" "list_all frame_ok fs"
      "buffer = stream_of fs @ drop off buffer" "tail_result (drop off buffer) = Some err"
    by auto
  have "\<not> (length bs > kMaximumBufferedInput \<or> length (fd_buffer d) > kMaximumBufferedInput - length bs)"
    using assms(2) by auto
  then have "Feed d bs = (err = ErrNone, fs,
      \<lparr>fd_buffer = (if err = ErrNone then drop off buffer else buffer), fd_error = err\<rparr>)"
    using assms(1) *(1) by (simp add: Feed_def Let_def buffer_def)
  with *(2-4) that [of fs "drop off buffer" err] show ?thesis unfolding buffer_def by blast
qed

section \<open>Feeding chunks\<close>

definition decoder_ok :: "FrameDecoder \<Rightarrow> bool" where
  "decoder_ok d \<longleftrightarrow> (fd_error d = ErrNone \<longrightarrow> parse_frame (fd_buffer d) 0 = NeedMore)"

lemma decoder_ok_init: "decoder_ok decoder_init"
  by (simp add: decoder_ok_def decoder_init_def parse_frame_def size_constants)

lemma Feed_within_limit:
  assumes "decoder_ok d" "fd_error d = ErrNone" "length bs \<le> 8196"
  shows "length (fd_buffer d) + length bs \<le> kMaximumBufferedInput"
  using assms NeedMore_short [of "fd_buffer d"] by (simp add: decoder_ok_def size_constants)

fun feed_all :: "FrameDecoder \<Rightarrow> bytes list \<Rightarrow> bool \<times> Frame list \<times> FrameDecoder" where
  "feed_all d [] = (True, [], d)"
| "feed_all d (chunk # chunks) =
     (case Feed d chunk of
        (ok, frames, d') \<Rightarrow>
          if ok then (case feed_all d' chunks of (ok', frames', d'') \<Rightarrow> (ok', frames @ frames', d''))
          else (False, frames, d'))"

lemma stream_of_append: "stream_of (fs @ gs) = stream_of fs @ stream_of gs"
  by (simp add: stream_of_def)

lemma feed_all_spec:
  assumes "parse_frame (fd_buffer d) 0 = NeedMore" "fd_error d = ErrNone"
    and "\<And>c. c \<in> set chunks \<Longrightarrow> length c \<le> 8196"
    and "fd_buffer d @ concat chunks = stream_of fs @ rest" "list_all frame_ok fs"
    and "tail_result rest = Some err"
  shows "\<exists>d'. feed_all d chunks = (err = ErrNone, fs, d') \<and> fd_error d' = err \<and>
    (err = ErrNone \<longrightarrow> fd_buffer d' = rest)"
  using assms
proof (induction chunks arbitrary: d fs)
  case Nil
  then have "stream_of [] @ fd_buffer d = stream_of fs @ rest" by (simp add: stream_of_def)
  with Nil.prems have "fs = [] \<and> fd_buffer d = rest"
    using stream_unique [of "[]" "fd_buffer d" fs rest] by (simp add: tail_result_def)
  with Nil.prems show ?case by (auto simp: tail_result_def)
next
  case (Cons c cs)
  have lim: "length (fd_buffer d) + length c \<le> kMaximumBufferedInput"
    using Cons.prems by (intro Feed_within_limit) (auto simp: decoder_ok_def)
  obtain fs1 rest1 err1 where f: "list_all frame_ok fs1" "fd_buffer d @ c = stream_of fs1 @ rest1"
    "tail_result rest1 = Some err1"
    "Feed d c = (err1 = ErrNone, fs1,
       \<lparr>fd_buffer = (if err1 = ErrNone then rest1 else fd_buffer d @ c), fd_error = err1\<rparr>)"
    using Feed_decomposes [OF Cons.prems(2) lim] by blast
  have whole: "stream_of fs1 @ rest1 @ concat cs = stream_of fs @ rest"
    using f(2) Cons.prems(4) by (metis append.assoc concat.simps(2))
  show ?case
  proof (cases "err1 = ErrNone")
    case False
    then have "parse_frame (rest1 @ concat cs) 0 = Failed err1"
      using f(3) parse_frame_prefix [of rest1 "concat cs"]
      by (auto simp: tail_result_def split: parse_result.splits)
    then have "tail_result (rest1 @ concat cs) = Some err1" by (simp add: tail_result_def)
    then have "fs1 = fs \<and> rest1 @ concat cs = rest"
      using stream_unique [OF whole f(1) Cons.prems(5)] Cons.prems(6) by simp
    then show ?thesis using f(4) False \<open>tail_result (rest1 @ concat cs) = Some err1\<close> Cons.prems(6) by auto
  next
    case True
    define d1 where "d1 = \<lparr>fd_buffer = rest1, fd_error = ErrNone\<rparr>"
    have more: "parse_frame rest1 0 = NeedMore" using f(3) True tail_result_None by simp
    obtain gs rest' err' where g: "list_all frame_ok gs" "rest1 @ concat cs = stream_of gs @ rest'"
      "tail_result rest' = Some err'"
      using feed_loop_spec [of 0 "rest1 @ concat cs" "[]"] by auto
    have "stream_of (fs1 @ gs) @ rest' = stream_of fs @ rest"
      using whole g(2) by (simp add: stream_of_append)
    then have "fs1 @ gs = fs \<and> rest' = rest"
      using stream_unique [of "fs1 @ gs" rest' fs rest] f(1) g(1,3) Cons.prems(5,6) by simp
    with Cons.IH [of d1 gs] g Cons.prems(3,6) more show ?thesis
      by (auto simp: f(4) True d1_def)
  qed
qed
lemma frame_ok_iff: "frame_ok f \<longleftrightarrow> length (frame_payload f) \<le> 8180"
  by (auto simp: frame_ok_def EncodeFrame_layout)

lemma tail_result_Nil: "tail_result [] = Some ErrNone"
  by (simp add: tail_result_def parse_frame_def size_constants)

section \<open>Properties\<close>

text \<open>
  C9: frames survive the stream. Whatever frames a peer encodes, and however the resulting byte
  stream is cut into reads of at most one maximum frame, the decoder delivers exactly those
  frames in order, reports no error and keeps no residue.
\<close>

theorem frames_survive_fragmentation:
  assumes "\<forall>f\<in>set frames. length (frame_payload f) \<le> kMaximumFrameLength - kEnvelopeSize"
    and "\<forall>c\<in>set chunks. length c \<le> kLengthPrefixSize + kMaximumFrameLength"
    and "concat chunks = concat (map encode_frame frames)"
  shows "feed_all decoder_init chunks = (True, frames, decoder_init)"
proof -
  have ok: "list_all frame_ok frames"
    using assms(1) by (simp add: list_all_iff frame_ok_iff size_constants)
  have "\<exists>d'. feed_all decoder_init chunks = (ErrNone = ErrNone, frames, d') \<and> fd_error d' = ErrNone \<and>
      (ErrNone = ErrNone \<longrightarrow> fd_buffer d' = [])"
    using assms(2,3) decoder_ok_init ok
    by (intro feed_all_spec [where rest = "[]"])
       (auto simp: decoder_ok_def decoder_init_def size_constants stream_of_def tail_result_Nil)
  then show ?thesis by (auto simp: decoder_init_def)
qed

theorem frames_survive_fragmentation_witness:
  "feed_all decoder_init
     [take 5 (EncodeFrame MtHeartbeat 7 [1, 2]),
      drop 5 (EncodeFrame MtHeartbeat 7 [1, 2]) @ EncodeFrame MtAck 8 []] =
     (True, [\<lparr>frame_type = MtHeartbeat, frame_requestId = 7, frame_payload = [1, 2]\<rparr>,
        \<lparr>frame_type = MtAck, frame_requestId = 8, frame_payload = []\<rparr>], decoder_init)"
  by (rule frames_survive_fragmentation) (simp_all add: size_constants EncodeFrame_layout)

text \<open>
  C13: decoding does not depend on chunking, valid or not. Every byte stream starts with some
  valid frames followed by a tail that is incomplete or in error; the decoder delivers exactly
  those frames and reports exactly the error of that tail (none when it is only incomplete, in
  which case the tail is what stays buffered), for every way of cutting the stream into reads of
  at most one maximum frame. In particular frames before an error are delivered, none after it.
\<close>

theorem decoding_independent_of_chunking:
  assumes "\<forall>c\<in>set chunks. length c \<le> kLengthPrefixSize + kMaximumFrameLength"
  shows "\<exists>frames tail err d. concat chunks = concat (map encode_frame frames) @ tail
    \<and> list_all (\<lambda>f. encode_frame f \<noteq> []) frames
    \<and> (err = ErrNone \<and> parse_frame tail 0 = NeedMore \<or> err \<noteq> ErrNone \<and> parse_frame tail 0 = Failed err)
    \<and> feed_all decoder_init chunks = (err = ErrNone, frames, d) \<and> fd_error d = err
    \<and> (err = ErrNone \<longrightarrow> fd_buffer d = tail)"
proof -
  obtain frames tail err where *: "list_all frame_ok frames" "concat chunks = stream_of frames @ tail"
      "tail_result tail = Some err"
    using feed_loop_spec [of 0 "concat chunks" "[]"] by auto
  have "\<exists>d. feed_all decoder_init chunks = (err = ErrNone, frames, d) \<and> fd_error d = err \<and>
      (err = ErrNone \<longrightarrow> fd_buffer d = tail)"
    using assms decoder_ok_init *
    by (intro feed_all_spec) (auto simp: decoder_ok_def decoder_init_def size_constants)
  moreover have "err = ErrNone \<and> parse_frame tail 0 = NeedMore
      \<or> err \<noteq> ErrNone \<and> parse_frame tail 0 = Failed err"
    using *(3) tail_result_None [of tail] by (auto simp: tail_result_def split: parse_result.splits)
  ultimately show ?thesis using * by (auto simp: stream_of_def frame_ok_def [abs_def])
qed

theorem decoding_independent_of_chunking_witness:
  "\<exists>frames tail err d. concat [[12, 0], [0, 0, 1 :: u8]] = concat (map encode_frame frames) @ tail
    \<and> list_all (\<lambda>f. encode_frame f \<noteq> []) frames
    \<and> (err = ErrNone \<and> parse_frame tail 0 = NeedMore \<or> err \<noteq> ErrNone \<and> parse_frame tail 0 = Failed err)
    \<and> feed_all decoder_init [[12, 0], [0, 0, 1]] = (err = ErrNone, frames, d) \<and> fd_error d = err
    \<and> (err = ErrNone \<longrightarrow> fd_buffer d = tail)"
  by (rule decoding_independent_of_chunking) (simp add: size_constants)

text \<open>
  C14: the decoder's buffer is bounded and every byte is accounted for. A decoder without error
  that is fed a read of at most one maximum frame never reports a buffer overflow; when it
  accepts, the bytes it held and received are exactly the canonical encodings of the delivered
  frames followed by the new buffer, which is an incomplete frame shorter than one maximum frame;
  once it has reported an error it delivers nothing more and keeps its state.
\<close>

theorem Feed_accounts_for_every_byte:
  assumes "decoder_ok d" and "length bs \<le> kLengthPrefixSize + kMaximumFrameLength"
    and "Feed d bs = (ok, frames, d')"
  shows "decoder_ok d' \<and> ok = (fd_error d' = ErrNone)
    \<and> (fd_error d \<noteq> ErrNone \<longrightarrow> frames = [] \<and> d' = d)
    \<and> (fd_error d = ErrNone \<longrightarrow> fd_error d' \<noteq> ErrBufferLimit)
    \<and> (ok \<longrightarrow> fd_buffer d @ bs = concat (map encode_frame frames) @ fd_buffer d'
          \<and> bufferedBytes d' < kLengthPrefixSize + kMaximumFrameLength)"
proof (cases "fd_error d = ErrNone")
  case False
  with assms show ?thesis by (auto simp: Feed_def)
next
  case True
  have bs: "length bs \<le> 8196" using assms(2) by (simp add: size_constants)
  obtain fs rest err where *: "list_all frame_ok fs" "fd_buffer d @ bs = stream_of fs @ rest"
    "tail_result rest = Some err"
    "Feed d bs = (err = ErrNone, fs,
       \<lparr>fd_buffer = (if err = ErrNone then rest else fd_buffer d @ bs), fd_error = err\<rparr>)"
    using Feed_decomposes [OF True Feed_within_limit [OF assms(1) True bs]] by blast
  have "err \<noteq> ErrBufferLimit" using *(3) parse_frame_not_BufferLimit [of rest]
    by (auto simp: tail_result_def split: parse_result.splits)
  moreover have "err = ErrNone \<longrightarrow> parse_frame rest 0 = NeedMore \<and> length rest < 8196"
    using *(3) tail_result_None NeedMore_short by auto
  ultimately show ?thesis using * assms(3) True
    by (auto simp: decoder_ok_def stream_of_def bufferedBytes_def size_constants)
qed

theorem Feed_accounts_for_every_byte_witness:
  "\<exists>ok frames d'. Feed decoder_init [12, 0, 0] = (ok, frames, d') \<and> decoder_ok d'
    \<and> ok = (fd_error d' = ErrNone)"
proof -
  obtain ok frames d' where *: "Feed decoder_init [12, 0, 0] = (ok, frames, d')"
    by (metis prod_cases3)
  have "decoder_ok decoder_init" by (rule decoder_ok_init)
  then have "decoder_ok d' \<and> ok = (fd_error d' = ErrNone)"
    using Feed_accounts_for_every_byte [OF _ _ *] by (simp add: size_constants)
  with * show ?thesis by blast
qed

end
