(* ===== verification/Safety_Gate.thy ===== *)
theory Safety_Gate
  imports Wire_Enums
begin

text \<open>
  The controller lease, output enable and watchdog state machine \<^verbatim>\<open>SafetyGate\<close> and the rate
  limit computation of \<^verbatim>\<open>safety.hpp\<close>. Time points are nanoseconds of the steady clock as
  integers; the two timeouts are milliseconds as in the source. Every method is a function from
  the gate to its result and the new gate; \<open>gate_step\<close> collects the methods that can change the
  state, so that statements about every sequence of calls are statements about runs.
\<close>

section \<open>State and methods\<close>

record GateController =
  ctl_id :: u64
  ctl_pid :: u32
  ctl_lastHeartbeat :: int

record SafetyGate =
  gate_epoch :: u64
  gate_heartbeatTimeout :: int
  gate_outputCommandTimeout :: int
  gate_lastOutputCommand :: int
  gate_controller :: "GateController option"
  gate_outputsEnabled :: bool

record GateResult =
  res_status :: AckStatus
  res_outputsWereDisabled :: bool
  res_epochChanged :: bool

definition res_default :: GateResult where
  "res_default = \<lparr>res_status = AckOk, res_outputsWereDisabled = False, res_epochChanged = False\<rparr>"

definition ms_to_ns :: "int \<Rightarrow> int" where
  "ms_to_ns ms = ms * 1000000"

definition SafetyGate_init :: "u64 \<Rightarrow> int \<Rightarrow> int \<Rightarrow> SafetyGate" where
  "SafetyGate_init initialEpoch heartbeatTimeout outputCommandTimeout =
     \<lparr>gate_epoch = (if initialEpoch = 0 then 1 else initialEpoch),
      gate_heartbeatTimeout = heartbeatTimeout,
      gate_outputCommandTimeout = outputCommandTimeout,
      gate_lastOutputCommand = 0, gate_controller = None, gate_outputsEnabled = False\<rparr>"

definition hasController :: "SafetyGate \<Rightarrow> bool" where
  "hasController g \<longleftrightarrow> gate_controller g \<noteq> None"

definition controllerPid :: "SafetyGate \<Rightarrow> u32" where
  "controllerPid g = (case gate_controller g of Some c \<Rightarrow> ctl_pid c | None \<Rightarrow> 0)"

definition controllerId :: "SafetyGate \<Rightarrow> u64 option" where
  "controllerId g = (case gate_controller g of None \<Rightarrow> None | Some c \<Rightarrow> Some (ctl_id c))"

definition Authorize :: "SafetyGate \<Rightarrow> u64 \<Rightarrow> u64 \<Rightarrow> GateResult" where
  "Authorize g clientId commandEpoch =
     (if commandEpoch \<noteq> gate_epoch g then res_default\<lparr>res_status := AckStaleEpoch\<rparr>
      else if controllerId g \<noteq> Some clientId then res_default\<lparr>res_status := AckUnauthorized\<rparr>
      else res_default)"

definition next_epoch :: "u64 \<Rightarrow> u64" where
  "next_epoch e = (if e = - 1 then 1 else e + 1)"

definition DropControllerAndAdvanceEpoch :: "SafetyGate \<Rightarrow> GateResult \<times> SafetyGate" where
  "DropControllerAndAdvanceEpoch g =
     (let wasEnabled = gate_outputsEnabled g;
          g = g\<lparr>gate_outputsEnabled := False\<rparr>;
          g = g\<lparr>gate_controller := None\<rparr>;
          g = g\<lparr>gate_epoch := next_epoch (gate_epoch g)\<rparr>
      in (res_default\<lparr>res_outputsWereDisabled := wasEnabled, res_epochChanged := True\<rparr>, g))"

definition Acquire :: "u64 \<Rightarrow> u32 \<Rightarrow> int \<Rightarrow> SafetyGate \<Rightarrow> GateResult \<times> SafetyGate" where
  "Acquire clientId peerPid now g =
     (if clientId = 0 then (res_default\<lparr>res_status := AckMalformed\<rparr>, g)
      else if hasController g \<and> controllerId g \<noteq> Some clientId
      then (res_default\<lparr>res_status := AckBusy\<rparr>, g)
      else let g = g\<lparr>gate_controller :=
                 Some \<lparr>ctl_id = clientId, ctl_pid = peerPid, ctl_lastHeartbeat = now\<rparr>\<rparr>;
               wasEnabled = gate_outputsEnabled g;
               g = g\<lparr>gate_outputsEnabled := False\<rparr>
           in (res_default\<lparr>res_outputsWereDisabled := wasEnabled\<rparr>, g))"

definition set_lastHeartbeat :: "int \<Rightarrow> SafetyGate \<Rightarrow> SafetyGate" where
  "set_lastHeartbeat now g =
     g\<lparr>gate_controller := map_option (\<lambda>c. c\<lparr>ctl_lastHeartbeat := now\<rparr>) (gate_controller g)\<rparr>"

definition Heartbeat :: "u64 \<Rightarrow> u64 \<Rightarrow> int \<Rightarrow> SafetyGate \<Rightarrow> GateResult \<times> SafetyGate" where
  "Heartbeat clientId commandEpoch now g =
     (let authorization = Authorize g clientId commandEpoch
      in if res_status authorization \<noteq> AckOk then (authorization, g)
         else (res_default, set_lastHeartbeat now g))"

definition SetOutputEnabled ::
    "u64 \<Rightarrow> u64 \<Rightarrow> bool \<Rightarrow> bool \<Rightarrow> int \<Rightarrow> SafetyGate \<Rightarrow> GateResult \<times> SafetyGate" where
  "SetOutputEnabled clientId commandEpoch enabled processDataHealthy now g =
     (let authorization = Authorize g clientId commandEpoch
      in if res_status authorization \<noteq> AckOk then (authorization, g)
         else if enabled \<and> \<not> processDataHealthy then (res_default\<lparr>res_status := AckDisabled\<rparr>, g)
         else if \<not> enabled then DropControllerAndAdvanceEpoch g
         else let wasEnabled = gate_outputsEnabled g;
                  g = g\<lparr>gate_outputsEnabled := True\<rparr>;
                  g = set_lastHeartbeat now g;
                  g = g\<lparr>gate_lastOutputCommand := now\<rparr>
              in (res_default\<lparr>res_outputsWereDisabled := wasEnabled\<rparr>, g))"

definition AuthorizeWrite :: "SafetyGate \<Rightarrow> u64 \<Rightarrow> u64 \<Rightarrow> GateResult" where
  "AuthorizeWrite g clientId commandEpoch =
     (let authorization = Authorize g clientId commandEpoch
      in if res_status authorization \<noteq> AckOk then authorization
         else if \<not> gate_outputsEnabled g then res_default\<lparr>res_status := AckDisabled\<rparr>
         else res_default)"

definition RecordOutputWrite :: "u64 \<Rightarrow> u64 \<Rightarrow> int \<Rightarrow> SafetyGate \<Rightarrow> GateResult \<times> SafetyGate" where
  "RecordOutputWrite clientId commandEpoch now g =
     (let authorization = AuthorizeWrite g clientId commandEpoch
      in (authorization,
          if res_status authorization = AckOk then g\<lparr>gate_lastOutputCommand := now\<rparr> else g))"

definition AuthorizeController :: "SafetyGate \<Rightarrow> u64 \<Rightarrow> u64 \<Rightarrow> GateResult" where
  "AuthorizeController g clientId commandEpoch = Authorize g clientId commandEpoch"

definition Release :: "u64 \<Rightarrow> u64 \<Rightarrow> SafetyGate \<Rightarrow> GateResult \<times> SafetyGate" where
  "Release clientId commandEpoch g =
     (let authorization = Authorize g clientId commandEpoch
      in if res_status authorization \<noteq> AckOk then (authorization, g)
         else DropControllerAndAdvanceEpoch g)"

definition Disconnect :: "u64 \<Rightarrow> SafetyGate \<Rightarrow> GateResult \<times> SafetyGate" where
  "Disconnect clientId g =
     (if controllerId g \<noteq> Some clientId then (res_default, g)
      else DropControllerAndAdvanceEpoch g)"

definition Expire :: "int \<Rightarrow> SafetyGate \<Rightarrow> GateResult \<times> SafetyGate" where
  "Expire now g =
     (case gate_controller g of
        None \<Rightarrow> (res_default, g)
      | Some c \<Rightarrow>
          if now - ctl_lastHeartbeat c \<le> ms_to_ns (gate_heartbeatTimeout g) then (res_default, g)
          else DropControllerAndAdvanceEpoch g)"

definition ExpireOutputCommands :: "int \<Rightarrow> SafetyGate \<Rightarrow> GateResult \<times> SafetyGate" where
  "ExpireOutputCommands now g =
     (if \<not> hasController g \<or> \<not> gate_outputsEnabled g
         \<or> now - gate_lastOutputCommand g \<le> ms_to_ns (gate_outputCommandTimeout g)
      then (res_default, g)
      else DropControllerAndAdvanceEpoch g)"

definition Invalidate :: "SafetyGate \<Rightarrow> GateResult \<times> SafetyGate" where
  "Invalidate g = DropControllerAndAdvanceEpoch g"

section \<open>Rate limit and saturating counters\<close>

record ControllerRateLimit =
  rl_burstFrames :: u32
  rl_framesPerSecond :: u32

definition CalculateControllerRateLimit :: "u64 \<Rightarrow> int \<Rightarrow> ControllerRateLimit" where
  "CalculateControllerRateLimit outputTargetCount outputCommandTimeout =
     (let kMaximumControllerFramesPerSecond = (200000 :: u64);
          kMaximumControllerBurstFrames = (10000 :: u64);
          timeoutMs = (if outputCommandTimeout > 0 then of_int outputCommandTimeout else 1) :: u64;
          refreshesPerSecond = (1000 + timeoutMs - 1) div timeoutMs;
          targets = outputTargetCount;
          requiredWrites =
            (if targets > kMaximumControllerFramesPerSecond div refreshesPerSecond
             then kMaximumControllerFramesPerSecond else targets * refreshesPerSecond);
          rateWithHeadroom =
            (if requiredWrites > (kMaximumControllerFramesPerSecond - 100) div 2
             then kMaximumControllerFramesPerSecond else requiredWrites * 2 + 100);
          burstWithHeadroom =
            (if targets > (kMaximumControllerBurstFrames - 64) div 3
             then kMaximumControllerBurstFrames else targets * 3 + 64)
      in \<lparr>rl_burstFrames = ucast (min (max burstWithHeadroom 500) kMaximumControllerBurstFrames),
          rl_framesPerSecond =
            ucast (min (max rateWithHeadroom 2000) kMaximumControllerFramesPerSecond)\<rparr>)"

definition SaturatingIncrement :: "'a::len word \<Rightarrow> 'a word" where
  "SaturatingIncrement value = (if value \<noteq> - 1 then value + 1 else value)"

section \<open>The gate as a step system\<close>

datatype GateOp =
    OpAcquire u64 u32 int
  | OpHeartbeat u64 u64 int
  | OpSetOutputEnabled u64 u64 bool bool int
  | OpRecordOutputWrite u64 u64 int
  | OpRelease u64 u64
  | OpDisconnect u64
  | OpExpire int
  | OpExpireOutputCommands int
  | OpInvalidate

primrec gate_step :: "GateOp \<Rightarrow> SafetyGate \<Rightarrow> GateResult \<times> SafetyGate" where
  "gate_step (OpAcquire clientId peerPid now) g = Acquire clientId peerPid now g"
| "gate_step (OpHeartbeat clientId commandEpoch now) g = Heartbeat clientId commandEpoch now g"
| "gate_step (OpSetOutputEnabled clientId commandEpoch enabled healthy now) g =
     SetOutputEnabled clientId commandEpoch enabled healthy now g"
| "gate_step (OpRecordOutputWrite clientId commandEpoch now) g =
     RecordOutputWrite clientId commandEpoch now g"
| "gate_step (OpRelease clientId commandEpoch) g = Release clientId commandEpoch g"
| "gate_step (OpDisconnect clientId) g = Disconnect clientId g"
| "gate_step (OpExpire now) g = Expire now g"
| "gate_step (OpExpireOutputCommands now) g = ExpireOutputCommands now g"
| "gate_step OpInvalidate g = Invalidate g"

text \<open>The client on whose behalf an operation runs.\<close>

primrec op_client :: "GateOp \<Rightarrow> u64 option" where
  "op_client (OpAcquire clientId _ _) = Some clientId"
| "op_client (OpHeartbeat clientId _ _) = Some clientId"
| "op_client (OpSetOutputEnabled clientId _ _ _ _) = Some clientId"
| "op_client (OpRecordOutputWrite clientId _ _) = Some clientId"
| "op_client (OpRelease clientId _) = Some clientId"
| "op_client (OpDisconnect clientId) = Some clientId"
| "op_client (OpExpire _) = None"
| "op_client (OpExpireOutputCommands _) = None"
| "op_client OpInvalidate = None"

definition gate_inv :: "SafetyGate \<Rightarrow> bool" where
  "gate_inv g \<longleftrightarrow> gate_epoch g \<noteq> 0 \<and> (gate_outputsEnabled g \<longrightarrow> hasController g)
     \<and> controllerId g \<noteq> Some 0"

lemmas gate_defs = Acquire_def Heartbeat_def SetOutputEnabled_def RecordOutputWrite_def Release_def
  Disconnect_def Expire_def ExpireOutputCommands_def Invalidate_def AuthorizeWrite_def
  AuthorizeController_def Authorize_def DropControllerAndAdvanceEpoch_def set_lastHeartbeat_def
  hasController_def controllerId_def controllerPid_def res_default_def Let_def

lemma next_epoch_nonzero: "e \<noteq> 0 \<Longrightarrow> next_epoch e \<noteq> 0"
  by (auto simp: next_epoch_def add_eq_0_iff2)

lemma gate_step_inv: "gate_inv g \<Longrightarrow> gate_inv (snd (gate_step op g))"
  by (cases op) (auto simp: gate_inv_def gate_defs next_epoch_nonzero split: option.splits)

interpretation gate: step_system gate_step gate_inv
  by unfold_locales (rule gate_step_inv)

lemma gate_init_inv: "gate_inv (SafetyGate_init e h w)"
  by (simp add: SafetyGate_init_def gate_inv_def gate_defs)

section \<open>Epochs along runs\<close>

text \<open>
  What a component with epochs promises: every step leaves the epoch or advances it, and says so.
\<close>

locale epoch_system = step_system step inv
  for step :: "'op \<Rightarrow> 's \<Rightarrow> 'r \<times> 's" and inv :: "'s \<Rightarrow> bool" +
  fixes epoch :: "'s \<Rightarrow> u64"
    and changed :: "'r \<Rightarrow> bool"
  assumes epoch_nonzero: "inv s \<Longrightarrow> epoch s \<noteq> 0"
    and epoch_step: "inv s \<Longrightarrow> epoch (snd (step op s)) =
      (if changed (fst (step op s)) then next_epoch (epoch s) else epoch s)"
begin

lemma epoch_run:
  "inv s \<Longrightarrow> epoch (run_ops step ops s) =
     (next_epoch ^^ length (filter changed (run_replies step ops s))) (epoch s)"
proof (induction ops arbitrary: s)
  case (Cons op ops)
  from Cons.IH [OF step_inv [OF Cons.prems]] show ?case
    by (simp add: epoch_step [OF Cons.prems] funpow_swap1)
qed simp

end

interpretation gate_epochs: epoch_system gate_step gate_inv gate_epoch res_epochChanged
proof
  fix g op assume "gate_inv g"
  then show "gate_epoch g \<noteq> 0" by (simp add: gate_inv_def)
  show "gate_epoch (snd (gate_step op g)) =
      (if res_epochChanged (fst (gate_step op g)) then next_epoch (gate_epoch g) else gate_epoch g)"
    by (cases op) (auto simp: gate_defs split: option.splits)
qed

lemma unat_next_epoch:
  assumes "e \<noteq> 0"
  shows "unat (next_epoch e) = unat e mod (2 ^ 64 - 1) + 1"
proof (cases "e = - 1")
  case True
  then show ?thesis by (simp add: next_epoch_def unsigned_minus_1_eq_mask mask_eq_exp_minus_1)
next
  case False
  have "unat e \<noteq> unat (- 1 :: u64)" using False by (simp only: word_unat_eq_iff [symmetric] not_False_eq_True)
  moreover have "unat e < 2 ^ 64" using unsigned_less [of e, where 'a = nat] by simp
  ultimately have "unat e < 2 ^ 64 - 1" by (simp add: unsigned_minus_1_eq_mask mask_eq_exp_minus_1)
  moreover have "unat (e + 1) = unat e + 1"
    using \<open>unat e < 2 ^ 64 - 1\<close> by (subst unat_add_lem [THEN iffD1]) simp_all
  ultimately show ?thesis using False by (simp add: next_epoch_def)
qed

lemma unat_next_epoch_funpow:
  assumes "e \<noteq> 0"
  shows "unat ((next_epoch ^^ k) e) = (unat e - 1 + k) mod (2 ^ 64 - 1) + 1 \<and> (next_epoch ^^ k) e \<noteq> 0"
proof (induction k)
  case 0
  have "unat e < 2 ^ 64" using unsigned_less [of e, where 'a = nat] by simp
  moreover have "0 < unat e" using assms by (simp add: unat_gt_0)
  ultimately show ?case using assms by simp
next
  case (Suc k)
  then show ?case
    by (simp add: unat_next_epoch next_epoch_nonzero mod_Suc_eq)
qed

lemma epoch_never_reused:
  assumes "e \<noteq> 0" "0 < k" "k < 2 ^ 64 - 1"
  shows "(next_epoch ^^ k) e \<noteq> e"
proof
  assume eq: "(next_epoch ^^ k) e = e"
  obtain m where m: "unat e = Suc m" using assms(1) by (cases "unat e") (auto simp: unat_eq_zero)
  have "(m + k) mod (2 ^ 64 - 1) = m mod (2 ^ 64 - 1)"
    using unat_next_epoch_funpow [OF assms(1), of k] unat_next_epoch_funpow [OF assms(1), of 0]
    by (simp add: eq m)
  then have "(2 ^ 64 - 1) dvd k" by (metis add_diff_cancel_left' le_add1 mod_eq_dvd_iff_nat)
  with assms(2,3) show False by (auto dest: dvd_imp_le)
qed

section \<open>The lease automaton\<close>

text \<open>
  The contract of the gate: at most one client holds the lease, only the holder drives outputs,
  and every loss of the lease is a new epoch. The boolean label says whether the epoch changes.
\<close>

datatype lease = Free | Held u64 | Driving u64

inductive lease_step :: "bool \<Rightarrow> lease \<Rightarrow> lease \<Rightarrow> bool" where
  stay: "lease_step False l l"
| acquire: "c \<noteq> 0 \<Longrightarrow> lease_step False Free (Held c)"
| reacquire: "lease_step False (Driving c) (Held c)"
| enable: "lease_step False (Held c) (Driving c)"
| drop: "lease_step True l Free"

inductive_cases lease_step_to_DrivingE: "lease_step b l (Driving c)"
inductive_cases lease_step_to_HeldE: "lease_step b l (Held c)"
inductive_cases lease_step_to_FreeE: "lease_step b l Free"

definition abs_lease :: "SafetyGate \<Rightarrow> lease" where
  "abs_lease g = (case gate_controller g of
     None \<Rightarrow> Free
   | Some c \<Rightarrow> if gate_outputsEnabled g then Driving (ctl_id c) else Held (ctl_id c))"

section \<open>Properties\<close>

text \<open>
  C18: in every state the gate can reach, whatever sequence of calls is made, the epoch is
  non-zero and outputs are enabled only while a client with a non-zero identifier holds the lease.
\<close>

theorem gate_reachable_invariant:
  "let g = run_ops gate_step ops (SafetyGate_init e heartbeatTimeout outputCommandTimeout)
   in gate_epoch g \<noteq> 0 \<and> \<not> (gate_outputsEnabled g \<and> \<not> hasController g) \<and> controllerId g \<noteq> Some 0"
  using gate.run_inv [OF gate_init_inv, of ops e heartbeatTimeout outputCommandTimeout]
  by (simp add: gate_inv_def Let_def)

text \<open>
  C1: no command survives an epoch change. Take any reachable gate and any further calls among
  which at least one, and fewer than \<open>2 ^ 64 - 1\<close>, dropped the lease: every command that carries
  the old epoch is then answered STALE_EPOCH, whoever sends it, and is not authorised to write.
\<close>

theorem stale_epoch_never_authorised:
  assumes "gate_inv g"
    and "0 < length (filter res_epochChanged (run_replies gate_step ops g))"
    and "length (filter res_epochChanged (run_replies gate_step ops g)) < 2 ^ 64 - 1"
  shows "res_status (Authorize (run_ops gate_step ops g) clientId (gate_epoch g)) = AckStaleEpoch
    \<and> res_status (AuthorizeWrite (run_ops gate_step ops g) clientId (gate_epoch g)) = AckStaleEpoch"
proof -
  have "gate_epoch (run_ops gate_step ops g) \<noteq> gate_epoch g"
    unfolding gate_epochs.epoch_run [OF assms(1)]
    using assms(2,3) gate_epochs.epoch_nonzero [OF assms(1)] by (intro epoch_never_reused)
  then show ?thesis by (simp add: Authorize_def AuthorizeWrite_def res_default_def)
qed

theorem stale_epoch_never_authorised_witness:
  "let g = SafetyGate_init 7 250 100;
       g' = run_ops gate_step [OpAcquire 3 100 0, OpInvalidate] g
   in res_status (Authorize g' 3 7) = AckStaleEpoch \<and> res_status (AuthorizeWrite g' 3 7) = AckStaleEpoch"
  using stale_epoch_never_authorised [of "SafetyGate_init 7 250 100" "[OpAcquire 3 100 0, OpInvalidate]" 3]
  by (simp add: SafetyGate_init_def gate_inv_def gate_defs next_epoch_def)



text \<open>
  C12: outputs are switched on in one way only: by an explicit enable command of the lease holder
  that carries the current epoch while the process data is healthy.
\<close>

theorem outputs_enabled_only_by_holder:
  assumes "\<not> gate_outputsEnabled g" and "gate_outputsEnabled (snd (gate_step op g))"
  shows "\<exists>clientId now. op = OpSetOutputEnabled clientId (gate_epoch g) True True now
    \<and> controllerId g = Some clientId"
  using assms by (cases op) (auto simp: gate_defs split: option.splits if_splits)

theorem outputs_enabled_only_by_holder_witness:
  "\<exists>clientId now. OpSetOutputEnabled 3 7 True True 5
       = OpSetOutputEnabled clientId (gate_epoch (SafetyGate_init 7 250 100)) True True now
     \<and> controllerId (snd (Acquire 3 100 0 (SafetyGate_init 7 250 100))) = Some clientId"
  using outputs_enabled_only_by_holder [of "snd (Acquire 3 100 0 (SafetyGate_init 7 250 100))"
      "OpSetOutputEnabled 3 7 True True 5"]
  by (simp add: SafetyGate_init_def gate_defs)

text \<open>
  C11: the watchdogs are exact. After both expiry checks at time \<open>now\<close>, outputs are still enabled
  only if they were enabled before and both the last heartbeat and the last output command are
  within their timeouts; and if they were enabled and both are fresh, nothing changes.
\<close>

theorem watchdogs_exact:
  assumes "gate_inv g" and "gate_outputsEnabled g"
    and "gate_controller g = Some c"
    and "g' = snd (ExpireOutputCommands now (snd (Expire now g)))"
  shows "(gate_outputsEnabled g' \<longleftrightarrow> now - ctl_lastHeartbeat c \<le> ms_to_ns (gate_heartbeatTimeout g)
        \<and> now - gate_lastOutputCommand g \<le> ms_to_ns (gate_outputCommandTimeout g))
    \<and> (gate_outputsEnabled g' \<longrightarrow> g' = g)
    \<and> (\<not> gate_outputsEnabled g' \<longrightarrow> \<not> hasController g' \<and> gate_epoch g' = next_epoch (gate_epoch g))"
  using assms by (auto simp: gate_defs)

theorem watchdogs_exact_witness:
  "let g = snd (SetOutputEnabled 3 7 True True 0 (snd (Acquire 3 100 0 (SafetyGate_init 7 250 100))))
   in \<not> gate_outputsEnabled (snd (ExpireOutputCommands 100000001 (snd (Expire 100000001 g))))"
  using watchdogs_exact [of
      "snd (SetOutputEnabled 3 7 True True 0 (snd (Acquire 3 100 0 (SafetyGate_init 7 250 100))))"
      "\<lparr>ctl_id = 3, ctl_pid = 100, ctl_lastHeartbeat = 0\<rparr>" _ 100000001]
  by (simp add: SafetyGate_init_def gate_inv_def gate_defs ms_to_ns_def)

text \<open>
  C19: while one client holds the lease, no call made for another client has any effect on the
  gate, whatever epoch it carries.
\<close>

theorem holder_is_not_disturbed:
  assumes "controllerId g = Some holder" and "op_client op = Some other" and "other \<noteq> holder"
  shows "snd (gate_step op g) = g \<and> \<not> res_epochChanged (fst (gate_step op g))"
  using assms by (cases op) (auto simp: gate_defs split: option.splits if_splits)

theorem holder_is_not_disturbed_witness:
  "snd (gate_step (OpRelease 4 7) (snd (Acquire 3 100 0 (SafetyGate_init 7 250 100))))
     = snd (Acquire 3 100 0 (SafetyGate_init 7 250 100))"
  using holder_is_not_disturbed [of "snd (Acquire 3 100 0 (SafetyGate_init 7 250 100))" 3
      "OpRelease 4 7" 4]
  by (simp add: SafetyGate_init_def gate_defs)

text \<open>
  C27: the rate limit fits the topology. For any number of output targets and any command
  timeout the burst and rate stay within their fixed bounds; and as long as twice the required
  refresh rate fits below the ceiling, the limit admits at least twice the writes needed to
  refresh every target within every timeout, so a compliant controller is never throttled.
\<close>

theorem rate_limit_bounds:
  assumes "0 < timeout" and "timeout \<le> 1000000"
    and "limit = CalculateControllerRateLimit targets timeout"
    and "refreshes = (1000 + nat timeout - 1) div nat timeout"
  shows "500 \<le> unat (rl_burstFrames limit) \<and> unat (rl_burstFrames limit) \<le> 10000
    \<and> 2000 \<le> unat (rl_framesPerSecond limit) \<and> unat (rl_framesPerSecond limit) \<le> 200000
    \<and> (unat targets * refreshes \<le> 99950
         \<longrightarrow> 2 * (unat targets * refreshes) + 100 \<le> unat (rl_framesPerSecond limit))
    \<and> (unat targets \<le> 3312 \<longrightarrow> 3 * unat targets + 64 \<le> unat (rl_burstFrames limit))"
proof -
  define t :: u64 where "t = of_int timeout"
  define r :: u64 where "r = (1000 + t - 1) div t"
  define rq where "rq = (if targets > 200000 div r then 200000 else targets * r)"
  define rate where "rate = (if rq > (200000 - 100) div 2 then 200000 else rq * 2 + 100)"
  define burst where "burst = (if targets > (10000 - 64) div 3 then 10000 else targets * 3 + 64)"
  have limit: "limit = \<lparr>rl_burstFrames = ucast (min (max burst 500) 10000),
      rl_framesPerSecond = ucast (min (max rate 2000) 200000)\<rparr>"
    using assms(1) unfolding assms(3) CalculateControllerRateLimit_def Let_def
      burst_def rate_def rq_def r_def t_def by simp
  have t: "unat t = nat timeout"
  proof -
    have "unat t = unat (of_nat (nat timeout) :: u64)" using assms(1) by (simp add: t_def)
    also have "\<dots> = nat timeout"
      using assms(1,2) by (simp only: unsigned_of_nat) (simp add: take_bit_nat_eq_self)
    finally show ?thesis .
  qed
  then have "unat (t + 999) = nat timeout + 999"
    using assms(2) by (subst unat_add_lem [THEN iffD1]) simp_all
  then have r: "unat r = refreshes" unfolding r_def assms(4) by (simp add: unat_div t add.commute)
  have R: "0 < refreshes" using assms(1) by (simp add: assms(4) div_greater_zero_iff)
  have rq: "unat rq = (if unat targets > 200000 div refreshes then 200000 else unat targets * refreshes)"
    and "unat rq \<le> 200000"
  proof -
    have cmp: "targets > 200000 div r \<longleftrightarrow> unat targets > 200000 div refreshes"
      by (simp add: word_less_nat_alt unat_div r)
    have small: "unat targets * refreshes \<le> 200000" if "\<not> unat targets > 200000 div refreshes"
      using that R by (simp add: not_less less_eq_div_iff_mult_less_eq)
    have "unat (targets * r) = unat targets * refreshes" if "\<not> unat targets > 200000 div refreshes"
      using small [OF that] by (subst unat_mult_lem [THEN iffD1]) (simp_all add: r)
    with small cmp show "unat rq = (if unat targets > 200000 div refreshes then 200000
        else unat targets * refreshes)" "unat rq \<le> 200000"
      by (auto simp: rq_def)
  qed
  have rate: "unat rate = (if unat rq > 99950 then 200000 else unat rq * 2 + 100)"
  proof -
    have "unat (rq * 2 + 100) = unat rq * 2 + 100" if "unat rq \<le> 99950"
    proof -
      have "unat (rq * 2) = unat rq * 2" using that by (subst unat_mult_lem [THEN iffD1]) simp_all
      then show ?thesis using that by (subst unat_add_lem [THEN iffD1]) simp_all
    qed
    then show ?thesis by (auto simp: rate_def word_less_nat_alt not_less)
  qed
  have burst: "unat burst = (if unat targets > 3312 then 10000 else unat targets * 3 + 64)"
  proof -
    have "unat (targets * 3 + 64) = unat targets * 3 + 64" if "unat targets \<le> 3312"
    proof -
      have "unat (targets * 3) = unat targets * 3" using that by (subst unat_mult_lem [THEN iffD1]) simp_all
      then show ?thesis using that by (subst unat_add_lem [THEN iffD1]) simp_all
    qed
    then show ?thesis by (auto simp: burst_def word_less_nat_alt not_less)
  qed
  have clamp: "unat (ucast (min (max v lo) hi) :: u32) = min (max (unat v) (unat lo)) (unat hi)"
    if "unat hi \<le> 200000" for v lo hi :: u64
  proof -
    have *: "unat (min (max v lo) hi) = min (max (unat v) (unat lo)) (unat hi)"
      by (auto simp: min_def max_def word_le_nat_alt)
    then have "unat (min (max v lo) hi) < 2 ^ 32" using that by simp
    then have "unat (ucast (min (max v lo) hi) :: u32) = unat (min (max v lo) hi)"
      by (simp add: unsigned_ucast_eq unsigned_take_bit_eq take_bit_nat_eq_self)
    then show ?thesis by (simp only: *)
  qed
  show ?thesis
    unfolding limit using rq rate burst \<open>unat rq \<le> 200000\<close> R
    by (auto simp: clamp not_less less_eq_div_iff_mult_less_eq
        mult.commute [of refreshes "unat targets"])
qed

theorem rate_limit_bounds_witness:
  "500 \<le> unat (rl_burstFrames (CalculateControllerRateLimit 4 100))
   \<and> 2000 \<le> unat (rl_framesPerSecond (CalculateControllerRateLimit 4 100))"
  using rate_limit_bounds [of 100 "CalculateControllerRateLimit 4 100" 4
      "(1000 + nat 100 - 1) div nat 100"] by simp

end
