(* ===== verification/Pdo_Image.thy ===== *)
theory Pdo_Image
  imports Wire_Enums
begin

text \<open>
  The packed process-data images of \<^verbatim>\<open>safety.hpp\<close>. A mapped image is a byte string in the IO
  map whose first used bit is \<open>startBit\<close>; the IPC image is the canonical byte string with zero
  padding. Spans are byte lists; the functions that write through a span return its new content,
  or \<open>None\<close> where the C++ returns \<^verbatim>\<open>false\<close> without touching it. Everything is characterised
  bit by bit: \<open>pdo_bit bs i\<close> is bit \<open>i\<close> of the little-endian bit string \<open>bs\<close>.
\<close>

section \<open>Definitions\<close>

definition ValidateWholeOutputWrite :: "u32 \<Rightarrow> u32 \<Rightarrow> nat \<Rightarrow> AckStatus" where
  "ValidateWholeOutputWrite outputBytes offset len =
     (if outputBytes = 0 \<or> unat outputBytes > kMaximumOutputWrite \<or> offset \<noteq> 0
         \<or> len \<noteq> unat outputBytes
      then AckBounds else AckOk)"

definition PdoImageByteLength :: "u16 \<Rightarrow> u32" where
  "PdoImageByteLength bitCount = (ucast bitCount + 7) div 8"

definition PdoMappedByteLength :: "u16 \<Rightarrow> u8 \<Rightarrow> u32" where
  "PdoMappedByteLength bitCount startBit =
     (if bitCount = 0 \<or> startBit > 7 then 0
      else (ucast startBit + ucast bitCount + 7) div 8)"

definition IsValidSoemPdoMetadata :: "u16 \<Rightarrow> u32 \<Rightarrow> u8 \<Rightarrow> bool" where
  "IsValidSoemPdoMetadata bitCount byteCount startBit =
     (if startBit > 7 then False
      else if bitCount = 0 then byteCount = 0 \<and> startBit = 0
      else let expectedBytes = (if bitCount > 7 then PdoImageByteLength bitCount else 0)
           in byteCount = expectedBytes \<and> (bitCount \<le> 7 \<or> startBit = 0))"

definition HasCanonicalPdoPadding :: "u16 \<Rightarrow> bytes \<Rightarrow> bool" where
  "HasCanonicalPdoPadding bitCount img =
     (if length img \<noteq> unat (PdoImageByteLength bitCount) then False
      else if bitCount = 0 then img = []
      else let usedBits = unat (bitCount mod 8)
           in if usedBits = 0 then True
              else let unusedMask = push_bit usedBits (0xff :: u8)
                   in last img AND unusedMask = 0)"

text \<open>
  One destination byte of the bit-by-bit read: the inner loop leaves at the first logical bit
  outside the image.
\<close>

definition read_packed_byte :: "bytes \<Rightarrow> nat \<Rightarrow> nat \<Rightarrow> nat \<Rightarrow> nat \<Rightarrow> u8" where
  "read_packed_byte mapped startBit bitCount firstLogicalBit byteIndex =
     fold (\<lambda>bit destination.
         let logicalBit = firstLogicalBit + byteIndex * 8 + bit;
             mappedBit = startBit + logicalBit;
             sourceMask = push_bit (mappedBit mod 8) (1 :: u8)
         in if mapped ! (mappedBit div 8) AND sourceMask \<noteq> 0
            then destination OR push_bit bit 1 else destination)
       (takeWhile (\<lambda>bit. \<not> firstLogicalBit + byteIndex * 8 + bit \<ge> bitCount) [0..<8]) 0"

definition ReadPackedPdoChunk :: "bytes \<Rightarrow> u8 \<Rightarrow> u16 \<Rightarrow> u32 \<Rightarrow> nat \<Rightarrow> bytes option" where
  "ReadPackedPdoChunk mapped startBit bitCount logicalByteOffset destinationSize =
     (let imageBytes = PdoImageByteLength bitCount;
          mappedBytes = PdoMappedByteLength bitCount startBit
      in if startBit > 7 \<or> length mapped \<noteq> unat mappedBytes \<or> logicalByteOffset > imageBytes
            \<or> destinationSize > unat (imageBytes - logicalByteOffset) then None
         else if startBit = 0 then
           let destination = take destinationSize (drop (unat logicalByteOffset) mapped);
               usedBits = unat (bitCount mod 8)
           in Some (if usedBits \<noteq> 0 \<and> destination \<noteq> []
                       \<and> unat logicalByteOffset + length destination = unat imageBytes
                    then butlast destination @ [last destination AND (push_bit usedBits 1 - 1)]
                    else destination)
         else let firstLogicalBit = unat logicalByteOffset * 8
              in Some (map (read_packed_byte mapped (unat startBit) (unat bitCount) firstLogicalBit)
                   [0..<destinationSize]))"

text \<open>One iteration of the bit-by-bit write and of the bit-by-bit clear.\<close>

definition write_packed_bit :: "nat \<Rightarrow> bytes \<Rightarrow> nat \<Rightarrow> bytes \<Rightarrow> bytes" where
  "write_packed_bit startBit img logicalBit mapped =
     (let mappedBit = startBit + logicalBit;
          destinationMask = push_bit (mappedBit mod 8) (1 :: u8);
          destination = mapped ! (mappedBit div 8);
          sourceMask = push_bit (logicalBit mod 8) (1 :: u8)
      in mapped[mappedBit div 8 :=
           (if img ! (logicalBit div 8) AND sourceMask \<noteq> 0
            then destination OR destinationMask
            else destination AND NOT destinationMask)])"

definition WritePackedPdoImage :: "bytes \<Rightarrow> u8 \<Rightarrow> u16 \<Rightarrow> bytes \<Rightarrow> bytes option" where
  "WritePackedPdoImage mapped startBit bitCount img =
     (if startBit > 7 \<or> length mapped \<noteq> unat (PdoMappedByteLength bitCount startBit)
         \<or> \<not> HasCanonicalPdoPadding bitCount img then None
      else if startBit = 0 \<and> bitCount mod 8 = 0 then Some (img @ drop (length img) mapped)
      else Some (fold (write_packed_bit (unat startBit) img) [0..<unat bitCount] mapped))"

definition clear_packed_bit :: "nat \<Rightarrow> nat \<Rightarrow> bytes \<Rightarrow> bytes" where
  "clear_packed_bit startBit logicalBit mapped =
     (let mappedBit = startBit + logicalBit
      in mapped[mappedBit div 8 :=
           mapped ! (mappedBit div 8) AND NOT (push_bit (mappedBit mod 8) (1 :: u8))])"

definition ZeroPackedPdoImage :: "bytes \<Rightarrow> u8 \<Rightarrow> u16 \<Rightarrow> bytes option" where
  "ZeroPackedPdoImage mapped startBit bitCount =
     (if startBit > 7 \<or> length mapped \<noteq> unat (PdoMappedByteLength bitCount startBit) then None
      else if startBit = 0 \<and> bitCount mod 8 = 0 then Some (replicate (length mapped) 0)
      else Some (fold (clear_packed_bit (unat startBit)) [0..<unat bitCount] mapped))"

section \<open>Bit strings\<close>

definition pdo_bit :: "bytes \<Rightarrow> nat \<Rightarrow> bool" where
  "pdo_bit bs i \<longleftrightarrow> bit (bs ! (i div 8)) (i mod 8)"

lemma pdo_bits_eqI:
  assumes "length xs = length ys" "\<And>i. i < 8 * length xs \<Longrightarrow> pdo_bit xs i = pdo_bit ys i"
  shows "xs = ys"
proof (rule nth_equalityI)
  fix k assume k: "k < length xs"
  show "xs ! k = ys ! k"
  proof (rule bit_word_eqI)
    fix n assume "n < LENGTH(8)"
    then show "bit (xs ! k) n = bit (ys ! k) n"
      using assms(2) [of "8 * k + n"] k by (simp add: pdo_bit_def)
  qed
qed (rule assms(1))

lemma and_single_bit: "b AND push_bit n (1 :: u8) \<noteq> 0 \<longleftrightarrow> bit b n"
  by (simp add: bit_iff_and_push_bit_not_eq_0)

lemma and_exp_eq_0: "b AND 2 ^ n = (0 :: u8) \<longleftrightarrow> \<not> bit b n"
  using and_single_bit [of b n] by (auto simp: push_bit_of_1)

lemma same_bit_position: "i div 8 = j div 8 \<Longrightarrow> i mod 8 = j mod 8 \<longleftrightarrow> i = (j :: nat)"
  by (metis div_mult_mod_eq)

lemma unat_PdoImageByteLength: "unat (PdoImageByteLength bitCount) = (unat bitCount + 7) div 8"
proof -
  have b: "unat bitCount < 65536" using unsigned_less [of bitCount, where 'a = nat] by simp
  have u: "unat (ucast bitCount :: u32) = unat bitCount"
    using b by (simp add: unsigned_ucast_eq unsigned_take_bit_eq take_bit_nat_eq_self)
  have "unat (ucast bitCount + 7 :: u32) = unat bitCount + 7"
    using b by (subst unat_add_lem [THEN iffD1]) (simp_all add: u)
  then show ?thesis by (simp add: PdoImageByteLength_def unat_div)
qed

lemma unat_PdoMappedByteLength:
  "bitCount \<noteq> 0 \<Longrightarrow> startBit \<le> 7 \<Longrightarrow>
     unat (PdoMappedByteLength bitCount startBit) = (unat startBit + unat bitCount + 7) div 8"
  "bitCount = 0 \<Longrightarrow> unat (PdoMappedByteLength bitCount startBit) = 0"
proof -
  have b: "unat bitCount < 65536" "unat startBit < 256"
    using unsigned_less [of bitCount, where 'a = nat] unsigned_less [of startBit, where 'a = nat]
    by simp_all
  have u: "unat (ucast bitCount :: u32) = unat bitCount" "unat (ucast startBit :: u32) = unat startBit"
    using b by (simp_all add: unsigned_ucast_eq unsigned_take_bit_eq take_bit_nat_eq_self)
  have 1: "unat (ucast startBit + ucast bitCount :: u32) = unat startBit + unat bitCount"
    using b by (subst unat_add_lem [THEN iffD1]) (simp_all add: u)
  have "unat (ucast startBit + ucast bitCount + 7 :: u32) = unat startBit + unat bitCount + 7"
    using b by (subst unat_add_lem [THEN iffD1]) (simp_all add: 1)
  then show "bitCount \<noteq> 0 \<Longrightarrow> startBit \<le> 7 \<Longrightarrow>
     unat (PdoMappedByteLength bitCount startBit) = (unat startBit + unat bitCount + 7) div 8"
    by (simp add: PdoMappedByteLength_def unat_div not_less)
  show "bitCount = 0 \<Longrightarrow> unat (PdoMappedByteLength bitCount startBit) = 0"
    by (simp add: PdoMappedByteLength_def)
qed

section \<open>The bitwise loops\<close>

lemma pdo_bit_update:
  assumes "i < 8 * length mapped"
  shows "pdo_bit (mapped[m div 8 := x]) i =
    (if i div 8 = m div 8 then bit x (i mod 8) else pdo_bit mapped i)"
  using assms by (auto simp: pdo_bit_def nth_list_update)

lemma write_packed_bit_spec:
  assumes "i < 8 * length mapped"
  shows "pdo_bit (write_packed_bit s img l mapped) i =
    (if i = s + l then pdo_bit img l else pdo_bit mapped i)"
proof (cases "i div 8 = (s + l) div 8")
  case True
  then have "i mod 8 = (s + l) mod 8 \<longleftrightarrow> i = s + l" by (rule same_bit_position)
  then show ?thesis using assms True
    by (auto simp: write_packed_bit_def Let_def pdo_bit_update and_exp_eq_0 bit_simps pdo_bit_def)
next
  case False
  then have "i \<noteq> s + l" by auto
  then show ?thesis using assms False by (simp add: write_packed_bit_def Let_def pdo_bit_update)
qed

lemma clear_packed_bit_spec:
  assumes "i < 8 * length mapped"
  shows "pdo_bit (clear_packed_bit s l mapped) i = (i \<noteq> s + l \<and> pdo_bit mapped i)"
proof (cases "i div 8 = (s + l) div 8")
  case True
  then have "i mod 8 = (s + l) mod 8 \<longleftrightarrow> i = s + l" by (rule same_bit_position)
  then show ?thesis using assms True
    by (auto simp: clear_packed_bit_def Let_def pdo_bit_update bit_simps pdo_bit_def)
next
  case False
  then have "i \<noteq> s + l" by auto
  then show ?thesis using assms False by (simp add: clear_packed_bit_def Let_def pdo_bit_update)
qed

lemma length_packed_steps [simp]:
  "length (write_packed_bit s img l mapped) = length mapped"
  "length (clear_packed_bit s l mapped) = length mapped"
  by (simp_all add: write_packed_bit_def clear_packed_bit_def Let_def)

lemma write_packed_fold:
  "length (fold (write_packed_bit s img) [0..<n] mapped) = length mapped"
  "i < 8 * length mapped \<Longrightarrow> pdo_bit (fold (write_packed_bit s img) [0..<n] mapped) i =
     (if s \<le> i \<and> i < s + n then pdo_bit img (i - s) else pdo_bit mapped i)"
  by (induction n) (auto simp: write_packed_bit_spec less_Suc_eq)

lemma clear_packed_fold:
  "length (fold (clear_packed_bit s) [0..<n] mapped) = length mapped"
  "i < 8 * length mapped \<Longrightarrow> pdo_bit (fold (clear_packed_bit s) [0..<n] mapped) i =
     (\<not> (s \<le> i \<and> i < s + n) \<and> pdo_bit mapped i)"
  by (induction n) (auto simp: clear_packed_bit_spec less_Suc_eq)

lemma takeWhile_less_upt: "takeWhile (\<lambda>x. \<not> k + x \<ge> n) [0..<m] = [0..<min m (n - k)]"
proof (induction m)
  case (Suc m)
  show ?case
  proof (cases "k + m < n")
    case True
    then have "\<forall>x\<in>set [0..<m]. \<not> k + x \<ge> n" by auto
    then have "takeWhile (\<lambda>x. \<not> k + x \<ge> n) ([0..<m] @ [m]) = [0..<m] @ [m]"
      using True by (simp add: takeWhile_append2)
    then show ?thesis using True by (simp add: min_def)
  next
    case False
    have "takeWhile (\<lambda>x. \<not> k + x \<ge> n) ([0..<m] @ [m]) = takeWhile (\<lambda>x. \<not> k + x \<ge> n) [0..<m]"
      using False by (intro takeWhile_tail) simp
    moreover have "min (Suc m) (n - k) = min m (n - k)" using False by auto
    ultimately show ?thesis using Suc by simp
  qed
qed simp

lemma bit_fold_select:
  "bit (fold (\<lambda>b d. if P b then d OR push_bit b (1 :: u8) else d) xs d) j \<longleftrightarrow>
     bit d j \<or> j < 8 \<and> j \<in> set xs \<and> P j"
  by (induction xs arbitrary: d) (auto simp: bit_simps)

lemma read_packed_byte_spec:
  "bit (read_packed_byte mapped s n first k) j \<longleftrightarrow>
     j < 8 \<and> first + k * 8 + j < n \<and> pdo_bit mapped (s + (first + k * 8 + j))"
proof -
  have "read_packed_byte mapped s n first k =
      fold (\<lambda>b d. if pdo_bit mapped (s + (first + k * 8 + b)) then d OR push_bit b 1 else d)
        [0..<min 8 (n - (first + k * 8))] 0"
    unfolding read_packed_byte_def Let_def and_single_bit takeWhile_less_upt pdo_bit_def by simp
  then show ?thesis by (auto simp: bit_fold_select)
qed

lemma last_byte_masked:
  "bit (b AND (push_bit u (1 :: u8) - 1)) j \<longleftrightarrow> bit b j \<and> j < u"
proof -
  have "push_bit u (1 :: u8) - 1 = mask u" by (simp add: mask_eq_exp_minus_1 push_bit_of_1)
  then show ?thesis by (auto simp: bit_simps dest: bit_imp_le_length)
qed

lemma nth_butlast_snoc:
  "k < length xs \<Longrightarrow> (butlast xs @ [y]) ! k = (if Suc k = length xs then y else xs ! k)"
  by (auto simp: nth_append nth_butlast)

lemma image_bytes: "(n + 7) div 8 = n div 8 + (if n mod 8 = 0 then 0 else 1)" for n :: nat
proof -
  have "n + 7 = 8 * (n div 8) + (n mod 8 + 7)" by simp
  then have "(n + 7) div 8 = n div 8 + (n mod 8 + 7) div 8"
    by (metis div_mult_self2 add.commute zero_neq_numeral)
  moreover have "(n mod 8 + 7) div 8 = (if n mod 8 = 0 then 0 else 1)"
    using mod_less_divisor [of 8 n] by (auto intro: div_nat_eqI)
  ultimately show ?thesis by simp
qed

lemma masked_index:
  fixes n i off sz :: nat
  assumes "n mod 8 \<noteq> 0" "off + sz = (n + 7) div 8" "i div 8 < sz"
  shows "8 * off + i < n \<longleftrightarrow> (Suc (i div 8) = sz \<longrightarrow> i mod 8 < n mod 8)"
proof -
  have q: "off + sz = n div 8 + 1" using assms(1,2) by (simp add: image_bytes)
  have n: "n = 8 * (n div 8) + n mod 8" and i: "i = 8 * (i div 8) + i mod 8" by simp_all
  have r: "i mod 8 < 8" by simp
  show ?thesis
  proof (cases "Suc (i div 8) = sz")
    case True
    then have "off + i div 8 = n div 8" using q by simp
    then show ?thesis using True n i by linarith
  next
    case False
    then have "off + i div 8 < n div 8" using q assms(3) by simp
    then show ?thesis using False n i r by linarith
  qed
qed

lemma unmasked_index:
  fixes n i off sz :: nat
  assumes "n mod 8 = 0 \<or> off + sz \<noteq> (n + 7) div 8" "off + sz \<le> (n + 7) div 8" "i < 8 * sz"
  shows "8 * off + i < n"
proof -
  have "off + sz \<le> n div 8" using assms(1,2) by (auto simp: image_bytes split: if_splits)
  moreover have "8 * (n div 8) \<le> n" by simp
  ultimately show ?thesis using assms(3) by linarith
qed

text \<open>What a read returns: bit for bit the mapped image from its start bit, zero beyond it.\<close>

lemma ReadPackedPdoChunk_spec:
  assumes "startBit \<le> 7" and "length mapped = unat (PdoMappedByteLength bitCount startBit)"
    and "unat off + sz \<le> unat (PdoImageByteLength bitCount)"
  obtains ds where "ReadPackedPdoChunk mapped startBit bitCount off sz = Some ds"
    and "length ds = sz"
    and "\<And>i. i < 8 * sz \<Longrightarrow> pdo_bit ds i \<longleftrightarrow> 8 * unat off + i < unat bitCount
           \<and> pdo_bit mapped (unat startBit + (8 * unat off + i))"
proof -
  have le: "off \<le> PdoImageByteLength bitCount" using assms(3) by (simp add: word_le_nat_alt)
  have guard: "\<not> (startBit > 7 \<or> length mapped \<noteq> unat (PdoMappedByteLength bitCount startBit)
      \<or> off > PdoImageByteLength bitCount \<or> sz > unat (PdoImageByteLength bitCount - off))"
    using assms le unat_sub [OF le] by (auto simp: not_less)
  show ?thesis
  proof (cases "startBit = 0")
    case False
    define ds where
      "ds = map (read_packed_byte mapped (unat startBit) (unat bitCount) (unat off * 8)) [0..<sz]"
    have "ReadPackedPdoChunk mapped startBit bitCount off sz = Some ds"
      using guard False by (simp add: ReadPackedPdoChunk_def Let_def ds_def)
    moreover have "pdo_bit ds i \<longleftrightarrow> 8 * unat off + i < unat bitCount
           \<and> pdo_bit mapped (unat startBit + (8 * unat off + i))" if "i < 8 * sz" for i
      using that unfolding pdo_bit_def [of ds]
      by (simp add: ds_def read_packed_byte_spec mult.commute add.assoc)
    moreover have "length ds = sz" by (simp add: ds_def)
    ultimately show ?thesis by (intro that)
  next
    case True
    define n where "n = unat bitCount"
    define dst where "dst = take sz (drop (unat off) mapped)"
    have used: "unat (bitCount mod 8) = n mod 8" by (simp add: n_def unat_mod)
    have img: "unat (PdoImageByteLength bitCount) = (n + 7) div 8"
      by (simp add: unat_PdoImageByteLength n_def)
    have len: "length mapped = (n + 7) div 8"
      using assms(2) True unat_PdoMappedByteLength [of bitCount startBit]
      by (cases "bitCount = 0") (simp_all add: n_def)
    have dst: "length dst = sz" "\<And>k. k < sz \<Longrightarrow> dst ! k = mapped ! (unat off + k)"
      using assms(3) len img by (auto simp: dst_def)
    define ds where "ds = (if n mod 8 \<noteq> 0 \<and> dst \<noteq> [] \<and> unat off + sz = (n + 7) div 8
      then butlast dst @ [last dst AND (push_bit (n mod 8) 1 - 1)] else dst)"
    have "ReadPackedPdoChunk mapped startBit bitCount off sz = Some ds"
      using guard True dst(1)
      unfolding ReadPackedPdoChunk_def Let_def dst_def [symmetric] used ds_def img by simp
    moreover have "length ds = sz" using dst(1) by (auto simp: ds_def)
    moreover have "pdo_bit ds i \<longleftrightarrow> 8 * unat off + i < unat bitCount
           \<and> pdo_bit mapped (unat startBit + (8 * unat off + i))" if i: "i < 8 * sz" for i
    proof -
      have k: "i div 8 < sz" using i by simp
      have idx: "(8 * unat off + i) div 8 = unat off + i div 8" "(8 * unat off + i) mod 8 = i mod 8"
        by simp_all
      have byte: "bit (mapped ! (unat off + i div 8)) (i mod 8) \<longleftrightarrow> bit (dst ! (i div 8)) (i mod 8)"
        using dst(2) [OF k] by simp
      show ?thesis
      proof (cases "n mod 8 \<noteq> 0 \<and> dst \<noteq> [] \<and> unat off + sz = (n + 7) div 8")
        case masked: True
        have "ds ! (i div 8) = (if Suc (i div 8) = sz
            then last dst AND (push_bit (n mod 8) 1 - 1) else dst ! (i div 8))"
          using masked nth_butlast_snoc [of "i div 8" dst] k dst(1) by (simp add: ds_def)
        moreover have "last dst = dst ! (sz - 1)" using masked dst(1) by (simp add: last_conv_nth)
        moreover have "8 * unat off + i < n \<longleftrightarrow> (Suc (i div 8) = sz \<longrightarrow> i mod 8 < n mod 8)"
          using masked k by (intro masked_index) auto
        ultimately show ?thesis
          using True byte k unfolding pdo_bit_def idx
          by (auto simp: last_byte_masked n_def pdo_bit_def idx simp flip: push_bit_of_1)
      next
        case False
        have "8 * unat off + i < n"
        proof (rule unmasked_index)
          show "n mod 8 = 0 \<or> unat off + sz \<noteq> (n + 7) div 8"
            using False i dst(1) by (cases "dst = []") auto
        qed (use assms(3) img i in auto)
        moreover have "ds = dst" using False unfolding ds_def by (rule if_not_P)
        ultimately show ?thesis using True byte by (simp add: pdo_bit_def idx n_def)
      qed
    qed
    ultimately show ?thesis by (rule that)
  qed
qed

section \<open>Canonical images\<close>

lemma HasCanonicalPdoPadding_iff:
  "HasCanonicalPdoPadding bitCount img \<longleftrightarrow> length img = (unat bitCount + 7) div 8
     \<and> (\<forall>i. unat bitCount \<le> i \<and> i < 8 * length img \<longrightarrow> \<not> pdo_bit img i)"
proof (cases "length img = (unat bitCount + 7) div 8 \<and> unat bitCount mod 8 \<noteq> 0")
  case False
  have "\<not> (unat bitCount \<le> i \<and> i < 8 * length img)"
    if "length img = (unat bitCount + 7) div 8" "unat bitCount mod 8 = 0" for i
    using that by (auto simp: image_bytes)
  with False show ?thesis
    by (auto simp: HasCanonicalPdoPadding_def unat_PdoImageByteLength unat_mod Let_def unat_eq_zero)
next
  case True
  define n where "n = unat bitCount"
  define k where "k = length img - 1"
  have len: "length img = Suc k" "n = 8 * k + n mod 8"
    using True mult_div_mod_eq [of 8 "unat bitCount"] unfolding n_def k_def
    by (simp_all add: image_bytes)
  then have last: "last img = img ! k" by (cases img) (auto simp: last_conv_nth)
  have bound: "n mod 8 < 8" by simp
  have "last img AND push_bit (n mod 8) 0xff = 0 \<longleftrightarrow> (\<forall>j<8. n mod 8 \<le> j \<longrightarrow> \<not> bit (img ! k) j)"
  proof -
    have *: "(0xff :: u8) = mask 8" by (simp add: mask_eq_exp_minus_1)
    show ?thesis unfolding last * by (auto simp: bit_eq_iff [where 'a = u8] bit_simps)
  qed
  also have "\<dots> \<longleftrightarrow> (\<forall>i. n \<le> i \<and> i < 8 * length img \<longrightarrow> \<not> pdo_bit img i)"
  proof (intro iffI allI impI)
    fix i assume *: "\<forall>j<8. n mod 8 \<le> j \<longrightarrow> \<not> bit (img ! k) j" and i: "n \<le> i \<and> i < 8 * length img"
    have "8 * k \<le> i" using i len(2) by linarith
    moreover have "i < 8 * Suc k" using i len(1) by simp
    ultimately have "i div 8 = k" by (intro div_nat_eqI) simp_all
    moreover from this have "i = 8 * k + i mod 8" using mult_div_mod_eq [of 8 i] by simp
    then have "n mod 8 \<le> i mod 8" using i len by linarith
    ultimately show "\<not> pdo_bit img i" using * by (simp add: pdo_bit_def)
  next
    fix j assume *: "\<forall>i. n \<le> i \<and> i < 8 * length img \<longrightarrow> \<not> pdo_bit img i" and j: "j < 8" "n mod 8 \<le> j"
    then have "n \<le> 8 * k + j \<and> 8 * k + j < 8 * length img" using len by linarith
    with * have "\<not> pdo_bit img (8 * k + j)" by blast
    with j show "\<not> bit (img ! k) j" by (simp add: pdo_bit_def)
  qed
  finally show ?thesis
    using True unfolding n_def
    by (auto simp: HasCanonicalPdoPadding_def unat_PdoImageByteLength unat_mod Let_def)
qed

section \<open>Writing and clearing\<close>

lemma mapped_bits:
  assumes "startBit \<le> 7" "length mapped = unat (PdoMappedByteLength bitCount startBit)" "bitCount \<noteq> 0"
  shows "unat startBit + unat bitCount \<le> 8 * length mapped"
proof -
  have "n \<le> 8 * ((n + 7) div 8)" for n :: nat
    using mult_div_mod_eq [of 8 "n + 7"] mod_less_divisor [of 8 "n + 7"] by linarith
  then show ?thesis using assms unat_PdoMappedByteLength(1) [of bitCount startBit] by simp
qed

lemma unat_mod8: "unat (bitCount mod 8) = unat bitCount mod 8" for bitCount :: u16
  by (simp add: unat_mod)

lemma aligned_mapped_length:
  "length mapped = unat (PdoMappedByteLength bitCount 0) \<Longrightarrow> length mapped = (unat bitCount + 7) div 8"
  using unat_PdoMappedByteLength [of bitCount 0] by (cases "bitCount = 0") simp_all

lemma WritePackedPdoImage_spec:
  assumes "startBit \<le> 7" "length mapped = unat (PdoMappedByteLength bitCount startBit)"
    and "HasCanonicalPdoPadding bitCount img"
  obtains ms where "WritePackedPdoImage mapped startBit bitCount img = Some ms"
    and "length ms = length mapped"
    and "\<And>i. i < 8 * length mapped \<Longrightarrow> pdo_bit ms i =
      (if unat startBit \<le> i \<and> i < unat startBit + unat bitCount then pdo_bit img (i - unat startBit)
       else pdo_bit mapped i)"
proof (cases "startBit = 0 \<and> bitCount mod 8 = 0")
  case True
  have len: "length mapped = (unat bitCount + 7) div 8" "length img = (unat bitCount + 7) div 8"
    using assms True aligned_mapped_length [of mapped bitCount]
    by (auto simp: HasCanonicalPdoPadding_iff)
  have "unat bitCount mod 8 = 0" using True unat_mod8 [of bitCount] by simp
  then have "8 * length mapped = unat bitCount"
    using len mult_div_mod_eq [of 8 "unat bitCount"] by (simp add: image_bytes)
  moreover have "WritePackedPdoImage mapped startBit bitCount img = Some img"
    using assms True len by (simp add: WritePackedPdoImage_def)
  ultimately show ?thesis using that [of img] True len by simp
next
  case False
  then have "WritePackedPdoImage mapped startBit bitCount img =
      Some (fold (write_packed_bit (unat startBit) img) [0..<unat bitCount] mapped)"
    using assms by (auto simp: WritePackedPdoImage_def not_less)
  then show ?thesis using write_packed_fold by (rule that)
qed

lemma ZeroPackedPdoImage_spec:
  assumes "startBit \<le> 7" "length mapped = unat (PdoMappedByteLength bitCount startBit)"
  obtains ms where "ZeroPackedPdoImage mapped startBit bitCount = Some ms"
    and "length ms = length mapped"
    and "\<And>i. i < 8 * length mapped \<Longrightarrow> pdo_bit ms i =
      (\<not> (unat startBit \<le> i \<and> i < unat startBit + unat bitCount) \<and> pdo_bit mapped i)"
proof (cases "startBit = 0 \<and> bitCount mod 8 = 0")
  case True
  have len: "length mapped = (unat bitCount + 7) div 8"
    using assms True aligned_mapped_length [of mapped bitCount] by simp
  have "unat bitCount mod 8 = 0" using True unat_mod8 [of bitCount] by simp
  then have "8 * length mapped = unat bitCount"
    using len mult_div_mod_eq [of 8 "unat bitCount"] by (simp add: image_bytes)
  moreover have "ZeroPackedPdoImage mapped startBit bitCount = Some (replicate (length mapped) 0)"
    using assms True by (simp add: ZeroPackedPdoImage_def)
  ultimately show ?thesis
    using that [of "replicate (length mapped) 0"] True by (simp add: pdo_bit_def)
next
  case False
  then have "ZeroPackedPdoImage mapped startBit bitCount =
      Some (fold (clear_packed_bit (unat startBit)) [0..<unat bitCount] mapped)"
    using assms by (auto simp: ZeroPackedPdoImage_def not_less)
  then show ?thesis using clear_packed_fold by (rule that)
qed

section \<open>Properties\<close>

text \<open>
  C8: a packed write changes exactly the SubDevice's own bits. When \<^verbatim>\<open>WritePackedPdoImage\<close>
  succeeds, bit \<open>startBit + i\<close> of the mapping holds bit \<open>i\<close> of the image for every
  \<open>i < bitCount\<close>, and every other bit of the shared first and last byte is unchanged, on the
  byte-copy path and on the bit-by-bit path alike.
\<close>

theorem packed_write_exact:
  assumes "WritePackedPdoImage mapped startBit bitCount img = Some mapped'"
  shows "length mapped' = length mapped \<and> (\<forall>i. i < 8 * length mapped \<longrightarrow> pdo_bit mapped' i =
      (if unat startBit \<le> i \<and> i < unat startBit + unat bitCount then pdo_bit img (i - unat startBit)
       else pdo_bit mapped i))"
proof -
  have "startBit \<le> 7" "length mapped = unat (PdoMappedByteLength bitCount startBit)"
    "HasCanonicalPdoPadding bitCount img"
    using assms by (auto simp: WritePackedPdoImage_def not_less split: if_splits)
  from WritePackedPdoImage_spec [OF this] assms show ?thesis by (metis option.inject)
qed

theorem packed_write_exact_witness:
  "WritePackedPdoImage [0xff, 0x01] 3 6 [0x15] = Some [0xaf, 0x00]
   \<and> pdo_bit [0xaf, 0x00] 3 = pdo_bit [0x15] 0 \<and> pdo_bit [0xaf, 0x00] 2 = pdo_bit [0xff, 0x01] 2"
proof -
  have *: "WritePackedPdoImage [0xff, 0x01] 3 6 [0x15] = Some [0xaf, 0x00]" by code_simp
  show ?thesis using packed_write_exact [OF *] * by simp
qed

text \<open>
  C15: outputs read back as written. A canonical image that was written into a mapping is what a
  read of the whole image returns, whatever the start bit and the neighbouring bits.
\<close>

theorem packed_round_trip:
  assumes "WritePackedPdoImage mapped startBit bitCount img = Some mapped'"
  shows "ReadPackedPdoChunk mapped' startBit bitCount 0 (length img) = Some img"
proof -
  have g: "startBit \<le> 7" "length mapped = unat (PdoMappedByteLength bitCount startBit)"
    "HasCanonicalPdoPadding bitCount img"
    using assms by (auto simp: WritePackedPdoImage_def not_less split: if_splits)
  then have img: "length img = (unat bitCount + 7) div 8"
    "\<And>i. unat bitCount \<le> i \<Longrightarrow> i < 8 * length img \<Longrightarrow> \<not> pdo_bit img i"
    by (auto simp: HasCanonicalPdoPadding_iff)
  obtain ms where ms: "mapped' = ms" "length ms = length mapped"
    "\<And>i. i < 8 * length mapped \<Longrightarrow> pdo_bit ms i =
      (if unat startBit \<le> i \<and> i < unat startBit + unat bitCount then pdo_bit img (i - unat startBit)
       else pdo_bit mapped i)"
    using WritePackedPdoImage_spec [OF g] assms by (metis option.inject)
  obtain ds where ds: "ReadPackedPdoChunk ms startBit bitCount 0 (length img) = Some ds"
    "length ds = length img"
    "\<And>i. i < 8 * length img \<Longrightarrow> pdo_bit ds i \<longleftrightarrow> i < unat bitCount \<and> pdo_bit ms (unat startBit + i)"
    using ReadPackedPdoChunk_spec [of startBit ms bitCount 0 "length img"] g ms(2) img(1)
    by (auto simp: unat_PdoImageByteLength)
  have "ds = img"
  proof (rule pdo_bits_eqI)
    fix i assume i: "i < 8 * length ds"
    show "pdo_bit ds i = pdo_bit img i"
    proof (cases "i < unat bitCount")
      case True
      then have "bitCount \<noteq> 0" by auto
      then have "unat startBit + i < 8 * length mapped"
        using mapped_bits [OF g(1,2)] True by simp
      then show ?thesis using True i ds(2,3) ms(3) by simp
    next
      case False
      then show ?thesis using i ds(2,3) img(2) by simp
    qed
  qed (rule ds(2))
  with ds(1) ms(1) show ?thesis by simp
qed

theorem packed_round_trip_witness:
  "WritePackedPdoImage [0xff, 0x01] 3 6 [0x15] = Some [0xaf, 0x00]
   \<and> ReadPackedPdoChunk [0xaf, 0x00] 3 6 0 (length [0x15 :: u8]) = Some [0x15]"
proof -
  have *: "WritePackedPdoImage [0xff, 0x01] 3 6 [0x15] = Some [0xaf, 0x00]" by code_simp
  show ?thesis using packed_round_trip [OF *] * by simp
qed

text \<open>
  C16: clearing outputs is total on valid metadata and exact. For a mapping of the right length
  \<^verbatim>\<open>ZeroPackedPdoImage\<close> succeeds, every output bit of the SubDevice becomes zero and no bit of a
  neighbour changes; a read of the image afterwards returns only zeros.
\<close>

theorem packed_zero_exact:
  assumes "startBit \<le> 7" and "length mapped = unat (PdoMappedByteLength bitCount startBit)"
  shows "\<exists>mapped'. ZeroPackedPdoImage mapped startBit bitCount = Some mapped'
    \<and> length mapped' = length mapped
    \<and> (\<forall>i. i < 8 * length mapped \<longrightarrow> pdo_bit mapped' i =
         (\<not> (unat startBit \<le> i \<and> i < unat startBit + unat bitCount) \<and> pdo_bit mapped i))
    \<and> ReadPackedPdoChunk mapped' startBit bitCount 0 (unat (PdoImageByteLength bitCount))
        = Some (replicate (unat (PdoImageByteLength bitCount)) 0)"
proof -
  obtain ms where ms: "ZeroPackedPdoImage mapped startBit bitCount = Some ms" "length ms = length mapped"
    "\<And>i. i < 8 * length mapped \<Longrightarrow> pdo_bit ms i =
      (\<not> (unat startBit \<le> i \<and> i < unat startBit + unat bitCount) \<and> pdo_bit mapped i)"
    using ZeroPackedPdoImage_spec [OF assms] by blast
  let ?n = "unat (PdoImageByteLength bitCount)"
  obtain ds where ds: "ReadPackedPdoChunk ms startBit bitCount 0 ?n = Some ds" "length ds = ?n"
    "\<And>i. i < 8 * ?n \<Longrightarrow> pdo_bit ds i \<longleftrightarrow> i < unat bitCount \<and> pdo_bit ms (unat startBit + i)"
    using ReadPackedPdoChunk_spec [of startBit ms bitCount 0 ?n] assms ms(2) by auto
  have "ds = replicate ?n 0"
  proof (rule pdo_bits_eqI)
    fix i assume i: "i < 8 * length ds"
    have "\<not> pdo_bit ms (unat startBit + i)" if b: "i < unat bitCount"
    proof -
      from b have "bitCount \<noteq> 0" by auto
      then have "unat startBit + i < 8 * length mapped" using mapped_bits [OF assms] b by simp
      with ms(3) b show ?thesis by simp
    qed
    with i ds(2,3) show "pdo_bit ds i = pdo_bit (replicate ?n 0) i" by (auto simp: pdo_bit_def)
  qed (simp add: ds(2))
  with ms ds(1) show ?thesis by auto
qed

theorem packed_zero_exact_witness:
  "ZeroPackedPdoImage [0xff, 0xff] 3 6 = Some [0x07, 0xfe]
   \<and> ReadPackedPdoChunk [0x07, 0xfe] 3 6 0 (unat (PdoImageByteLength 6))
       = Some (replicate (unat (PdoImageByteLength 6)) 0)"
proof -
  have *: "ZeroPackedPdoImage [0xff, 0xff] 3 6 = Some [0x07, 0xfe]" by code_simp
  then show ?thesis using packed_zero_exact [of 3 "[0xff, 0xff]" 6]
    by (auto simp: PdoMappedByteLength_def)
qed

text \<open>
  C17: publishing an image in chunks loses nothing. Reading any chunk of a mapped image returns
  exactly that slice of the whole image, so the concatenation of consecutive chunks is the whole.
\<close>

theorem packed_chunk_is_slice:
  assumes "startBit \<le> 7" and "length mapped = unat (PdoMappedByteLength bitCount startBit)"
    and "unat off + n \<le> unat (PdoImageByteLength bitCount)"
  shows "\<exists>whole. ReadPackedPdoChunk mapped startBit bitCount 0 (unat (PdoImageByteLength bitCount))
      = Some whole
    \<and> ReadPackedPdoChunk mapped startBit bitCount off n = Some (take n (drop (unat off) whole))"
proof -
  let ?n = "unat (PdoImageByteLength bitCount)"
  obtain w where w: "ReadPackedPdoChunk mapped startBit bitCount 0 ?n = Some w" "length w = ?n"
    "\<And>i. i < 8 * ?n \<Longrightarrow> pdo_bit w i \<longleftrightarrow> i < unat bitCount \<and> pdo_bit mapped (unat startBit + i)"
    using ReadPackedPdoChunk_spec [of startBit mapped bitCount 0 ?n] assms by auto
  obtain ds where ds: "ReadPackedPdoChunk mapped startBit bitCount off n = Some ds" "length ds = n"
    "\<And>i. i < 8 * n \<Longrightarrow> pdo_bit ds i \<longleftrightarrow> 8 * unat off + i < unat bitCount
      \<and> pdo_bit mapped (unat startBit + (8 * unat off + i))"
    using ReadPackedPdoChunk_spec [OF assms] by blast
  have "ds = take n (drop (unat off) w)"
  proof (rule pdo_bits_eqI)
    fix i assume "i < 8 * length ds"
    then have i: "i < 8 * n" using ds(2) by simp
    then have "pdo_bit (take n (drop (unat off) w)) i = pdo_bit w (8 * unat off + i)"
      using assms(3) w(2) by (simp add: pdo_bit_def)
    then show "pdo_bit ds i = pdo_bit (take n (drop (unat off) w)) i"
      using i ds(3) w(3) [of "8 * unat off + i"] assms(3) by simp
  qed (use assms(3) w(2) ds(2) in simp)
  with w(1) ds(1) show ?thesis by blast
qed

theorem packed_chunk_is_slice_witness:
  "\<exists>whole. ReadPackedPdoChunk [0xff, 0x0f] 0 12 0 (unat (PdoImageByteLength 12)) = Some whole
    \<and> ReadPackedPdoChunk [0xff, 0x0f] 0 12 1 1 = Some (take 1 (drop (unat (1 :: u32)) whole))"
  by (rule packed_chunk_is_slice) (simp_all add: PdoMappedByteLength_def PdoImageByteLength_def)

end
