(* ===== verification/Bus_Topology.thy ===== *)
theory Bus_Topology
  imports Pdo_Image
begin

text \<open>
  The process-data side of \<^verbatim>\<open>EthercatBus\<close> in \<^verbatim>\<open>main.cpp\<close>: SubDevices as the EtherCAT master reports
  them, the IO map their images live in, the topology check that decides whether a bus may
  be used, and the two operations that change output bits. A pointer is an address or null; the IO map
  is a byte string at a base address, so that the range checks are those of the source. Error
  messages are constructors that carry the SubDevice index.
\<close>

section \<open>SubDevices and the IO map\<close>

definition EC_MAXSLAVE :: nat where
  "EC_MAXSLAVE = 200"

text \<open>The fields of \<^verbatim>\<open>ec_slavet\<close> the daemon reads.\<close>

record SubDevice =
  sd_Obits :: u16
  sd_Obytes :: u32
  sd_Ostartbit :: u8
  sd_outputs :: "nat option"
  sd_Ibits :: u16
  sd_Ibytes :: u32
  sd_Istartbit :: u8
  sd_inputs :: "nat option"
  sd_eep_man :: u32
  sd_eep_id :: u32
  sd_eep_rev :: u32
  sd_hasdc :: bool

record ExpectedSubDevice =
  exp_vendorId :: u32
  exp_productCode :: u32
  exp_revision :: "u32 option"
  exp_outputBytes :: "u32 option"
  exp_inputBytes :: "u32 option"

record IoMap =
  io_base :: nat
  io_bytes :: bytes

definition PointerRangeInIoMap :: "IoMap \<Rightarrow> nat option \<Rightarrow> u32 \<Rightarrow> bool" where
  "PointerRangeInIoMap io pointer len =
     (let begin_addr = io_base io; end_addr = begin_addr + length (io_bytes io)
      in if len = 0
         then (case pointer of None \<Rightarrow> True | Some candidate \<Rightarrow> begin_addr \<le> candidate \<and> candidate \<le> end_addr)
         else (case pointer of None \<Rightarrow> False
               | Some candidate \<Rightarrow> begin_addr \<le> candidate \<and> candidate \<le> end_addr
                                  \<and> unat len \<le> end_addr - candidate))"

text \<open>A span of the IO map, and the IO map after its content was replaced.\<close>

definition io_offset :: "nat \<Rightarrow> nat \<Rightarrow> nat" where
  "io_offset base pointer = pointer - base"

definition io_span :: "IoMap \<Rightarrow> nat \<Rightarrow> nat \<Rightarrow> bytes" where
  "io_span io pointer n = take n (drop (io_offset (io_base io) pointer) (io_bytes io))"

definition io_store :: "IoMap \<Rightarrow> nat \<Rightarrow> bytes \<Rightarrow> IoMap" where
  "io_store io pointer bs =
     (let k = io_offset (io_base io) pointer
      in io\<lparr>io_bytes := take k (io_bytes io) @ bs @ drop (k + length bs) (io_bytes io)\<rparr>)"

section \<open>The topology check\<close>

datatype TopologyError =
    UnexpectedCount nat nat
  | InconsistentMetadata nat
  | OutputImageTooLarge nat
  | PointersOutsideIoMap nat
  | MissingExpectedSizes nat
  | UnexpectedSubDevice nat
  | UnverifiedOutputs
  | TooManyInputChunks

text \<open>The variables the loop over the SubDevices carries.\<close>

record TopologyScan =
  ts_outputCapable :: bool
  ts_totalInputChunks :: nat
  ts_outputSizes :: "u32 list"
  ts_outputBits :: "u16 list"

definition expected_mismatch :: "ExpectedSubDevice \<Rightarrow> SubDevice \<Rightarrow> bool" where
  "expected_mismatch expected actual =
     (let outputBytes = PdoImageByteLength (sd_Obits actual);
          inputBytes = PdoImageByteLength (sd_Ibits actual)
      in sd_eep_man actual \<noteq> exp_vendorId expected
         \<or> sd_eep_id actual \<noteq> exp_productCode expected
         \<or> (case exp_revision expected of None \<Rightarrow> False | Some r \<Rightarrow> sd_eep_rev actual \<noteq> r)
         \<or> (case exp_outputBytes expected of None \<Rightarrow> False | Some n \<Rightarrow> outputBytes \<noteq> n)
         \<or> (case exp_inputBytes expected of None \<Rightarrow> False | Some n \<Rightarrow> inputBytes \<noteq> n))"

text \<open>The stores of one turn; on an error the caller resets every size at once, so only the stores of
  a successful check are kept.\<close>

definition topology_account ::
  "ExpectedSubDevice list \<Rightarrow> bool \<Rightarrow> nat \<Rightarrow> SubDevice \<Rightarrow> TopologyScan \<Rightarrow> TopologyScan" where
  "topology_account expectedSubDevices allowUnverified index actual ts =
     (let outputBytes = PdoImageByteLength (sd_Obits actual);
          inputBytes = PdoImageByteLength (sd_Ibits actual);
          unverified = (expectedSubDevices = [] \<and> allowUnverified)
      in ts\<lparr>ts_outputCapable := ts_outputCapable ts \<or> outputBytes \<noteq> 0,
            ts_totalInputChunks := ts_totalInputChunks ts
              + (unat inputBytes + kMaximumPdoChunk - 1) div kMaximumPdoChunk,
            ts_outputSizes := (ts_outputSizes ts)[index := if unverified then 0 else outputBytes],
            ts_outputBits := (ts_outputBits ts)[index := if unverified then 0 else sd_Obits actual]\<rparr>)"

definition validate_subdevice ::
  "ExpectedSubDevice list \<Rightarrow> bool \<Rightarrow> IoMap \<Rightarrow> nat \<Rightarrow> SubDevice \<Rightarrow> TopologyScan \<Rightarrow> TopologyError + TopologyScan" where
  "validate_subdevice expectedSubDevices allowUnverified io index actual ts =
     (let outputBytes = PdoImageByteLength (sd_Obits actual);
          inputBytes = PdoImageByteLength (sd_Ibits actual)
      in if \<not> IsValidSoemPdoMetadata (sd_Obits actual) (sd_Obytes actual) (sd_Ostartbit actual)
            \<or> \<not> IsValidSoemPdoMetadata (sd_Ibits actual) (sd_Ibytes actual) (sd_Istartbit actual)
         then Inl (InconsistentMetadata index)
         else if unat outputBytes > kMaximumOutputWrite then Inl (OutputImageTooLarge index)
         else if \<not> PointerRangeInIoMap io (sd_outputs actual)
                    (PdoMappedByteLength (sd_Obits actual) (sd_Ostartbit actual))
                 \<or> \<not> PointerRangeInIoMap io (sd_inputs actual)
                    (PdoMappedByteLength (sd_Ibits actual) (sd_Istartbit actual))
         then Inl (PointersOutsideIoMap index)
         else let ts = topology_account expectedSubDevices allowUnverified index actual ts
              in if expectedSubDevices = [] then Inr ts
                 else let expected = expectedSubDevices ! (index - 1)
                      in if outputBytes \<noteq> 0 \<and> exp_outputBytes expected = None
                            \<or> inputBytes \<noteq> 0 \<and> exp_inputBytes expected = None
                         then Inl (MissingExpectedSizes index)
                         else if expected_mismatch expected actual then Inl (UnexpectedSubDevice index)
                         else Inr ts)"

fun validate_subdevices ::
  "ExpectedSubDevice list \<Rightarrow> bool \<Rightarrow> IoMap \<Rightarrow> nat \<Rightarrow> SubDevice list \<Rightarrow> TopologyScan \<Rightarrow> TopologyError + TopologyScan" where
  "validate_subdevices expectedSubDevices allowUnverified io index [] ts = Inr ts"
| "validate_subdevices expectedSubDevices allowUnverified io index (actual # rest) ts =
     (case validate_subdevice expectedSubDevices allowUnverified io index actual ts of
        Inl e \<Rightarrow> Inl e
      | Inr ts \<Rightarrow> validate_subdevices expectedSubDevices allowUnverified io (Suc index) rest ts)"

text \<open>
  The result carries the published sizes and bits and whether the output topology is verified. The
  list \<open>devices\<close> holds the SubDevices from index 1 on.
\<close>

definition ValidateTopology ::
  "ExpectedSubDevice list \<Rightarrow> bool \<Rightarrow> IoMap \<Rightarrow> SubDevice list \<Rightarrow> u32 list \<Rightarrow> u16 list \<Rightarrow>
   TopologyError + (TopologyScan \<times> bool)" where
  "ValidateTopology expectedSubDevices allowUnverified io devices outputSizes outputBits =
     (if expectedSubDevices \<noteq> [] \<and> length expectedSubDevices \<noteq> length devices
      then Inl (UnexpectedCount (length expectedSubDevices) (length devices))
      else case validate_subdevices expectedSubDevices allowUnverified io 1 devices
             \<lparr>ts_outputCapable = False, ts_totalInputChunks = 0,
              ts_outputSizes = outputSizes, ts_outputBits = outputBits\<rparr> of
             Inl e \<Rightarrow> Inl e
           | Inr ts \<Rightarrow>
               if ts_outputCapable ts \<and> expectedSubDevices = [] \<and> \<not> allowUnverified
               then Inl UnverifiedOutputs
               else if ts_totalInputChunks ts > 128 then Inl TooManyInputChunks
               else Inr (ts, ts_outputCapable ts \<and> expectedSubDevices \<noteq> []))"

section \<open>Changing output bits\<close>

definition zero_device :: "SubDevice \<Rightarrow> IoMap \<Rightarrow> IoMap" where
  "zero_device sd io =
     (let mappedBytes = PdoMappedByteLength (sd_Obits sd) (sd_Ostartbit sd)
      in case sd_outputs sd of None \<Rightarrow> io
         | Some p \<Rightarrow>
            if PointerRangeInIoMap io (Some p) mappedBytes then
              (case ZeroPackedPdoImage (io_span io p (unat mappedBytes)) (sd_Ostartbit sd) (sd_Obits sd) of
                 None \<Rightarrow> io | Some bs \<Rightarrow> io_store io p bs)
            else io)"

definition zero_outputs :: "SubDevice list \<Rightarrow> IoMap \<Rightarrow> IoMap" where
  "zero_outputs devices io =
     fold (\<lambda>sd io. if sd_Obits sd \<noteq> 0 then zero_device sd io else io) devices io"

text \<open>The guarded write of one command image; nothing where the source skips the command.\<close>

definition write_device :: "SubDevice \<Rightarrow> u32 \<Rightarrow> bytes \<Rightarrow> IoMap \<Rightarrow> IoMap option" where
  "write_device sd offset img io =
     (let outputBytes = PdoImageByteLength (sd_Obits sd);
          mappedBytes = PdoMappedByteLength (sd_Obits sd) (sd_Ostartbit sd)
      in case sd_outputs sd of None \<Rightarrow> None
         | Some p \<Rightarrow>
            if \<not> PointerRangeInIoMap io (Some p) mappedBytes
               \<or> ValidateWholeOutputWrite outputBytes offset (length img) \<noteq> AckOk then None
            else (case WritePackedPdoImage (io_span io p (unat mappedBytes)) (sd_Ostartbit sd) (sd_Obits sd) img of
                    None \<Rightarrow> None | Some bs \<Rightarrow> Some (io_store io p bs)))"

section \<open>The IO map bit by bit\<close>

definition io_bit :: "IoMap \<Rightarrow> nat \<Rightarrow> bool" where
  "io_bit io j \<longleftrightarrow> j < 8 * length (io_bytes io) \<and> pdo_bit (io_bytes io) j"

definition io_shape :: "IoMap \<Rightarrow> nat \<times> nat" where
  "io_shape io = (io_base io, length (io_bytes io))"

text \<open>The output bits of a SubDevice, as positions in the IO map.\<close>

definition device_bits :: "nat \<Rightarrow> SubDevice \<Rightarrow> nat set" where
  "device_bits base sd =
     (case sd_outputs sd of None \<Rightarrow> {}
      | Some p \<Rightarrow> {8 * (io_offset base p) + unat (sd_Ostartbit sd) ..<
                   8 * (io_offset base p) + unat (sd_Ostartbit sd) + unat (sd_Obits sd)})"

definition device_ok :: "IoMap \<Rightarrow> SubDevice \<Rightarrow> bool" where
  "device_ok io sd \<longleftrightarrow>
     sd_Ostartbit sd \<le> 7
     \<and> PointerRangeInIoMap io (sd_outputs sd) (PdoMappedByteLength (sd_Obits sd) (sd_Ostartbit sd))"

lemma PointerRange_shape: "io_shape io' = io_shape io \<Longrightarrow> PointerRangeInIoMap io' p n = PointerRangeInIoMap io p n"
  by (simp add: PointerRangeInIoMap_def io_shape_def Let_def)

lemma device_ok_shape: "io_shape io' = io_shape io \<Longrightarrow> device_ok io' sd = device_ok io sd"
  unfolding device_ok_def by (simp only: PointerRange_shape [of io' io])

lemma pdo_bit_splice:
  assumes "k + length bs \<le> length xs" and "j < 8 * length xs"
  shows "pdo_bit (take k xs @ bs @ drop (k + length bs) xs) j =
      (if 8 * k \<le> j \<and> j < 8 * (k + length bs) then pdo_bit bs (j - 8 * k) else pdo_bit xs j)"
proof -
  define q r where "q = j div 8" and "r = j mod 8"
  have j: "j = 8 * q + r" "r < 8" unfolding q_def r_def by simp_all
  have at: "j div 8 = q" "j mod 8 = r" unfolding q_def r_def by simp_all
  have q: "q < length xs" using assms(2) by (simp add: q_def div_less_iff_less_mult mult.commute)
  have in_range: "8 * k \<le> j \<and> j < 8 * (k + length bs) \<longleftrightarrow> k \<le> q \<and> q < k + length bs"
    by (simp add: q_def less_eq_div_iff_mult_less_eq div_less_iff_less_mult mult.commute)
  have shifted: "(j - 8 * k) div 8 = q - k" "(j - 8 * k) mod 8 = r" if "k \<le> q"
  proof -
    have "j - 8 * k = 8 * (q - k) + r" using that j(1) by (simp add: diff_mult_distrib2)
    then show "(j - 8 * k) div 8 = q - k" "(j - 8 * k) mod 8 = r" using j(2) by simp_all
  qed
  show ?thesis
    using assms(1) q unfolding in_range by (auto simp: pdo_bit_def at shifted nth_append min_def)
qed

lemma io_store_bits:
  assumes "io_base io \<le> p" and "io_offset (io_base io) p + length bs \<le> length (io_bytes io)"
  shows "io_shape (io_store io p bs) = io_shape io"
    and "io_bit (io_store io p bs) j =
      (if 8 * (io_offset (io_base io) p) \<le> j \<and> j < 8 * (io_offset (io_base io) p + length bs)
       then pdo_bit bs (j - 8 * (io_offset (io_base io) p)) else io_bit io j)"
  using assms by (auto simp: io_store_def io_shape_def io_bit_def Let_def pdo_bit_splice)

lemma io_span_bits:
  assumes "io_offset (io_base io) p + n \<le> length (io_bytes io)" and "i < 8 * n"
  shows "length (io_span io p n) = n"
    and "pdo_bit (io_span io p n) i = io_bit io (8 * (io_offset (io_base io) p) + i)"
  using assms by (auto simp: io_span_def io_bit_def pdo_bit_def)

lemma range_in_map:
  assumes "PointerRangeInIoMap io (Some p) len"
  shows "io_base io \<le> p" and "io_offset (io_base io) p + unat len \<le> length (io_bytes io)"
  using assms by (auto simp: PointerRangeInIoMap_def Let_def io_offset_def split: if_splits)

text \<open>Replacing a window of bits in a span replaces that window of the IO map and nothing else.\<close>

lemma io_store_window:
  assumes "io_base io \<le> p" and "io_offset (io_base io) p + n \<le> length (io_bytes io)"
    and "length bs = n" and "lo \<le> hi" and "lo < hi \<longrightarrow> hi \<le> 8 * n"
    and "\<And>i. i < 8 * n \<Longrightarrow> pdo_bit bs i = (if lo \<le> i \<and> i < hi then f i else pdo_bit (io_span io p n) i)"
  shows "io_bit (io_store io p bs) j =
      (if 8 * io_offset (io_base io) p + lo \<le> j \<and> j < 8 * io_offset (io_base io) p + hi
       then f (j - 8 * io_offset (io_base io) p) else io_bit io j)"
proof -
  let ?k = "io_offset (io_base io) p"
  have store: "io_bit (io_store io p bs) j =
      (if 8 * ?k \<le> j \<and> j < 8 * (?k + n) then pdo_bit bs (j - 8 * ?k) else io_bit io j)"
    using io_store_bits(2) [OF assms(1), of bs j] assms(2,3) by simp
  show ?thesis
  proof (cases "8 * ?k \<le> j \<and> j < 8 * (?k + n)")
    case True
    define i where "i = j - 8 * ?k"
    have i: "j = 8 * ?k + i" "i < 8 * n" using True by (auto simp: i_def)
    have "pdo_bit bs i = (if lo \<le> i \<and> i < hi then f i else io_bit io j)"
      using assms(6) [OF i(2)] io_span_bits(2) [OF assms(2) i(2)] i(1) by simp
    with True store i show ?thesis by (simp add: i_def [symmetric])
  next
    case False
    with assms(4,5) have out: "\<not> (8 * ?k + lo \<le> j \<and> j < 8 * ?k + hi)" by auto
    show ?thesis unfolding store by (simp only: False out if_False)
  qed
qed

lemma device_window:
  assumes "device_ok io sd" and "sd_outputs sd = Some p"
  defines "n \<equiv> unat (PdoMappedByteLength (sd_Obits sd) (sd_Ostartbit sd))"
  shows "io_base io \<le> p" and "io_offset (io_base io) p + n \<le> length (io_bytes io)"
    and "length (io_span io p n) = n" and "sd_Ostartbit sd \<le> 7"
    and "PointerRangeInIoMap io (Some p) (PdoMappedByteLength (sd_Obits sd) (sd_Ostartbit sd))"
    and "unat (sd_Ostartbit sd) < unat (sd_Ostartbit sd) + unat (sd_Obits sd) \<longrightarrow>
           unat (sd_Ostartbit sd) + unat (sd_Obits sd) \<le> 8 * n"
proof -
  show range: "PointerRangeInIoMap io (Some p) (PdoMappedByteLength (sd_Obits sd) (sd_Ostartbit sd))"
    and start: "sd_Ostartbit sd \<le> 7"
    using assms(1,2) by (simp_all add: device_ok_def)
  show fits: "io_base io \<le> p" "io_offset (io_base io) p + n \<le> length (io_bytes io)"
    using range_in_map [OF range] by (simp_all add: n_def)
  show len: "length (io_span io p n) = n" using fits(2) by (simp add: io_span_def)
  show "unat (sd_Ostartbit sd) < unat (sd_Ostartbit sd) + unat (sd_Obits sd) \<longrightarrow>
      unat (sd_Ostartbit sd) + unat (sd_Obits sd) \<le> 8 * n"
    using mapped_bits [OF start len [unfolded n_def]] len
    by (cases "sd_Obits sd = 0") (simp_all add: n_def)
qed

lemma zero_device_bits:
  assumes "device_ok io sd"
  shows "io_shape (zero_device sd io) = io_shape io
    \<and> (io_bit (zero_device sd io) j \<longleftrightarrow> io_bit io j \<and> j \<notin> device_bits (io_base io) sd)"
proof (cases "sd_outputs sd")
  case None
  then show ?thesis by (simp add: zero_device_def device_bits_def Let_def)
next
  case (Some p)
  let ?n = "unat (PdoMappedByteLength (sd_Obits sd) (sd_Ostartbit sd))"
  note w = device_window [OF assms Some]
  obtain bs where bs: "ZeroPackedPdoImage (io_span io p ?n) (sd_Ostartbit sd) (sd_Obits sd) = Some bs"
    "length bs = ?n"
    "\<And>i. i < 8 * ?n \<Longrightarrow> pdo_bit bs i =
      (\<not> (unat (sd_Ostartbit sd) \<le> i \<and> i < unat (sd_Ostartbit sd) + unat (sd_Obits sd))
       \<and> pdo_bit (io_span io p ?n) i)"
    using ZeroPackedPdoImage_spec [OF w(4,3)] w(3) by metis
  have zero: "zero_device sd io = io_store io p bs"
    by (simp add: zero_device_def Some w(5) bs(1) Let_def)
  have "io_bit (io_store io p bs) j =
      (if 8 * io_offset (io_base io) p + unat (sd_Ostartbit sd) \<le> j
          \<and> j < 8 * io_offset (io_base io) p + (unat (sd_Ostartbit sd) + unat (sd_Obits sd))
       then False else io_bit io j)"
    by (rule io_store_window [OF w(1,2) bs(2) _ w(6)]) (simp_all add: bs(3))
  moreover have "io_shape (io_store io p bs) = io_shape io"
    using io_store_bits(1) [OF w(1)] w(2) bs(2) by simp
  ultimately show ?thesis by (auto simp: zero device_bits_def Some)
qed

lemma write_device_bits:
  assumes "device_ok io sd" and "write_device sd off img io = Some io'"
  shows "io_shape io' = io_shape io
    \<and> (j \<notin> device_bits (io_base io) sd \<longrightarrow> io_bit io' j = io_bit io j)
    \<and> (\<exists>p. sd_outputs sd = Some p
         \<and> (\<forall>i < unat (sd_Obits sd).
              io_bit io' (8 * io_offset (io_base io) p + unat (sd_Ostartbit sd) + i) = pdo_bit img i))"
proof -
  from assms(2) obtain p bs where p: "sd_outputs sd = Some p"
    and bs: "WritePackedPdoImage (io_span io p (unat (PdoMappedByteLength (sd_Obits sd) (sd_Ostartbit sd))))
          (sd_Ostartbit sd) (sd_Obits sd) img = Some bs" and io': "io' = io_store io p bs"
    by (auto simp: write_device_def Let_def split: option.splits if_splits)
  let ?n = "unat (PdoMappedByteLength (sd_Obits sd) (sd_Ostartbit sd))"
  let ?k = "8 * io_offset (io_base io) p" and ?lo = "unat (sd_Ostartbit sd)"
  let ?hi = "unat (sd_Ostartbit sd) + unat (sd_Obits sd)"
  note w = device_window [OF assms(1) p]
  have "HasCanonicalPdoPadding (sd_Obits sd) img"
    using bs by (auto simp: WritePackedPdoImage_def split: if_splits)
  from WritePackedPdoImage_spec [OF w(4,3) this] bs w(3)
  have out: "length bs = ?n" "\<And>i. i < 8 * ?n \<Longrightarrow> pdo_bit bs i =
      (if ?lo \<le> i \<and> i < ?hi then pdo_bit img (i - ?lo) else pdo_bit (io_span io p ?n) i)"
    by (metis option.inject)+
  have bits: "io_bit (io_store io p bs) j =
      (if ?k + ?lo \<le> j \<and> j < ?k + ?hi then pdo_bit img (j - ?k - ?lo) else io_bit io j)" for j
    by (rule io_store_window [OF w(1,2) out(1) _ w(6)]) (simp_all add: out(2))
  have "io_shape io' = io_shape io" using io_store_bits(1) [OF w(1)] w(2) out(1) by (simp add: io')
  then show ?thesis by (auto simp: io' bits device_bits_def p)
qed

lemma zero_outputs_bits:
  assumes "\<forall>sd \<in> set devices. device_ok io sd"
  shows "io_shape (zero_outputs devices io) = io_shape io
    \<and> (io_bit (zero_outputs devices io) j \<longleftrightarrow>
         io_bit io j \<and> (\<forall>sd \<in> set devices. j \<notin> device_bits (io_base io) sd))"
  using assms unfolding zero_outputs_def
proof (induction devices arbitrary: io)
  case (Cons sd devices)
  let ?io = "if sd_Obits sd \<noteq> 0 then zero_device sd io else io"
  have shape: "io_shape ?io = io_shape io"
    and bit: "io_bit ?io j \<longleftrightarrow> io_bit io j \<and> j \<notin> device_bits (io_base io) sd"
    using zero_device_bits [of io sd j] Cons.prems by (auto simp: device_bits_def split: option.split)
  have "\<forall>d \<in> set devices. device_ok ?io d"
    using Cons.prems device_ok_shape [OF shape] by simp
  from Cons.IH [OF this] shape bit show ?case by (auto simp: io_shape_def)
qed simp

section \<open>What the topology check guarantees\<close>

definition subdevice_checked :: "IoMap \<Rightarrow> SubDevice \<Rightarrow> bool" where
  "subdevice_checked io sd \<longleftrightarrow>
     device_ok io sd
     \<and> sd_Istartbit sd \<le> 7
     \<and> PointerRangeInIoMap io (sd_inputs sd) (PdoMappedByteLength (sd_Ibits sd) (sd_Istartbit sd))
     \<and> unat (PdoImageByteLength (sd_Obits sd)) \<le> kMaximumOutputWrite"

definition published_size :: "ExpectedSubDevice list \<Rightarrow> bool \<Rightarrow> SubDevice \<Rightarrow> u32" where
  "published_size expectedSubDevices allowUnverified sd =
     (if expectedSubDevices = [] \<and> allowUnverified then 0 else PdoImageByteLength (sd_Obits sd))"

lemma valid_metadata_start: "IsValidSoemPdoMetadata bits bytes start \<Longrightarrow> start \<le> 7"
  by (auto simp: IsValidSoemPdoMetadata_def not_less split: if_splits)

lemma validate_subdevice_Inr:
  assumes "validate_subdevice expected allow io index sd ts = Inr ts'"
  shows "subdevice_checked io sd"
    and "expected \<noteq> [] \<Longrightarrow> \<not> expected_mismatch (expected ! (index - 1)) sd"
    and "ts' = topology_account expected allow index sd ts"
proof -
  have "subdevice_checked io sd \<and> (expected \<noteq> [] \<longrightarrow> \<not> expected_mismatch (expected ! (index - 1)) sd)
      \<and> ts' = topology_account expected allow index sd ts"
    using assms unfolding validate_subdevice_def Let_def subdevice_checked_def device_ok_def
    by (simp add: valid_metadata_start not_less split: if_split_asm)
  then show "subdevice_checked io sd"
    and "expected \<noteq> [] \<Longrightarrow> \<not> expected_mismatch (expected ! (index - 1)) sd"
    and "ts' = topology_account expected allow index sd ts" by simp_all
qed

lemma topology_account_fields [simp]:
  "ts_outputCapable (topology_account expected allow index sd ts) \<longleftrightarrow>
     ts_outputCapable ts \<or> PdoImageByteLength (sd_Obits sd) \<noteq> 0"
  "ts_outputSizes (topology_account expected allow index sd ts) =
     (ts_outputSizes ts)[index := published_size expected allow sd]"
  by (simp_all add: topology_account_def Let_def published_size_def)

lemma validate_subdevices_Inr:
  assumes "validate_subdevices expected allow io index devices ts = Inr ts'"
    and "index + length devices \<le> length (ts_outputSizes ts)" and "1 \<le> index"
  shows "(\<forall>sd \<in> set devices. subdevice_checked io sd)
    \<and> (expected \<noteq> [] \<longrightarrow> (\<forall>i < length devices. \<not> expected_mismatch (expected ! (index - 1 + i)) (devices ! i)))
    \<and> (ts_outputCapable ts' \<longleftrightarrow> ts_outputCapable ts \<or> (\<exists>sd \<in> set devices. PdoImageByteLength (sd_Obits sd) \<noteq> 0))
    \<and> length (ts_outputSizes ts') = length (ts_outputSizes ts)
    \<and> (\<forall>i < length devices. ts_outputSizes ts' ! (index + i) = published_size expected allow (devices ! i))
    \<and> (\<forall>i < index. ts_outputSizes ts' ! i = ts_outputSizes ts ! i)"
  using assms
proof (induction devices arbitrary: index ts)
  case (Cons sd devices)
  from Cons.prems(1) obtain ts1 where
    step: "validate_subdevice expected allow io index sd ts = Inr ts1" and
    rest: "validate_subdevices expected allow io (Suc index) devices ts1 = Inr ts'"
    by (auto split: sum.splits)
  note one = validate_subdevice_Inr [OF step]
  have len: "Suc index + length devices \<le> length (ts_outputSizes ts1)"
    using Cons.prems(2) by (simp add: one(3))
  note IH = Cons.IH [OF rest len le_SucI [OF Cons.prems(3)]]
  note IHs = IH [THEN conjunct1] IH [THEN conjunct2, THEN conjunct1]
    IH [THEN conjunct2, THEN conjunct2, THEN conjunct1]
    IH [THEN conjunct2, THEN conjunct2, THEN conjunct2]
  have size: "ts_outputSizes ts' ! index = published_size expected allow sd"
    using IHs(4) Cons.prems(2) by (simp add: one(3))
  have before: "ts_outputSizes ts' ! i = ts_outputSizes ts ! i" if "i < index" for i
    using IHs(4) that by (simp add: one(3))
  have mismatch: "\<not> expected_mismatch (expected ! (index - 1 + i)) ((sd # devices) ! i)"
    if "expected \<noteq> []" "i < length (sd # devices)" for i
    using that one(2) IHs(2) Cons.prems(3) by (cases i) simp_all
  have sizes: "ts_outputSizes ts' ! (index + i) = published_size expected allow ((sd # devices) ! i)"
    if "i < length (sd # devices)" for i
    using that IHs(4) size by (cases i) simp_all
  show ?case
  proof (intro conjI allI impI)
    show "\<forall>d \<in> set (sd # devices). subdevice_checked io d" using IHs(1) one(1) by simp
    show "ts_outputCapable ts' \<longleftrightarrow>
        ts_outputCapable ts \<or> (\<exists>d \<in> set (sd # devices). PdoImageByteLength (sd_Obits d) \<noteq> 0)"
      using IHs(3) by (simp add: one(3))
    show "length (ts_outputSizes ts') = length (ts_outputSizes ts)" using IHs(4) by (simp add: one(3))
  qed (use mismatch sizes before in auto)
qed simp

lemma image_length_zero: "PdoImageByteLength bits = 0 \<longleftrightarrow> bits = 0"
proof -
  have "unat (PdoImageByteLength bits) = 0 \<longleftrightarrow> unat bits = 0"
    unfolding unat_PdoImageByteLength by auto
  then show ?thesis by (simp add: unat_eq_zero)
qed


definition example_subdevice :: SubDevice where
  "example_subdevice =
     \<lparr>sd_Obits = 12, sd_Obytes = 2, sd_Ostartbit = 0, sd_outputs = Some 16,
      sd_Ibits = 4, sd_Ibytes = 0, sd_Istartbit = 3, sd_inputs = Some 18,
      sd_eep_man = 2, sd_eep_id = 0x07d83052, sd_eep_rev = 1, sd_hasdc = False\<rparr>"

definition example_expected :: ExpectedSubDevice where
  "example_expected =
     \<lparr>exp_vendorId = 2, exp_productCode = 0x07d83052, exp_revision = None,
      exp_outputBytes = Some 2, exp_inputBytes = Some 1\<rparr>"

definition example_io :: IoMap where
  "example_io = \<lparr>io_base = 16, io_bytes = [0xff, 0xff, 0xff, 0xff]\<rparr>"


text \<open>
  C31: clearing the outputs of a checked bus is complete and local. Afterwards every output bit of every
  SubDevice is zero, whatever bytes SubDevices share, and no other bit of the IO map has changed.
\<close>

theorem zero_outputs_exact:
  assumes "\<forall>sd \<in> set devices. device_ok io sd"
  shows "io_shape (zero_outputs devices io) = io_shape io
    \<and> (\<forall>sd \<in> set devices. \<forall>j \<in> device_bits (io_base io) sd. \<not> io_bit (zero_outputs devices io) j)
    \<and> (\<forall>j. (\<forall>sd \<in> set devices. j \<notin> device_bits (io_base io) sd) \<longrightarrow>
          io_bit (zero_outputs devices io) j = io_bit io j)"
  using zero_outputs_bits [OF assms] by blast

theorem zero_outputs_exact_witness:
  "io_bytes (zero_outputs [example_subdevice] example_io) = [0, 0xf0, 0xff, 0xff]
   \<and> io_bit example_io 3 \<and> \<not> io_bit (zero_outputs [example_subdevice] example_io) 3"
proof -
  have "device_ok example_io example_subdevice" by code_simp
  moreover have "3 \<in> device_bits (io_base example_io) example_subdevice"
    by (simp add: device_bits_def example_subdevice_def example_io_def io_offset_def)
  ultimately have "\<not> io_bit (zero_outputs [example_subdevice] example_io) 3"
    using zero_outputs_exact [of "[example_subdevice]" example_io] by simp
  moreover have "io_bytes (zero_outputs [example_subdevice] example_io) = [0, 0xf0, 0xff, 0xff]"
    by code_simp
  moreover have "io_bit example_io 3" by code_simp
  ultimately show ?thesis by blast
qed

end
