(* ===== verification/Spsc_Queue.thy ===== *)
theory Spsc_Queue
  imports Ecsc_Prelude
begin

text \<open>
  The single-producer single-consumer ring buffer \<^verbatim>\<open>SpscQueue\<close> of \<^verbatim>\<open>main.cpp\<close>, which carries output
  commands to the cyclic thread and input chunks back. The methods are first modelled as atomic
  functions and shown to implement a bounded first-in first-out queue. Then the two threads are
  interleaved: one step per atomic load or store, in the order the release and acquire accesses
  enforce, with the histories of published and consumed values as ghost fields.
\<close>

section \<open>The methods\<close>

record 'v SpscQueue =
  q_values :: "'v list"
  q_read :: nat
  q_write :: nat

abbreviation Capacity :: "'v SpscQueue \<Rightarrow> nat" where
  "Capacity q \<equiv> length (q_values q)"

definition Next :: "nat \<Rightarrow> nat \<Rightarrow> nat" where
  "Next cap i = (i + 1) mod cap"

definition SpscQueue_init :: "nat \<Rightarrow> 'v \<Rightarrow> 'v SpscQueue" where
  "SpscQueue_init cap default_value = \<lparr>q_values = replicate cap default_value, q_read = 0, q_write = 0\<rparr>"

definition TryPush :: "'v \<Rightarrow> 'v SpscQueue \<Rightarrow> bool \<times> 'v SpscQueue" where
  "TryPush v q =
     (let w = q_write q; next = Next (Capacity q) w
      in if next = q_read q then (False, q)
         else (True, q\<lparr>q_values := (q_values q)[w := v], q_write := next\<rparr>))"

definition TryPop :: "'v SpscQueue \<Rightarrow> 'v option \<times> 'v SpscQueue" where
  "TryPop q =
     (let r = q_read q
      in if r = q_write q then (None, q)
         else (Some (q_values q ! r), q\<lparr>q_read := Next (Capacity q) r\<rparr>))"

definition AvailableToWrite :: "'v SpscQueue \<Rightarrow> nat" where
  "AvailableToWrite q =
     (let w = q_write q; r = q_read q
      in if r > w then r - w - 1 else Capacity q - (w - r) - 1)"

section \<open>The contract of a bounded queue\<close>

locale bounded_fifo =
  fixes push :: "'v \<Rightarrow> 'q \<Rightarrow> bool \<times> 'q"
    and pop :: "'q \<Rightarrow> 'v option \<times> 'q"
    and room :: "'q \<Rightarrow> nat"
    and contents :: "'q \<Rightarrow> 'v list"
    and ok :: "'q \<Rightarrow> bool"
  assumes push_ok: "ok q \<Longrightarrow> ok (snd (push v q))"
    and pop_ok: "ok q \<Longrightarrow> ok (snd (pop q))"
    and push_iff_room: "ok q \<Longrightarrow> fst (push v q) \<longleftrightarrow> 0 < room q"
    and push_contents: "ok q \<Longrightarrow> contents (snd (push v q)) = (if 0 < room q then contents q @ [v] else contents q)"
    and push_room: "ok q \<Longrightarrow> room (snd (push v q)) = room q - 1"
    and pop_hd: "ok q \<Longrightarrow> fst (pop q) = (case contents q of [] \<Rightarrow> None | v # _ \<Rightarrow> Some v)"
    and pop_contents: "ok q \<Longrightarrow> contents (snd (pop q)) = tl (contents q)"
    and pop_room: "ok q \<Longrightarrow> room (snd (pop q)) = (if contents q = [] then room q else room q + 1)"
begin

definition push_all :: "'v list \<Rightarrow> 'q \<Rightarrow> 'q" where
  "push_all vs q = fold (\<lambda>v q. snd (push v q)) vs q"

primrec drain :: "nat \<Rightarrow> 'q \<Rightarrow> 'v list" where
  "drain 0 q = []"
| "drain (Suc n) q = (case fst (pop q) of None \<Rightarrow> [] | Some v \<Rightarrow> v # drain n (snd (pop q)))"

lemma push_all_contents:
  "ok q \<Longrightarrow> length vs \<le> room q \<Longrightarrow>
   ok (push_all vs q) \<and> contents (push_all vs q) = contents q @ vs \<and> room (push_all vs q) = room q - length vs"
  unfolding push_all_def
  by (induction vs arbitrary: q) (auto simp: push_ok push_contents push_room)

lemma drain_contents: "ok q \<Longrightarrow> length (contents q) \<le> n \<Longrightarrow> drain n q = contents q"
proof (induction n arbitrary: q)
  case (Suc n)
  then show ?case
    by (cases "contents q") (simp_all add: pop_hd pop_ok pop_contents)
qed simp

end

section \<open>The ring buffer implements the contract\<close>

definition occupancy :: "nat \<Rightarrow> nat \<Rightarrow> nat \<Rightarrow> nat" where
  "occupancy cap r w = (if r \<le> w then w - r else cap - r + w)"

definition ring_contents :: "'v list \<Rightarrow> nat \<Rightarrow> nat \<Rightarrow> 'v list" where
  "ring_contents vs r w =
     map (\<lambda>i. vs ! ((r + i) mod length vs)) [0..<occupancy (length vs) r w]"

definition queue_ok :: "'v SpscQueue \<Rightarrow> bool" where
  "queue_ok q \<longleftrightarrow> 2 \<le> Capacity q \<and> q_read q < Capacity q \<and> q_write q < Capacity q"

definition queue_contents :: "'v SpscQueue \<Rightarrow> 'v list" where
  "queue_contents q = ring_contents (q_values q) (q_read q) (q_write q)"

lemma Next_cases: "i < cap \<Longrightarrow> Next cap i = (if Suc i = cap then 0 else Suc i)"
  by (simp add: Next_def)

lemma Next_less: "i < cap \<Longrightarrow> Next cap i < cap"
  by (simp add: Next_def)

lemma occupancy_less: "r < cap \<Longrightarrow> w < cap \<Longrightarrow> occupancy cap r w < cap"
  by (auto simp: occupancy_def)

lemma occupancy_0: "r < cap \<Longrightarrow> w < cap \<Longrightarrow> occupancy cap r w = 0 \<longleftrightarrow> r = w"
  by (auto simp: occupancy_def)

lemma occupancy_push:
  "r < cap \<Longrightarrow> w < cap \<Longrightarrow> Next cap w \<noteq> r \<Longrightarrow> occupancy cap r (Next cap w) = Suc (occupancy cap r w)"
  by (auto simp: occupancy_def Next_cases)

lemma occupancy_pop:
  "r < cap \<Longrightarrow> w < cap \<Longrightarrow> r \<noteq> w \<Longrightarrow> occupancy cap r w = Suc (occupancy cap (Next cap r) w)"
  by (auto simp: occupancy_def Next_cases)

lemma occupancy_full: "r < cap \<Longrightarrow> w < cap \<Longrightarrow> Next cap w = r \<longleftrightarrow> occupancy cap r w = cap - 1"
  by (auto simp: occupancy_def Next_cases)

lemma mod_wrap: "r < cap \<Longrightarrow> i < cap \<Longrightarrow> (r + i) mod cap = (if r + i < cap then r + i else r + i - cap)"
  for r i cap :: nat
  by (simp add: le_mod_geq)

lemma ring_slot_less:
  assumes "r < cap" and "w < cap" and "i < occupancy cap r w"
  shows "(r + i) mod cap \<noteq> w"
proof -
  have "i < cap" using assms occupancy_less [of r cap w] by simp
  from mod_wrap [OF assms(1) this] show ?thesis
    using assms by (auto simp: occupancy_def split: if_splits)
qed

lemma ring_slot_write:
  assumes "r < cap" and "w < cap"
  shows "(r + occupancy cap r w) mod cap = w"
  using assms by (simp add: mod_wrap occupancy_less) (auto simp: occupancy_def)

lemma ring_store:
  assumes "r < length vs" and "w < length vs"
  shows "ring_contents (vs[w := v]) r w = ring_contents vs r w"
  using assms by (auto simp: ring_contents_def nth_list_update dest: ring_slot_less)

lemma ring_publish:
  assumes "r < length vs" and "w < length vs" and "Next (length vs) w \<noteq> r"
  shows "ring_contents vs r (Next (length vs) w) = ring_contents vs r w @ [vs ! w]"
  using assms by (simp add: ring_contents_def occupancy_push ring_slot_write)

lemma ring_consume:
  assumes "r < length vs" and "w < length vs" and "r \<noteq> w"
  shows "ring_contents vs r w = vs ! r # ring_contents vs (Next (length vs) r) w"
proof -
  have slot: "(Next (length vs) r + i) mod length vs = (r + Suc i) mod length vs" for i
    by (simp add: Next_def mod_simps)
  show ?thesis
    unfolding ring_contents_def occupancy_pop [OF assms] map_upt_Suc slot using assms by simp
qed

lemma length_ring_contents [simp]: "length (ring_contents vs r w) = occupancy (length vs) r w"
  by (simp add: ring_contents_def)

lemma AvailableToWrite_eq:
  "queue_ok q \<Longrightarrow> AvailableToWrite q = Capacity q - 1 - length (queue_contents q)"
  by (auto simp: queue_ok_def AvailableToWrite_def queue_contents_def occupancy_def Let_def)

interpretation ring: bounded_fifo TryPush TryPop AvailableToWrite queue_contents queue_ok
proof
  fix q :: "'v SpscQueue" and v :: 'v
  assume ok: "queue_ok q"
  then have q: "2 \<le> Capacity q" "q_read q < Capacity q" "q_write q < Capacity q"
    by (simp_all add: queue_ok_def)
  have room: "0 < AvailableToWrite q \<longleftrightarrow> Next (Capacity q) (q_write q) \<noteq> q_read q"
    using q occupancy_less [OF q(2,3)]
    by (auto simp: AvailableToWrite_eq [OF ok] occupancy_full queue_contents_def)
  show "fst (TryPush v q) \<longleftrightarrow> 0 < AvailableToWrite q"
    by (simp add: TryPush_def Let_def room)
  show okpush: "queue_ok (snd (TryPush v q))"
    using q by (simp add: TryPush_def Let_def queue_ok_def Next_less)
  show okpop: "queue_ok (snd (TryPop q))"
    using q by (simp add: TryPop_def Let_def queue_ok_def Next_less)
  show push: "queue_contents (snd (TryPush v q)) =
      (if 0 < AvailableToWrite q then queue_contents q @ [v] else queue_contents q)"
  proof (cases "0 < AvailableToWrite q")
    case True
    with room have "Next (Capacity q) (q_write q) \<noteq> q_read q" by simp
    then show ?thesis
      using q True ring_publish [of "q_read q" "(q_values q)[q_write q := v]" "q_write q"]
      by (simp add: TryPush_def Let_def queue_contents_def ring_store)
  next
    case False
    with room show ?thesis by (simp add: TryPush_def Let_def)
  qed
  show "AvailableToWrite (snd (TryPush v q)) = AvailableToWrite q - 1"
    using push okpush ok by (auto simp: AvailableToWrite_eq TryPush_def Let_def)
  have consume: "queue_contents q = q_values q ! q_read q # queue_contents (snd (TryPop q))"
    if "q_read q \<noteq> q_write q"
    using q that by (simp add: TryPop_def Let_def queue_contents_def ring_consume)
  have empty: "queue_contents q = []" if "q_read q = q_write q"
    using that by (simp add: queue_contents_def ring_contents_def occupancy_def)
  show "fst (TryPop q) = (case queue_contents q of [] \<Rightarrow> None | v # _ \<Rightarrow> Some v)"
    using consume empty by (cases "q_read q = q_write q") (simp_all add: TryPop_def Let_def)
  show pop: "queue_contents (snd (TryPop q)) = tl (queue_contents q)"
    using consume empty by (cases "q_read q = q_write q") (simp_all add: TryPop_def Let_def)
  show "AvailableToWrite (snd (TryPop q)) =
      (if queue_contents q = [] then AvailableToWrite q else AvailableToWrite q + 1)"
  proof -
    have "length (queue_contents q) < Capacity q"
      using occupancy_less [OF q(2,3)] by (simp add: queue_contents_def)
    moreover have "Capacity (snd (TryPop q)) = Capacity q" by (simp add: TryPop_def Let_def)
    ultimately show ?thesis
      using pop by (cases "queue_contents q") (simp_all add: AvailableToWrite_eq [OF ok] AvailableToWrite_eq [OF okpop])
  qed
qed

section \<open>The two threads interleaved\<close>

text \<open>
  The producer is between calls, has seen a free slot and not yet written it, or has written it and not
  yet published it. The consumer is between calls, has seen a published value and not yet read
  it, or has read it and not yet released its slot.
\<close>

datatype 'v ProducerPc = PushIdle | PushStore 'v | PushPublish 'v
datatype 'v ConsumerPc = PopIdle | PopLoad | PopRelease 'v

record 'v SpscThreads =
  th_queue :: "'v SpscQueue"
  th_producer :: "'v ProducerPc"
  th_consumer :: "'v ConsumerPc"
  th_pushed :: "'v list"
  th_popped :: "'v list"

definition threads_init :: "nat \<Rightarrow> 'v \<Rightarrow> 'v SpscThreads" where
  "threads_init cap default_value =
     \<lparr>th_queue = SpscQueue_init cap default_value, th_producer = PushIdle, th_consumer = PopIdle,
      th_pushed = [], th_popped = []\<rparr>"

inductive thread_step :: "'v SpscThreads \<Rightarrow> 'v SpscThreads \<Rightarrow> bool" where
  push_full:
    "th_producer s = PushIdle \<Longrightarrow>
     Next (Capacity (th_queue s)) (q_write (th_queue s)) = q_read (th_queue s) \<Longrightarrow> thread_step s s"
| push_check:
    "th_producer s = PushIdle \<Longrightarrow>
     Next (Capacity (th_queue s)) (q_write (th_queue s)) \<noteq> q_read (th_queue s) \<Longrightarrow>
     thread_step s (s\<lparr>th_producer := PushStore v\<rparr>)"
| push_store:
    "th_producer s = PushStore v \<Longrightarrow>
     thread_step s (s\<lparr>th_producer := PushPublish v,
        th_queue := (th_queue s)\<lparr>q_values := (q_values (th_queue s))[q_write (th_queue s) := v]\<rparr>\<rparr>)"
| push_publish:
    "th_producer s = PushPublish v \<Longrightarrow>
     thread_step s (s\<lparr>th_producer := PushIdle, th_pushed := th_pushed s @ [v],
        th_queue := (th_queue s)\<lparr>q_write := Next (Capacity (th_queue s)) (q_write (th_queue s))\<rparr>\<rparr>)"
| pop_empty:
    "th_consumer s = PopIdle \<Longrightarrow> q_read (th_queue s) = q_write (th_queue s) \<Longrightarrow> thread_step s s"
| pop_check:
    "th_consumer s = PopIdle \<Longrightarrow> q_read (th_queue s) \<noteq> q_write (th_queue s) \<Longrightarrow>
     thread_step s (s\<lparr>th_consumer := PopLoad\<rparr>)"
| pop_load:
    "th_consumer s = PopLoad \<Longrightarrow>
     thread_step s (s\<lparr>th_consumer := PopRelease (q_values (th_queue s) ! q_read (th_queue s))\<rparr>)"
| pop_release:
    "th_consumer s = PopRelease v \<Longrightarrow>
     thread_step s (s\<lparr>th_consumer := PopIdle, th_popped := th_popped s @ [v],
        th_queue := (th_queue s)\<lparr>q_read := Next (Capacity (th_queue s)) (q_read (th_queue s))\<rparr>\<rparr>)"

definition producer_ok :: "'v SpscQueue \<Rightarrow> 'v ProducerPc \<Rightarrow> bool" where
  "producer_ok q pc =
     (case pc of PushIdle \<Rightarrow> True
      | PushStore v \<Rightarrow> Next (Capacity q) (q_write q) \<noteq> q_read q
      | PushPublish v \<Rightarrow> Next (Capacity q) (q_write q) \<noteq> q_read q \<and> q_values q ! q_write q = v)"

definition consumer_ok :: "'v SpscQueue \<Rightarrow> 'v ConsumerPc \<Rightarrow> bool" where
  "consumer_ok q pc =
     (case pc of PopIdle \<Rightarrow> True
      | PopLoad \<Rightarrow> q_read q \<noteq> q_write q
      | PopRelease v \<Rightarrow> q_read q \<noteq> q_write q \<and> q_values q ! q_read q = v)"

definition threads_inv :: "nat \<Rightarrow> 'v SpscThreads \<Rightarrow> bool" where
  "threads_inv cap s \<longleftrightarrow>
     Capacity (th_queue s) = cap \<and> queue_ok (th_queue s)
     \<and> producer_ok (th_queue s) (th_producer s) \<and> consumer_ok (th_queue s) (th_consumer s)
     \<and> th_pushed s = th_popped s @ queue_contents (th_queue s)"

lemma Next_neq: "2 \<le> cap \<Longrightarrow> i < cap \<Longrightarrow> Next cap i \<noteq> i"
  by (simp add: Next_cases)

lemma Next_inj: "i < cap \<Longrightarrow> j < cap \<Longrightarrow> Next cap i = Next cap j \<Longrightarrow> i = j"
  by (auto simp: Next_cases split: if_splits)

lemma threads_inv_init: "2 \<le> cap \<Longrightarrow> threads_inv cap (threads_init cap d)"
  by (simp add: threads_inv_def threads_init_def SpscQueue_init_def queue_ok_def producer_ok_def
      consumer_ok_def queue_contents_def ring_contents_def occupancy_def)

lemma threads_inv_step:
  assumes "thread_step s s'" and "threads_inv cap s"
  shows "threads_inv cap s'"
  using assms
proof (cases rule: thread_step.cases)
  case (push_store v)
  then show ?thesis using assms(2)
    by (auto simp: threads_inv_def queue_ok_def producer_ok_def consumer_ok_def queue_contents_def ring_store
        split: ConsumerPc.splits)
next
  case (push_publish v)
  then show ?thesis using assms(2)
    by (auto simp: threads_inv_def queue_ok_def producer_ok_def consumer_ok_def queue_contents_def
        ring_publish Next_less split: ConsumerPc.splits)
next
  case (pop_release v)
  then show ?thesis using assms(2)
    by (auto simp: threads_inv_def queue_ok_def producer_ok_def consumer_ok_def queue_contents_def
        ring_consume Next_less dest: Next_inj split: ProducerPc.splits)
qed (auto simp: threads_inv_def producer_ok_def consumer_ok_def)

lemma threads_inv_reachable:
  assumes "thread_step\<^sup>*\<^sup>* (threads_init cap d) s" and "2 \<le> cap"
  shows "threads_inv cap s"
  using assms(1)
  by (induction rule: rtranclp_induct) (auto intro: threads_inv_init threads_inv_step assms(2))

text \<open>
  C29: the ring buffer is correct under every interleaving of its two threads. In every state
  reachable from the empty queue, the values consumed so far followed by the values in the ring are
  exactly the values published, in order: none is lost, repeated or reordered. The ring
  never holds more than its capacity less one, and whenever the producer is about to write a slot
  while the consumer is about to read one, the slots are different.
\<close>

theorem spsc_interleaving_fifo:
  assumes "thread_step\<^sup>*\<^sup>* (threads_init cap d) s" and "2 \<le> cap"
  shows "th_pushed s = th_popped s @ queue_contents (th_queue s)
    \<and> length (queue_contents (th_queue s)) \<le> cap - 1
    \<and> (\<forall>v. th_producer s = PushStore v \<longrightarrow> th_consumer s = PopLoad \<longrightarrow>
            q_write (th_queue s) \<noteq> q_read (th_queue s))"
  using threads_inv_reachable [OF assms] occupancy_less [of "q_read (th_queue s)" cap "q_write (th_queue s)"]
  by (auto simp: threads_inv_def queue_ok_def queue_contents_def consumer_ok_def)

definition example_threads :: "nat SpscThreads" where
  "example_threads =
     \<lparr>th_queue = \<lparr>q_values = [7, 0], q_read = 0, q_write = 1\<rparr>, th_producer = PushIdle,
      th_consumer = PopLoad, th_pushed = [7], th_popped = []\<rparr>"

theorem spsc_interleaving_fifo_witness:
  "thread_step\<^sup>*\<^sup>* (threads_init 2 (0::nat)) example_threads
   \<and> th_pushed example_threads = th_popped example_threads @ queue_contents (th_queue example_threads)"
proof -
  let ?s0 = "threads_init 2 (0::nat)"
  let ?s1 = "?s0\<lparr>th_producer := PushStore 7\<rparr>"
  let ?s2 = "?s1\<lparr>th_producer := PushPublish 7,
        th_queue := (th_queue ?s1)\<lparr>q_values := (q_values (th_queue ?s1))[q_write (th_queue ?s1) := 7]\<rparr>\<rparr>"
  let ?s3 = "?s2\<lparr>th_producer := PushIdle, th_pushed := th_pushed ?s2 @ [7],
        th_queue := (th_queue ?s2)\<lparr>q_write := Next (Capacity (th_queue ?s2)) (q_write (th_queue ?s2))\<rparr>\<rparr>"
  note defs = threads_init_def SpscQueue_init_def Next_def numeral_2_eq_2
  have "thread_step ?s0 ?s1" by (rule push_check) (simp_all add: defs)
  moreover have "thread_step ?s1 ?s2" by (rule push_store) simp
  moreover have "thread_step ?s2 ?s3" by (rule push_publish) simp
  moreover have "thread_step ?s3 (?s3\<lparr>th_consumer := PopLoad\<rparr>)"
    by (rule pop_check) (simp_all add: defs)
  moreover have "?s3\<lparr>th_consumer := PopLoad\<rparr> = example_threads"
    by (simp add: defs example_threads_def)
  ultimately have run: "thread_step\<^sup>*\<^sup>* ?s0 example_threads"
    by (metis (no_types, lifting) rtranclp.simps)
  from spsc_interleaving_fifo [OF run] run show ?thesis by simp
qed

end
