(* ===== verification/Cycle_Timing.thy ===== *)
theory Cycle_Timing
  imports Ecsc_Prelude
begin

text \<open>
  The clock arithmetic of the cyclic thread in \<^verbatim>\<open>main.cpp\<close> and the lock-free counters it updates. A
  \<^verbatim>\<open>timespec\<close> is a pair of integers; \<^verbatim>\<open>/\<close> and \<^verbatim>\<open>%\<close> on signed operands truncate towards zero and
  are \<open>sdiv\<close> and \<open>smod\<close>. A compare-exchange loop takes the list of values its failed attempts
  observed, so that every interference by another thread is an argument.
\<close>

section \<open>Timespec arithmetic\<close>

record timespec =
  tv_sec :: int
  tv_nsec :: int

text \<open>The two normalising loops.\<close>

function carry_seconds :: "timespec \<Rightarrow> timespec" where
  "carry_seconds t =
     (if tv_nsec t \<ge> 1000000000
      then carry_seconds (t\<lparr>tv_nsec := tv_nsec t - 1000000000, tv_sec := tv_sec t + 1\<rparr>)
      else t)"
  by pat_completeness auto
termination by (relation "measure (\<lambda>t. nat (tv_nsec t))") auto

function borrow_seconds :: "timespec \<Rightarrow> timespec" where
  "borrow_seconds t =
     (if tv_nsec t < 0
      then borrow_seconds (t\<lparr>tv_nsec := tv_nsec t + 1000000000, tv_sec := tv_sec t - 1\<rparr>)
      else t)"
  by pat_completeness auto
termination by (relation "measure (\<lambda>t. nat (- tv_nsec t))") auto

declare carry_seconds.simps [simp del] borrow_seconds.simps [simp del]

definition AddToTimespec :: "timespec \<Rightarrow> int \<Rightarrow> timespec" where
  "AddToTimespec t microseconds =
     carry_seconds (t\<lparr>tv_sec := tv_sec t + microseconds sdiv 1000000,
                      tv_nsec := tv_nsec t + (microseconds smod 1000000) * 1000\<rparr>)"

definition AddNanoseconds :: "timespec \<Rightarrow> int \<Rightarrow> timespec" where
  "AddNanoseconds t nanoseconds =
     borrow_seconds (carry_seconds
       (t\<lparr>tv_sec := tv_sec t + nanoseconds sdiv 1000000000,
          tv_nsec := tv_nsec t + nanoseconds smod 1000000000\<rparr>))"

definition TimespecLess :: "timespec \<Rightarrow> timespec \<Rightarrow> bool" where
  "TimespecLess left right \<longleftrightarrow>
     tv_sec left < tv_sec right \<or> tv_sec left = tv_sec right \<and> tv_nsec left < tv_nsec right"

definition DifferenceMicros :: "timespec \<Rightarrow> timespec \<Rightarrow> u32" where
  "DifferenceMicros later earlier =
     (let seconds = tv_sec later - tv_sec earlier;
          nanoseconds = tv_nsec later - tv_nsec earlier;
          (seconds, nanoseconds) = (if nanoseconds < 0 then (seconds - 1, nanoseconds + 1000000000)
                                    else (seconds, nanoseconds))
      in if seconds < 0 then 0
         else let result = seconds * 1000000 + nanoseconds sdiv 1000
              in word_of_int (min result (2 ^ 32 - 1)))"

section \<open>Counters shared between threads\<close>

text \<open>
  The value stored by the loop, or the saturated value it found. Each element of \<open>observed\<close> is the
  content a failed compare-exchange reloaded.
\<close>

fun AtomicSaturatingIncrement :: "'w::len word \<Rightarrow> 'w word list \<Rightarrow> 'w word \<Rightarrow> 'w word" where
  "AtomicSaturatingIncrement amount observed current =
     (if current = - 1 then current
      else let available = - 1 - current;
               next = (if amount > available then - 1 else current + amount)
           in case observed of [] \<Rightarrow> next
              | c # rest \<Rightarrow> AtomicSaturatingIncrement amount rest c)"

declare AtomicSaturatingIncrement.simps [simp del]

fun AtomicMaximum :: "u32 \<Rightarrow> u32 list \<Rightarrow> u32 \<Rightarrow> u32" where
  "AtomicMaximum v observed current =
     (if current < v then (case observed of [] \<Rightarrow> v | c # rest \<Rightarrow> AtomicMaximum v rest c)
      else current)"

declare AtomicMaximum.simps [simp del]

text \<open>The value in memory at the moment of the last access.\<close>

definition last_observed :: "'a list \<Rightarrow> 'a \<Rightarrow> 'a" where
  "last_observed observed current = (if observed = [] then current else last observed)"

section \<open>The next deadline\<close>

text \<open>
  The end of a cycle: the deadline advances by one corrected period; a thread that is already late
  counts the missed periods and skips them.
\<close>

definition advance_deadline ::
  "int \<Rightarrow> int \<Rightarrow> timespec \<Rightarrow> timespec \<Rightarrow> u64 \<Rightarrow> timespec \<times> u64" where
  "advance_deadline cyclePeriodUs correctionNs after next cycleOverruns =
     (let next = AddNanoseconds next (cyclePeriodUs * 1000 + correctionNs)
      in if TimespecLess next after then
           let lateUs = uint (DifferenceMicros after next);
               missed = lateUs div cyclePeriodUs + 1;
               cycleOverruns = AtomicSaturatingIncrement (word_of_int missed) [] cycleOverruns
           in (AddToTimespec next (min missed ((2 ^ 63 - 1) div cyclePeriodUs) * cyclePeriodUs), cycleOverruns)
         else (next, cycleOverruns))"

section \<open>Meaning of a timespec\<close>

definition total_ns :: "timespec \<Rightarrow> int" where
  "total_ns t = tv_sec t * 1000000000 + tv_nsec t"

definition normalized :: "timespec \<Rightarrow> bool" where
  "normalized t \<longleftrightarrow> 0 \<le> tv_nsec t \<and> tv_nsec t < 1000000000"

lemma total_carry [simp]: "total_ns (carry_seconds t) = total_ns t"
  by (induction t rule: carry_seconds.induct) (subst carry_seconds.simps, auto simp: total_ns_def)

lemma total_borrow [simp]: "total_ns (borrow_seconds t) = total_ns t"
  by (induction t rule: borrow_seconds.induct) (subst borrow_seconds.simps, auto simp: total_ns_def)

lemma carry_less: "tv_nsec (carry_seconds t) < 1000000000"
  by (induction t rule: carry_seconds.induct) (subst carry_seconds.simps, simp)

lemma carry_nonneg: "0 \<le> tv_nsec t \<Longrightarrow> 0 \<le> tv_nsec (carry_seconds t)"
  by (induction t rule: carry_seconds.induct) (subst carry_seconds.simps, simp)

lemma borrow_normalized: "tv_nsec t < 1000000000 \<Longrightarrow> normalized (borrow_seconds t)"
  by (induction t rule: borrow_seconds.induct) (subst borrow_seconds.simps, simp add: normalized_def)

lemma AddToTimespec_ok:
  assumes "0 \<le> tv_nsec t" and "0 \<le> us"
  shows "total_ns (AddToTimespec t us) = total_ns t + us * 1000" and "normalized (AddToTimespec t us)"
proof -
  have "us sdiv 1000000 * 1000000 + us smod 1000000 = us" by (simp add: smod_sdiv_mult_eq add.commute)
  then show "total_ns (AddToTimespec t us) = total_ns t + us * 1000"
    by (simp add: AddToTimespec_def total_ns_def [of "_\<lparr>tv_nsec := _\<rparr>"]) (simp add: total_ns_def)
  show "normalized (AddToTimespec t us)"
    using assms by (simp add: AddToTimespec_def normalized_def carry_less carry_nonneg smod_pos)
qed

lemma AddNanoseconds_ok:
  shows "total_ns (AddNanoseconds t ns) = total_ns t + ns" and "normalized (AddNanoseconds t ns)"
proof -
  have "ns sdiv 1000000000 * 1000000000 + ns smod 1000000000 = ns"
    by (simp add: smod_sdiv_mult_eq add.commute)
  then show "total_ns (AddNanoseconds t ns) = total_ns t + ns"
    by (simp add: AddNanoseconds_def total_ns_def [of "_\<lparr>tv_nsec := _\<rparr>"]) (simp add: total_ns_def)
  show "normalized (AddNanoseconds t ns)"
    by (simp add: AddNanoseconds_def borrow_normalized carry_less)
qed

lemma TimespecLess_iff: "normalized a \<Longrightarrow> normalized b \<Longrightarrow> TimespecLess a b \<longleftrightarrow> total_ns a < total_ns b"
  by (auto simp: TimespecLess_def total_ns_def normalized_def)

lemma DifferenceMicros_eq:
  assumes "normalized later" and "normalized earlier"
  shows "uint (DifferenceMicros later earlier) =
           min (max 0 ((total_ns later - total_ns earlier) div 1000)) (2 ^ 32 - 1)"
proof -
  define borrow where "borrow \<longleftrightarrow> tv_nsec later < tv_nsec earlier"
  define sec where "sec = tv_sec later - tv_sec earlier - (if borrow then 1 else 0)"
  define ns where "ns = tv_nsec later - tv_nsec earlier + (if borrow then 1000000000 else 0)"
  have ns: "0 \<le> ns" "ns < 1000000000"
    using assms by (auto simp: ns_def borrow_def normalized_def)
  have diff: "total_ns later - total_ns earlier = sec * 1000000000 + ns"
    by (simp add: total_ns_def sec_def ns_def algebra_simps)
  have model: "DifferenceMicros later earlier =
      (if sec < 0 then 0 else word_of_int (min (sec * 1000000 + ns sdiv 1000) (2 ^ 32 - 1)))"
    by (simp add: DifferenceMicros_def Let_def sec_def ns_def borrow_def)
  show ?thesis
  proof (cases "sec < 0")
    case True
    then have "sec * 1000000000 + ns < 0" using ns by linarith
    then have "(sec * 1000000000 + ns) div 1000 < 0" by simp
    with True show ?thesis by (simp add: model diff)
  next
    case False
    have "sec * 1000000000 + ns = ns + (sec * 1000000) * 1000" by simp
    then have "(sec * 1000000000 + ns) div 1000 = sec * 1000000 + ns div 1000"
      by (metis div_mult_self1 add.commute zero_neq_numeral)
    moreover have "0 \<le> sec * 1000000 + ns div 1000" using False ns by simp
    ultimately show ?thesis
      using False ns by (simp add: model diff sdiv_pos uint_word_of_int_eq take_bit_int_eq_self_iff min_def)
  qed
qed

section \<open>Properties\<close>



lemma saturating_add:
  "unat (AtomicSaturatingIncrement amount [] current) =
     min (unat current + unat amount) (2 ^ LENGTH('w) - 1)"
  for amount current :: "'w::len word"
proof (cases "current = - 1")
  case True
  then show ?thesis
    by (simp add: AtomicSaturatingIncrement.simps unsigned_minus_1_eq_mask mask_eq_exp_minus_1)
next
  case False
  have top: "unat (- 1 :: 'w word) = 2 ^ LENGTH('w) - 1"
    by (simp add: unsigned_minus_1_eq_mask mask_eq_exp_minus_1)
  have room: "unat (- 1 - current) = 2 ^ LENGTH('w) - 1 - unat current"
    by (simp add: unat_sub top)
  show ?thesis
  proof (cases "amount > - 1 - current")
    case True
    then have "2 ^ LENGTH('w) - 1 - unat current < unat amount" by (simp add: word_less_nat_alt room)
    with False True show ?thesis by (simp add: AtomicSaturatingIncrement.simps top)
  next
    case False': False
    then have "unat amount \<le> 2 ^ LENGTH('w) - 1 - unat current" by (simp add: word_less_nat_alt room)
    moreover have "unat current < 2 ^ LENGTH('w)" by (rule unsigned_less)
    ultimately have "unat current + unat amount < 2 ^ LENGTH('w)" by linarith
    with False False' show ?thesis
      by (simp add: AtomicSaturatingIncrement.simps unat_add_lem [THEN iffD1])
  qed
qed

lemma increment_interference:
  assumes "- 1 \<notin> set observed" and "current \<noteq> - 1"
  shows "AtomicSaturatingIncrement amount observed current =
     AtomicSaturatingIncrement amount [] (last_observed observed current)"
  using assms
proof (induction observed arbitrary: current)
  case (Cons c rest)
  then have "AtomicSaturatingIncrement amount (c # rest) current = AtomicSaturatingIncrement amount rest c"
    by (subst AtomicSaturatingIncrement.simps) simp
  with Cons.IH [of c] Cons.prems show ?case by (auto simp: last_observed_def)
qed (simp add: last_observed_def)

lemma AtomicMaximum_bound:
  "v \<le> AtomicMaximum v observed current
   \<and> AtomicMaximum v observed current \<in> insert v (set (current # observed))"
proof (induction observed arbitrary: current)
  case Nil
  show ?case by (simp add: AtomicMaximum.simps not_less)
next
  case (Cons c rest)
  have "AtomicMaximum v (c # rest) current = (if current < v then AtomicMaximum v rest c else current)"
    by (subst AtomicMaximum.simps) simp
  with Cons [of c] show ?case by auto
qed

lemma missed_periods:
  fixes late period :: int
  assumes "0 < late" and "late < 4294967296000" and "5000 \<le> period" and "period \<le> 1000000"
  defines "missed \<equiv> late div 1000 div period + 1"
  shows "0 < missed" and "missed \<le> 4294967296"
    and "missed \<le> 9223372036854775807 div period"
    and "late < missed * period * 1000" and "missed * period * 1000 \<le> late + period * 1000"
proof -
  define q where "q = late div 1000"
  define k where "k = q div period"
  have q: "0 \<le> q" "q < 4294967296" "q * 1000 \<le> late" "late < q * 1000 + 1000"
    using assms(1,2) unfolding q_def by linarith+
  have k: "0 \<le> k" using q(1) assms(3) by (simp add: k_def pos_imp_zdiv_nonneg_iff)
  have missed: "missed = k + 1" by (simp add: missed_def k_def q_def)
  have "q = k * period + q mod period" by (simp add: k_def)
  moreover have "0 \<le> q mod period" "q mod period < period" using assms(3) by simp_all
  ultimately have kp: "k * period \<le> q" "q < k * period + period" by linarith+
  have grid: "late < (x + period) * 1000" "(x + period) * 1000 \<le> late + period * 1000"
    if "x \<le> q" "q < x + period" for x
    using that q(3,4) by (simp_all add: distrib_right)
  have "k \<le> k * period" using mult_left_mono [of 1 period k] k assms(3) by simp
  with kp q have bound: "k < 4294967296" by linarith
  have mp: "missed * period = k * period + period" by (simp add: missed distrib_right)
  show "0 < missed" "missed \<le> 4294967296" using k bound by (simp_all add: missed)
  have "missed * period \<le> 9223372036854775807" unfolding mp using kp q assms(4) by linarith
  then show "missed \<le> 9223372036854775807 div period"
    using zdiv_mono1 [of "missed * period" 9223372036854775807 period] assms(3) by simp
  show "late < missed * period * 1000" "missed * period * 1000 \<le> late + period * 1000"
    unfolding mp using grid [OF kp] .
qed

text \<open>
  C32: the cyclic thread never falls behind for good. At the end of a cycle with a period of 5 ms to
  1 s and a correction smaller than the period, a thread that is late by less than the range of
  the difference gets a deadline that is not in the past; the deadline stays on the grid of the
  corrected period, at most one period after the present when periods were skipped; and the overrun
  counter grows, saturating, by the number of periods skipped.
\<close>

theorem deadline_catches_up:
  assumes "normalized next" and "normalized after"
    and "5000 \<le> period" and "period \<le> 1000000" and "\<bar>correction\<bar> < period * 1000"
    and "total_ns after - total_ns next < 2 ^ 32 * 1000"
    and "advance_deadline period correction after next overruns = (next', overruns')"
  shows "\<exists>missed \<ge> 0.
      total_ns next' = total_ns next + period * 1000 + correction + missed * period * 1000
      \<and> normalized next'
      \<and> total_ns after \<le> total_ns next'
      \<and> (missed > 0 \<longrightarrow> total_ns next' \<le> total_ns after + period * 1000)
      \<and> uint overruns' = min (uint overruns + missed) (2 ^ 64 - 1)"
proof -
  define n1 where "n1 = AddNanoseconds next (period * 1000 + correction)"
  have n1: "total_ns n1 = total_ns next + (period * 1000 + correction)" "normalized n1"
    by (simp_all add: n1_def AddNanoseconds_ok)
  note step = assms(7) [unfolded advance_deadline_def, folded n1_def, unfolded Let_def]
  show ?thesis
  proof (cases "TimespecLess n1 after")
    case False
    with step have "next' = n1" "overruns' = overruns" by simp_all
    moreover have "uint overruns \<le> 2 ^ 64 - 1" using unsigned_less [of overruns, where 'a = int] by simp
    ultimately show ?thesis
      using False n1 TimespecLess_iff [OF n1(2) assms(2)] by (intro exI [of _ 0]) simp
  next
    case True
    define late where "late = total_ns after - total_ns n1"
    define missed where "missed = late div 1000 div period + 1"
    have late: "0 < late" "late < 4294967296000"
      using True TimespecLess_iff [OF n1(2) assms(2)] n1(1) assms(3,5,6) by (auto simp: late_def)
    then have micros: "uint (DifferenceMicros after n1) = late div 1000"
      by (simp add: DifferenceMicros_eq [OF assms(2) n1(2)] late_def [symmetric]
          pos_imp_zdiv_nonneg_iff min_def max_def)
    note m = missed_periods [OF late assms(3,4), folded missed_def]
    then have cap: "min missed ((2 ^ 63 - 1) div period) = missed" by simp
    from step True micros have next': "next' = AddToTimespec n1 (missed * period)"
      "overruns' = AtomicSaturatingIncrement (word_of_int missed) [] overruns"
      using cap by (simp_all add: missed_def)
    have "total_ns next' = total_ns n1 + missed * period * 1000" "normalized next'"
      using n1(2) m(1) assms(3) by (simp_all add: next' AddToTimespec_ok normalized_def [of n1])
    moreover have "uint overruns' = min (uint overruns + missed) (2 ^ 64 - 1)"
    proof -
      have amount: "uint (word_of_int missed :: u64) = missed"
        using m by (simp add: uint_word_of_int_eq take_bit_int_eq_self_iff)
      have "unat overruns' = min (unat overruns + unat (word_of_int missed :: u64)) (2 ^ 64 - 1)"
        by (simp add: next' saturating_add)
      then have "int (unat overruns') = min (int (unat overruns) + int (unat (word_of_int missed :: u64))) (2 ^ 64 - 1)"
        by (simp only: of_nat_min of_nat_add) simp
      then show ?thesis unfolding of_nat_unat amount .
    qed
    ultimately show ?thesis
      using n1(1) m(1,4,5) by (intro exI [of _ missed]) (simp add: late_def)
  qed
qed

theorem deadline_catches_up_witness:
  "advance_deadline 5000 250 \<lparr>tv_sec = 10, tv_nsec = 20000000\<rparr> \<lparr>tv_sec = 10, tv_nsec = 0\<rparr> 41
     = (\<lparr>tv_sec = 10, tv_nsec = 20000250\<rparr>, 44)
   \<and> total_ns \<lparr>tv_sec = 10, tv_nsec = 20000000\<rparr> \<le> total_ns \<lparr>tv_sec = 10, tv_nsec = 20000250\<rparr>"
proof -
  let ?next = "\<lparr>tv_sec = 10, tv_nsec = 0\<rparr>" and ?after = "\<lparr>tv_sec = 10, tv_nsec = 20000000\<rparr>"
  have run: "advance_deadline 5000 250 ?after ?next 41 = (\<lparr>tv_sec = 10, tv_nsec = 20000250\<rparr>, 44)"
    by code_simp
  have "normalized ?next" "normalized ?after" by (simp_all add: normalized_def)
  moreover have "total_ns ?after - total_ns ?next < 2 ^ 32 * 1000" by (simp add: total_ns_def)
  ultimately have "\<exists>missed \<ge> 0. total_ns \<lparr>tv_sec = 10, tv_nsec = 20000250\<rparr> =
        total_ns ?next + 5000 * 1000 + 250 + missed * 5000 * 1000
      \<and> normalized \<lparr>tv_sec = 10, tv_nsec = 20000250\<rparr>
      \<and> total_ns ?after \<le> total_ns \<lparr>tv_sec = 10, tv_nsec = 20000250\<rparr>
      \<and> (missed > 0 \<longrightarrow> total_ns \<lparr>tv_sec = 10, tv_nsec = 20000250\<rparr> \<le> total_ns ?after + 5000 * 1000)
      \<and> uint (44 :: u64) = min (uint (41 :: u64) + missed) (2 ^ 64 - 1)"
    by (intro deadline_catches_up [OF _ _ _ _ _ _ run]) simp_all
  with run show ?thesis by blast
qed

end
