(* ===== verification/Dc_Sync.thy ===== *)
theory Dc_Sync
  imports Ecsc_Prelude
begin

text \<open>
  The distributed-clock controller of \<^verbatim>\<open>dc_sync.hpp\<close>. Signed 64-bit values are integers, with
  the truncating division of C++ as \<open>sdiv\<close> and \<open>smod\<close>; the bounds proved here show that no
  intermediate value leaves the 64-bit range for the cycle times the configuration admits. The
  32-bit counters are words with the saturating increment of the source.
\<close>

section \<open>Definitions\<close>

definition int64_max :: int where
  "int64_max = 9223372036854775807"

record DistributedClockAdjustment =
  adj_valid :: bool
  adj_synchronized :: bool
  adj_fault :: bool
  adj_phaseErrorNs :: int
  adj_correctionNs :: int

record DistributedClockController =
  dc_cycleNanoseconds :: int
  dc_integral :: int
  dc_observations :: u32
  dc_stableCycles :: u32
  dc_badCyclesAfterLock :: u32
  dc_invalidAdvanceCycles :: u32
  dc_previousReference :: int
  dc_synchronized :: bool

definition dc_init :: "int \<Rightarrow> DistributedClockController" where
  "dc_init cycleNanoseconds =
     \<lparr>dc_cycleNanoseconds = cycleNanoseconds, dc_integral = 0, dc_observations = 0,
      dc_stableCycles = 0, dc_badCyclesAfterLock = 0, dc_invalidAdvanceCycles = 0,
      dc_previousReference = 0, dc_synchronized = False\<rparr>"

definition dc_Reset :: "DistributedClockController \<Rightarrow> DistributedClockController" where
  "dc_Reset d = d\<lparr>dc_integral := 0, dc_observations := 0, dc_stableCycles := 0,
     dc_badCyclesAfterLock := 0, dc_invalidAdvanceCycles := 0, dc_previousReference := 0,
     dc_synchronized := False\<rparr>"

definition count_up :: "u32 \<Rightarrow> u32" where
  "count_up n = (if n \<noteq> - 1 then n + 1 else n)"

text \<open>Whether the reference advanced by one to four whole cycles, within a fifth of a cycle.\<close>

definition reference_advanced :: "int \<Rightarrow> int \<Rightarrow> int \<Rightarrow> bool" where
  "reference_advanced cycle previousReference reference =
     (if previousReference \<noteq> 0 then
        let advancement = (if reference > previousReference then reference - previousReference else 0);
            roundedCycles =
              (if advancement > 0 then
                 let roundedCycles = advancement sdiv cycle;
                     remainder = advancement smod cycle
                 in if remainder \<ge> cycle sdiv 2 \<and> roundedCycles \<noteq> int64_max
                    then roundedCycles + 1 else roundedCycles
               else 0);
            advancementTolerance = max 1000 (cycle sdiv 5)
        in if roundedCycles \<ge> 1 \<and> roundedCycles \<le> 4 then
             if roundedCycles > int64_max sdiv cycle then False
             else \<bar>advancement - roundedCycles * cycle\<bar> \<le> advancementTolerance
           else False
      else False)"

definition clock_phase :: "int \<Rightarrow> int \<Rightarrow> int" where
  "clock_phase cycle reference =
     (let phase = reference smod cycle
      in if phase > cycle sdiv 2 then phase - cycle else phase)"

definition integral_limit :: "int \<Rightarrow> int" where
  "integral_limit cycle = (if cycle > int64_max sdiv 100 then int64_max else cycle * 100)"

definition clock_integral :: "int \<Rightarrow> bool \<Rightarrow> int \<Rightarrow> int \<Rightarrow> int" where
  "clock_integral cycle referenceAdvanced phase integral =
     (if referenceAdvanced \<and> phase > 0 then min (integral + 1) (integral_limit cycle)
      else if referenceAdvanced \<and> phase < 0 then max (integral - 1) (- integral_limit cycle)
      else integral)"

definition clock_correction :: "int \<Rightarrow> bool \<Rightarrow> int \<Rightarrow> int \<Rightarrow> int" where
  "clock_correction cycle referenceAdvanced phase integral =
     (let maximumCorrection = max 1 (cycle sdiv 10)
      in if referenceAdvanced
         then min (max (- (phase sdiv 100) - (integral sdiv 1000)) (- maximumCorrection))
                maximumCorrection
         else 0)"

definition within_tolerance :: "int \<Rightarrow> int \<Rightarrow> bool" where
  "within_tolerance cycle phase \<longleftrightarrow> \<bar>phase\<bar> \<le> max 1000 (cycle sdiv 20)"

definition dc_Update ::
    "DistributedClockController \<Rightarrow> int \<Rightarrow> DistributedClockAdjustment \<times> DistributedClockController" where
  "dc_Update d reference =
     (let cycle = dc_cycleNanoseconds d;
          observations = count_up (dc_observations d)
      in if cycle \<le> 0 \<or> reference \<le> 0
         then (\<lparr>adj_valid = False, adj_synchronized = False, adj_fault = (observations \<ge> 500),
                adj_phaseErrorNs = 0, adj_correctionNs = 0\<rparr>,
               d\<lparr>dc_observations := observations\<rparr>)
         else let referenceAdvanced = reference_advanced cycle (dc_previousReference d) reference;
                  stableCycles = (if \<not> referenceAdvanced then 0 else dc_stableCycles d);
                  invalidAdvanceCycles =
                    (if \<not> referenceAdvanced then count_up (dc_invalidAdvanceCycles d) else 0);
                  synchronized =
                    (if \<not> referenceAdvanced \<and> invalidAdvanceCycles \<ge> 3 then False
                     else dc_synchronized d);
                  phase = clock_phase cycle reference;
                  integral = clock_integral cycle referenceAdvanced phase (dc_integral d);
                  correction = clock_correction cycle referenceAdvanced phase integral;
                  stableCycles =
                    (if referenceAdvanced \<and> within_tolerance cycle phase
                     then count_up stableCycles else 0);
                  synchronized = (if stableCycles \<ge> 20 then True else synchronized);
                  badCyclesAfterLock =
                    (if synchronized \<and> \<bar>phase\<bar> > cycle sdiv 4
                     then count_up (dc_badCyclesAfterLock d) else 0)
              in (\<lparr>adj_valid = True, adj_synchronized = synchronized,
                   adj_fault = (invalidAdvanceCycles \<ge> 3 \<or> badCyclesAfterLock \<ge> 10
                     \<or> \<not> synchronized \<and> observations \<ge> 500),
                   adj_phaseErrorNs = phase, adj_correctionNs = correction\<rparr>,
                  d\<lparr>dc_integral := integral, dc_observations := observations,
                    dc_stableCycles := stableCycles, dc_badCyclesAfterLock := badCyclesAfterLock,
                    dc_invalidAdvanceCycles := invalidAdvanceCycles,
                    dc_previousReference := reference, dc_synchronized := synchronized\<rparr>))"

definition dc_run :: "int list \<Rightarrow> DistributedClockController \<Rightarrow> DistributedClockController" where
  "dc_run references d = run_ops (\<lambda>reference d. dc_Update d reference) references d"

section \<open>Phase, integral and correction\<close>

lemma abs_sdiv_le: "0 < b \<Longrightarrow> \<bar>a sdiv b\<bar> \<le> \<bar>a\<bar> div b" for a b :: int
  by (simp add: signed_divide_int_def abs_mult sgn_if pos_imp_zdiv_nonneg_iff)

lemma clock_phase_bounds:
  assumes "0 < cycle" "0 < reference"
  shows "- (cycle div 2) \<le> clock_phase cycle reference" "clock_phase cycle reference \<le> cycle div 2"
    "cycle dvd clock_phase cycle reference - reference"
proof -
  have *: "0 \<le> reference mod cycle" "reference mod cycle < cycle" using assms by simp_all
  show "- (cycle div 2) \<le> clock_phase cycle reference" "clock_phase cycle reference \<le> cycle div 2"
    using assms * by (auto simp: clock_phase_def Let_def smod_pos sdiv_pos)
  have "cycle dvd reference mod cycle - reference"
    using dvd_minus_mod [of cycle reference] by (simp add: dvd_diff_commute)
  then show "cycle dvd clock_phase cycle reference - reference"
    using assms dvd_diff [of cycle "reference mod cycle - reference" cycle]
    by (auto simp: clock_phase_def Let_def smod_pos sdiv_pos algebra_simps)
qed

lemma clock_integral_bounds:
  assumes "0 < cycle" "cycle \<le> int64_max sdiv 100" "\<bar>integral\<bar> \<le> cycle * 100"
  shows "\<bar>clock_integral cycle adv phase integral\<bar> \<le> cycle * 100"
  using assms by (auto simp: clock_integral_def integral_limit_def min_def max_def)

lemma clock_correction_bounds:
  "\<bar>clock_correction cycle adv phase integral\<bar> \<le> max 1 (cycle sdiv 10)"
  by (auto simp: clock_correction_def Let_def)

section \<open>Invariant\<close>

definition dc_inv :: "DistributedClockController \<Rightarrow> bool" where
  "dc_inv d \<longleftrightarrow> \<bar>dc_integral d\<bar> \<le> dc_cycleNanoseconds d * 100
     \<and> 0 \<le> dc_previousReference d \<and> dc_previousReference d \<le> int64_max"

lemma dc_Update_cycle [simp]: "dc_cycleNanoseconds (snd (dc_Update d r)) = dc_cycleNanoseconds d"
  by (simp add: dc_Update_def Let_def)

text \<open>The cycle times and reference times for which the bounds are claimed.\<close>

definition dc_cycle_ok :: "int \<Rightarrow> bool" where
  "dc_cycle_ok cycle \<longleftrightarrow> 0 < cycle \<and> cycle \<le> int64_max sdiv 100"

lemma dc_Update_inv:
  assumes "dc_inv d" "dc_cycle_ok (dc_cycleNanoseconds d)" "r \<le> int64_max"
  shows "dc_inv (snd (dc_Update d r))"
  using assms clock_integral_bounds [of "dc_cycleNanoseconds d" "dc_integral d"]
  by (auto simp: dc_inv_def dc_cycle_ok_def dc_Update_def Let_def)

section \<open>Lock acquisition\<close>

definition stable_observation :: "int \<Rightarrow> int \<Rightarrow> int \<Rightarrow> bool" where
  "stable_observation cycle previous reference \<longleftrightarrow>
     reference_advanced cycle previous reference
     \<and> within_tolerance cycle (clock_phase cycle reference)"

definition valid_references :: "int list \<Rightarrow> int list" where
  "valid_references rs = filter (\<lambda>r. r > 0) rs"

definition stable_at :: "int \<Rightarrow> int list \<Rightarrow> nat \<Rightarrow> bool" where
  "stable_at cycle rs i \<longleftrightarrow> stable_observation cycle (if i = 0 then 0 else rs ! (i - 1)) (rs ! i)"

lemma stable_at_append: "i < length vs \<Longrightarrow> stable_at cycle (vs @ ws) i = stable_at cycle vs i"
  by (auto simp: stable_at_def nth_append)

lemma valid_references_append:
  "valid_references (rs @ [r]) = valid_references rs @ (if 0 < r then [r] else [])"
  by (simp add: valid_references_def)

lemma dc_run_simps [simp]:
  "dc_run [] d = d" "dc_run (rs @ [r]) d = snd (dc_Update (dc_run rs d) r)"
  by (simp_all add: dc_run_def run_ops_def)

lemma dc_run_cycle [simp]: "dc_cycleNanoseconds (dc_run rs d) = dc_cycleNanoseconds d"
  by (induction rs rule: rev_induct) simp_all

lemma dc_Update_valid:
  assumes "0 < dc_cycleNanoseconds d" "0 < r"
  shows "dc_previousReference (snd (dc_Update d r)) = r"
    and "dc_stableCycles (snd (dc_Update d r)) =
      (if stable_observation (dc_cycleNanoseconds d) (dc_previousReference d) r
       then count_up (dc_stableCycles d) else 0)"
    and "dc_synchronized (snd (dc_Update d r)) \<Longrightarrow>
      dc_synchronized d \<or> dc_stableCycles (snd (dc_Update d r)) \<ge> 20"
  using assms by (auto simp: dc_Update_def Let_def stable_observation_def split: if_splits)

lemma dc_Update_invalid:
  assumes "r \<le> 0"
  shows "dc_previousReference (snd (dc_Update d r)) = dc_previousReference d"
    and "dc_stableCycles (snd (dc_Update d r)) = dc_stableCycles d"
    and "dc_synchronized (snd (dc_Update d r)) = dc_synchronized d"
  using assms by (auto simp: dc_Update_def Let_def)

lemma unat_count_up_eq: "unat (count_up n) = min (unat n + 1) (2 ^ 32 - 1)"
proof (cases "n = - 1")
  case True
  then show ?thesis by (simp add: count_up_def unsigned_minus_1_eq_mask mask_eq_exp_minus_1)
next
  case False
  have "unat n \<noteq> unat (- 1 :: u32)" using False by (simp only: word_unat_eq_iff [symmetric] not_False_eq_True)
  moreover have "unat n < 2 ^ 32" using unsigned_less [of n, where 'a = nat] by simp
  ultimately have "unat n < 2 ^ 32 - 1" by (simp add: unsigned_minus_1_eq_mask mask_eq_exp_minus_1)
  then have "unat (n + 1) = unat n + 1" by (subst unat_add_lem [THEN iffD1]) simp_all
  with False \<open>unat n < 2 ^ 32 - 1\<close> show ?thesis by (simp add: count_up_def)
qed

lemma unat_count_up: "unat (count_up n) \<le> unat n + 1"
  by (simp add: unat_count_up_eq)

text \<open>The stable counter counts a suffix of the valid references seen so far.\<close>

lemma stable_counter_suffix:
  assumes "0 < cycle"
  defines "d rs \<equiv> dc_run rs (dc_init cycle)"
  shows "let vs = valid_references rs in
    dc_previousReference (d rs) = (if vs = [] then 0 else last vs)
    \<and> unat (dc_stableCycles (d rs)) \<le> length vs
    \<and> (\<forall>i. length vs - unat (dc_stableCycles (d rs)) \<le> i \<and> i < length vs \<longrightarrow> stable_at cycle vs i)"
proof (induction rs rule: rev_induct)
  case Nil
  show ?case by (simp add: d_def dc_init_def valid_references_def)
next
  case (snoc r rs)
  define vs where "vs = valid_references rs"
  define s where "s = dc_stableCycles (d rs)"
  have IH: "dc_previousReference (d rs) = (if vs = [] then 0 else last vs)" "unat s \<le> length vs"
    "\<And>i. length vs - unat s \<le> i \<Longrightarrow> i < length vs \<Longrightarrow> stable_at cycle vs i"
    using snoc by (auto simp: vs_def s_def Let_def)
  have cyc: "dc_cycleNanoseconds (d rs) = cycle" by (simp add: d_def dc_init_def)
  show ?case
  proof (cases "0 < r")
    case False
    then show ?thesis using snoc dc_Update_invalid [of r "d rs"]
      by (simp add: d_def valid_references_def)
  next
    case True
    note U = dc_Update_valid [of "d rs" r, unfolded cyc, OF assms(1) True]
    have app: "valid_references (rs @ [r]) = vs @ [r]" using True by (simp add: vs_def valid_references_def)
    have prev: "dc_previousReference (d rs) = (if length vs = 0 then 0 else vs ! (length vs - 1))"
      using IH(1) by (simp add: last_conv_nth)
    have new: "stable_at cycle (vs @ [r]) (length vs) =
        stable_observation cycle (dc_previousReference (d rs)) r"
      by (auto simp: stable_at_def nth_append prev)
    show ?thesis
    proof (cases "stable_observation cycle (dc_previousReference (d rs)) r")
      case False
      then show ?thesis unfolding app Let_def using U by (auto simp: d_def)
    next
      case st: True
      have cnt: "dc_stableCycles (d (rs @ [r])) = count_up s" using U(2) st by (simp add: d_def s_def)
      have "stable_at cycle (vs @ [r]) i"
        if "length (vs @ [r]) - unat (count_up s) \<le> i" "i < length (vs @ [r])" for i
      proof (cases "i < length vs")
        case True
        then have "length vs - unat s \<le> i" using that(1) unat_count_up [of s] by simp
        then show ?thesis using True IH(3) stable_at_append by simp
      next
        case False
        then have "i = length vs" using that(2) by simp
        then show ?thesis using new st by simp
      qed
      moreover have "unat (count_up s) \<le> length (vs @ [r])" using unat_count_up [of s] IH(2) by simp
      moreover have "dc_previousReference (d (rs @ [r])) = r" using U(1) by (simp add: d_def)
      ultimately show ?thesis unfolding app Let_def cnt by auto
    qed
  qed
qed

lemma synchronized_window:
  assumes "0 < cycle" "dc_synchronized (dc_run rs (dc_init cycle))"
  shows "\<exists>k. k + 20 \<le> length (valid_references rs)
    \<and> (\<forall>i. k \<le> i \<and> i < k + 20 \<longrightarrow> stable_at cycle (valid_references rs) i)"
  using assms(2)
proof (induction rs rule: rev_induct)
  case Nil
  then show ?case by (simp add: dc_init_def)
next
  case (snoc r rs)
  let ?d = "dc_run rs (dc_init cycle)"
  have cyc: "dc_cycleNanoseconds ?d = cycle" by (simp add: dc_init_def)
  have old: "?case" if sync: "dc_synchronized ?d"
  proof -
    from snoc.IH [OF sync] obtain k where k: "k + 20 \<le> length (valid_references rs)"
      "\<And>i. k \<le> i \<Longrightarrow> i < k + 20 \<Longrightarrow> stable_at cycle (valid_references rs) i" by blast
    have "stable_at cycle (valid_references (rs @ [r])) i" if "k \<le> i" "i < k + 20" for i
      using k that by (simp add: valid_references_append stable_at_append)
    moreover have "k + 20 \<le> length (valid_references (rs @ [r]))"
      using k(1) by (simp add: valid_references_def)
    ultimately show ?thesis by blast
  qed
  show ?case
  proof (cases "dc_synchronized ?d")
    case True
    then show ?thesis by (rule old)
  next
    case False
    with snoc.prems have "0 < r" using dc_Update_invalid(3) [of r ?d] by (cases "0 < r") auto
    with False snoc.prems have "20 \<le> dc_stableCycles (dc_run (rs @ [r]) (dc_init cycle))"
      using dc_Update_valid(3) [of ?d r] cyc assms(1) by simp
    then have 20: "20 \<le> unat (dc_stableCycles (dc_run (rs @ [r]) (dc_init cycle)))"
      by (simp add: word_le_nat_alt)
    let ?vs = "valid_references (rs @ [r])"
    have "unat (dc_stableCycles (dc_run (rs @ [r]) (dc_init cycle))) \<le> length ?vs"
      "\<And>i. length ?vs - unat (dc_stableCycles (dc_run (rs @ [r]) (dc_init cycle))) \<le> i \<Longrightarrow>
        i < length ?vs \<Longrightarrow> stable_at cycle ?vs i"
      using stable_counter_suffix [OF assms(1), of "rs @ [r]"] by (auto simp: Let_def)
    with 20 show ?thesis by (intro exI [of _ "length ?vs - 20"]) auto
  qed
qed

lemma dc_run_observations:
  "unat (dc_observations (dc_run rs (dc_init cycle))) = min (length rs) (2 ^ 32 - 1)"
proof (induction rs rule: rev_induct)
  case Nil
  show ?case by (simp add: dc_init_def)
next
  case (snoc r rs)
  have step: "dc_observations (snd (dc_Update d r)) = count_up (dc_observations d)" for d
    by (simp add: dc_Update_def Let_def)
  from snoc show ?case by (simp add: step unat_count_up_eq min_def)
qed

lemma dc_run_inv:
  assumes "dc_cycle_ok cycle" "\<forall>r\<in>set rs. r \<le> int64_max"
  shows "dc_inv (dc_run rs (dc_init cycle))"
  using assms(2)
proof (induction rs rule: rev_induct)
  case Nil
  show ?case using assms(1) by (simp add: dc_inv_def dc_init_def dc_cycle_ok_def int64_max_def)
next
  case (snoc r rs)
  then show ?case using assms(1) by (auto intro!: dc_Update_inv simp: dc_init_def)
qed

section \<open>Properties\<close>

text \<open>
  C20: the clock correction is bounded. For every cycle time below the saturation threshold and
  every history of 64-bit reference times, a valid update reports a phase error within half a
  cycle that is congruent to the reference time, corrects by at most a tenth of a cycle (one
  nanosecond for tiny cycles) and not at all when the reference did not advance plausibly; the
  integral stays within a hundred cycles, so that neither its increment nor the correction sum
  can overflow 64 bits.
\<close>

theorem dc_correction_bounded:
  assumes "dc_cycle_ok cycle" and "\<forall>r\<in>set references. r \<le> int64_max"
    and "0 < reference" and "reference \<le> int64_max"
    and "d = dc_run references (dc_init cycle)" and "dc_Update d reference = (adj, d')"
  shows "\<bar>adj_phaseErrorNs adj\<bar> \<le> cycle div 2
    \<and> cycle dvd adj_phaseErrorNs adj - reference
    \<and> \<bar>adj_correctionNs adj\<bar> \<le> max 1 (cycle div 10)
    \<and> (\<not> reference_advanced cycle (dc_previousReference d) reference \<longrightarrow> adj_correctionNs adj = 0)
    \<and> \<bar>dc_integral d'\<bar> \<le> cycle * 100 \<and> \<bar>dc_integral d\<bar> + 1 \<le> int64_max
    \<and> \<bar>- (adj_phaseErrorNs adj sdiv 100) - (dc_integral d' sdiv 1000)\<bar> \<le> int64_max"
proof -
  have c: "0 < cycle" "cycle * 100 \<le> 9223372036854775800"
    using assms(1) by (auto simp: dc_cycle_ok_def int64_max_def sdiv_pos)
  have inv: "dc_inv d" using dc_run_inv [OF assms(1,2)] assms(5) by simp
  have cyc: "dc_cycleNanoseconds d = cycle" by (simp add: assms(5) dc_init_def)
  have inv': "dc_inv d'" using dc_Update_inv [of d reference] inv assms(1,4,6) cyc by simp
  have cyc': "dc_cycleNanoseconds d' = cycle" using dc_Update_cycle [of d reference] assms(6) cyc by simp
  have adj: "adj_phaseErrorNs adj = clock_phase cycle reference"
    "\<exists>i. adj_correctionNs adj =
       clock_correction cycle (reference_advanced cycle (dc_previousReference d) reference)
         (clock_phase cycle reference) i"
    using assms(3,6) c(1) cyc by (auto simp: dc_Update_def Let_def)
  note ph = clock_phase_bounds [OF c(1) assms(3)]
  have "\<bar>adj_correctionNs adj\<bar> \<le> max 1 (cycle div 10)"
    using adj(2) clock_correction_bounds [of cycle] c(1) by (auto simp: sdiv_pos)
  moreover have "\<not> reference_advanced cycle (dc_previousReference d) reference \<longrightarrow> adj_correctionNs adj = 0"
    using adj(2) by (auto simp: clock_correction_def Let_def)
  moreover have i: "\<bar>dc_integral d'\<bar> \<le> cycle * 100" "\<bar>dc_integral d\<bar> \<le> cycle * 100"
    using inv inv' cyc cyc' by (auto simp: dc_inv_def)
  moreover have "\<bar>- (clock_phase cycle reference sdiv 100) - (dc_integral d' sdiv 1000)\<bar> \<le> int64_max"
  proof -
    have "\<bar>clock_phase cycle reference\<bar> div 100 \<le> \<bar>clock_phase cycle reference\<bar>" by simp
    then have "\<bar>clock_phase cycle reference sdiv 100\<bar> \<le> cycle"
      using abs_sdiv_le [of 100 "clock_phase cycle reference"] ph(1,2) c(1) by linarith
    moreover have "\<bar>dc_integral d' sdiv 1000\<bar> \<le> 9223372036854775"
      using abs_sdiv_le [of 1000 "dc_integral d'"] i(1) c(2) by linarith
    ultimately show ?thesis using c(2) by (simp add: int64_max_def)
  qed
  ultimately show ?thesis using ph c adj(1) by (auto simp: int64_max_def abs_le_iff)
qed

theorem dc_correction_bounded_witness:
  "let d = dc_run [1000000] (dc_init 1000000)
   in \<bar>adj_correctionNs (fst (dc_Update d 2010000))\<bar> \<le> max 1 (1000000 div 10)"
  using dc_correction_bounded [of 1000000 "[1000000]" 2010000 "dc_run [1000000] (dc_init 1000000)"
      "fst (dc_Update (dc_run [1000000] (dc_init 1000000)) 2010000)"
      "snd (dc_Update (dc_run [1000000] (dc_init 1000000)) 2010000)"]
  by (simp add: dc_cycle_ok_def int64_max_def sdiv_pos)

text \<open>
  C21: the lock is earned. Whenever the controller reports synchronization after any history of
  reference times, that history contains twenty consecutive valid references each of which
  advanced by a plausible number of whole cycles and had a phase error within tolerance.
\<close>

theorem dc_lock_needs_twenty_stable_cycles:
  assumes "0 < cycle" and "dc_synchronized (dc_run references (dc_init cycle))"
  shows "\<exists>k. k + 20 \<le> length (valid_references references)
    \<and> (\<forall>i. k \<le> i \<and> i < k + 20 \<longrightarrow> stable_at cycle (valid_references references) i)"
  using assms by (rule synchronized_window)

theorem dc_lock_needs_twenty_stable_cycles_witness:
  "\<exists>k. k + 20 \<le> length (valid_references (map (\<lambda>i. int i * 1000000) [1..<22]))
    \<and> (\<forall>i. k \<le> i \<and> i < k + 20 \<longrightarrow>
         stable_at 1000000 (valid_references (map (\<lambda>i. int i * 1000000) [1..<22])) i)"
proof (rule dc_lock_needs_twenty_stable_cycles)
  show "dc_synchronized (dc_run (map (\<lambda>i. int i * 1000000) [1..<22]) (dc_init 1000000))"
    by code_simp
qed simp

text \<open>
  C22: a reference clock that stops is detected. After three consecutive valid references none of
  which advanced by a plausible number of cycles, the controller reports a fault and is no longer
  synchronized, whatever its state was before.
\<close>

theorem dc_three_bad_advances_fault:
  assumes "0 < dc_cycleNanoseconds d" and "0 < r1" and "0 < r2" and "0 < r3"
    and "\<not> reference_advanced (dc_cycleNanoseconds d) (dc_previousReference d) r1"
    and "\<not> reference_advanced (dc_cycleNanoseconds d) r1 r2"
    and "\<not> reference_advanced (dc_cycleNanoseconds d) r2 r3"
  shows "let (adj, d') = dc_Update (dc_run [r1, r2] d) r3
    in adj_fault adj \<and> \<not> adj_synchronized adj \<and> \<not> dc_synchronized d'"
proof -
  let ?d1 = "snd (dc_Update d r1)"
  let ?d2 = "snd (dc_Update ?d1 r2)"
  have step: "dc_previousReference (snd (dc_Update e r)) = r
      \<and> dc_invalidAdvanceCycles (snd (dc_Update e r)) = count_up (dc_invalidAdvanceCycles e)"
    if "0 < dc_cycleNanoseconds e" "0 < r"
      "\<not> reference_advanced (dc_cycleNanoseconds e) (dc_previousReference e) r" for e r
    using that by (simp add: dc_Update_def Let_def)
  have three: "3 \<le> count_up (count_up (count_up n))" for n
    by (simp add: word_le_nat_alt unat_count_up_eq)
  have d2: "dc_previousReference ?d2 = r2"
    "dc_invalidAdvanceCycles ?d2 = count_up (count_up (dc_invalidAdvanceCycles d))"
    using step [of d r1] step [of ?d1 r2] assms by auto
  have run: "dc_run [r1, r2] d = ?d2" by (simp add: dc_run_def run_ops_def)
  show ?thesis unfolding run
    using assms d2 three [of "dc_invalidAdvanceCycles d"] by (simp add: dc_Update_def [of ?d2] Let_def)
qed

theorem dc_three_bad_advances_fault_witness:
  "let (adj, d') = dc_Update (dc_run [5, 5] (dc_init 1000000)) 5
   in adj_fault adj \<and> \<not> adj_synchronized adj \<and> \<not> dc_synchronized d'"
  by (rule dc_three_bad_advances_fault)
     (simp_all add: dc_init_def reference_advanced_def sdiv_pos smod_pos)

text \<open>
  C23: failure to lock is reported. From the five-hundredth update on, every update that does not
  report synchronization reports a fault.
\<close>

theorem dc_unlocked_fault:
  assumes "499 \<le> length references"
    and "dc_Update (dc_run references (dc_init cycle)) reference = (adj, d')"
    and "\<not> adj_synchronized adj"
  shows "adj_fault adj"
proof -
  have "adj_fault (fst (dc_Update d r))"
    if "\<not> adj_synchronized (fst (dc_Update d r))" "500 \<le> dc_observations (snd (dc_Update d r))" for d r
  proof (cases "dc_cycleNanoseconds d \<le> 0 \<or> r \<le> 0")
    case True
    then show ?thesis using that by (auto simp: dc_Update_def Let_def)
  next
    case False
    then show ?thesis using that by (simp add: dc_Update_def Let_def split del: if_split)
  qed
  moreover have "500 \<le> dc_observations (dc_run (references @ [reference]) (dc_init cycle))"
    using dc_run_observations [of "references @ [reference]" cycle] assms(1)
    by (simp add: word_le_nat_alt)
  ultimately show ?thesis using assms(2,3) by (metis dc_run_simps(2) fst_conv)
qed

theorem dc_unlocked_fault_witness:
  "adj_fault (fst (dc_Update (dc_run (replicate 499 0) (dc_init 1000000)) 0))"
proof (rule dc_unlocked_fault)
  show "499 \<le> length (replicate 499 (0 :: int))" by simp
  show "dc_Update (dc_run (replicate 499 0) (dc_init 1000000)) 0 =
      (fst (dc_Update (dc_run (replicate 499 0) (dc_init 1000000)) 0),
       snd (dc_Update (dc_run (replicate 499 0) (dc_init 1000000)) 0))"
    by (rule prod.collapse [symmetric])
  have "\<not> adj_synchronized (fst (dc_Update d 0))" for d by (simp add: dc_Update_def Let_def)
  then show "\<not> adj_synchronized (fst (dc_Update (dc_run (replicate 499 0) (dc_init 1000000)) 0))" .
qed

end
