(* ===== verification/Realtime.thy ===== *)
theory Realtime
  imports Wire_Enums
begin

text \<open>
  Start-up of the cyclic thread: \<^verbatim>\<open>ApplyRealtimeConfiguration\<close> of \<^verbatim>\<open>realtime.hpp\<close>. The operating
  system is a state of arbitrary type. Each of the five injected operations is an optional
  function on that state, as the \<^verbatim>\<open>std::function\<close> members may be empty, so that the order of the
  calls is part of the model. The C++ \<^verbatim>\<open>int\<close> values are only compared, never computed with.
\<close>

section \<open>Configuration and result\<close>

definition RealtimeMlockFailed :: u8 where "RealtimeMlockFailed = 1"
definition RealtimeSchedulerFailed :: u8 where "RealtimeSchedulerFailed = 2"
definition RealtimeAffinityConfigurationInvalid :: u8 where "RealtimeAffinityConfigurationInvalid = 4"
definition RealtimeAffinityApplyFailed :: u8 where "RealtimeAffinityApplyFailed = 8"
definition RealtimeClockError :: u8 where "RealtimeClockError = 16"
definition RealtimePriorityInvalid :: u8 where "RealtimePriorityInvalid = 32"
definition RealtimeDistributedClockUnlocked :: u8 where "RealtimeDistributedClockUnlocked = 64"

lemmas realtime_bits =
  RealtimeMlockFailed_def RealtimeSchedulerFailed_def RealtimeAffinityConfigurationInvalid_def
  RealtimeAffinityApplyFailed_def RealtimeClockError_def RealtimePriorityInvalid_def
  RealtimeDistributedClockUnlocked_def

record RealtimeConfig =
  requestMemoryLock :: bool
  requestFifo :: bool
  fifoPriority :: int
  cpuAffinity :: "u32 option"

record 'os RealtimeOperations =
  lockMemory :: "('os \<Rightarrow> int \<times> 'os) option"
  setFifoScheduler :: "(int \<Rightarrow> 'os \<Rightarrow> int \<times> 'os) option"
  setCpuAffinity :: "(u32 \<Rightarrow> 'os \<Rightarrow> int \<times> 'os) option"
  availableCpuCount :: "('os \<Rightarrow> u32 \<times> 'os) option"
  currentSchedulingPolicy :: "('os \<Rightarrow> int \<times> 'os) option"

record RealtimeResult =
  rt_requested :: bool
  rt_memoryLocked :: bool
  rt_schedulerApplied :: bool
  rt_affinityApplied :: bool
  rt_schedulingMode :: SchedulingMode
  rt_errorBits :: u8

definition RealtimeResult_default :: RealtimeResult where
  "RealtimeResult_default =
     \<lparr>rt_requested = False, rt_memoryLocked = False, rt_schedulerApplied = False,
      rt_affinityApplied = False, rt_schedulingMode = SchedOther, rt_errorBits = 0\<rparr>"

definition fullyApplied :: "RealtimeConfig \<Rightarrow> RealtimeResult \<Rightarrow> bool" where
  "fullyApplied config result \<longleftrightarrow>
     (\<not> requestMemoryLock config \<or> rt_memoryLocked result)
     \<and> (\<not> requestFifo config \<or> rt_schedulerApplied result)
     \<and> (cpuAffinity config = None \<or> rt_affinityApplied result)"

section \<open>The four stages\<close>

text \<open>A call \<^verbatim>\<open>op && op() == 0\<close>: an empty function makes no call.\<close>

definition succeeds :: "('os \<Rightarrow> int \<times> 'os) option \<Rightarrow> 'os \<Rightarrow> bool \<times> 'os" where
  "succeeds operation os =
     (case operation of None \<Rightarrow> (False, os)
      | Some call \<Rightarrow> (let (code, os) = call os in (code = 0, os)))"

definition rt_fail :: "u8 \<Rightarrow> RealtimeResult \<Rightarrow> RealtimeResult" where
  "rt_fail error result = result\<lparr>rt_errorBits := rt_errorBits result OR error\<rparr>"

definition apply_memory_lock ::
  "RealtimeConfig \<Rightarrow> 'os RealtimeOperations \<Rightarrow> RealtimeResult \<Rightarrow> 'os \<Rightarrow> RealtimeResult \<times> 'os" where
  "apply_memory_lock config ops result os =
     (if requestMemoryLock config then
        let (ok, os) = succeeds (lockMemory ops) os
        in (if ok then result\<lparr>rt_memoryLocked := True\<rparr> else rt_fail RealtimeMlockFailed result, os)
      else (result, os))"

definition apply_fifo ::
  "RealtimeConfig \<Rightarrow> 'os RealtimeOperations \<Rightarrow> RealtimeResult \<Rightarrow> 'os \<Rightarrow> RealtimeResult \<times> 'os" where
  "apply_fifo config ops result os =
     (if requestFifo config then
        if fifoPriority config \<le> 0 \<or> fifoPriority config \<ge> 100
        then (rt_fail RealtimePriorityInvalid result, os)
        else let (ok, os) = succeeds (map_option (\<lambda>f. f (fifoPriority config)) (setFifoScheduler ops)) os
             in (if ok then result\<lparr>rt_schedulerApplied := True\<rparr>
                 else rt_fail RealtimeSchedulerFailed result, os)
      else (result, os))"

definition apply_affinity ::
  "RealtimeConfig \<Rightarrow> 'os RealtimeOperations \<Rightarrow> RealtimeResult \<Rightarrow> 'os \<Rightarrow> RealtimeResult \<times> 'os" where
  "apply_affinity config ops result os =
     (case cpuAffinity config of None \<Rightarrow> (result, os)
      | Some cpu \<Rightarrow>
         let (available, os) = (case availableCpuCount ops of None \<Rightarrow> (0, os) | Some f \<Rightarrow> f os)
         in if available = 0 \<or> cpu \<ge> available
            then (rt_fail RealtimeAffinityConfigurationInvalid result, os)
            else let (ok, os) = succeeds (map_option (\<lambda>f. f cpu) (setCpuAffinity ops)) os
                 in (if ok then result\<lparr>rt_affinityApplied := True\<rparr>
                     else rt_fail RealtimeAffinityApplyFailed result, os))"

definition observe_policy ::
  "RealtimeConfig \<Rightarrow> 'os RealtimeOperations \<Rightarrow> RealtimeResult \<Rightarrow> 'os \<Rightarrow> RealtimeResult \<times> 'os" where
  "observe_policy config ops result os =
     (let (policy, os) = (case currentSchedulingPolicy ops of None \<Rightarrow> (0, os) | Some f \<Rightarrow> f os);
          result = (if policy = 1 then result\<lparr>rt_schedulingMode := SchedFifo\<rparr> else result)
      in (if requestFifo config \<and> rt_schedulingMode result \<noteq> SchedFifo
          then (rt_fail RealtimeSchedulerFailed result)\<lparr>rt_schedulerApplied := False\<rparr>
          else result, os))"

definition ApplyRealtimeConfiguration ::
  "RealtimeConfig \<Rightarrow> 'os RealtimeOperations \<Rightarrow> 'os \<Rightarrow> RealtimeResult \<times> 'os" where
  "ApplyRealtimeConfiguration config ops os =
     (let result = RealtimeResult_default
            \<lparr>rt_requested := requestMemoryLock config \<or> requestFifo config
                             \<or> cpuAffinity config \<noteq> None\<rparr>;
          (result, os) = apply_memory_lock config ops result os;
          (result, os) = apply_fifo config ops result os;
          (result, os) = apply_affinity config ops result os
      in observe_policy config ops result os)"

section \<open>What the result says\<close>

lemmas realtime_stages =
  apply_memory_lock_def apply_fifo_def apply_affinity_def observe_policy_def rt_fail_def
  RealtimeResult_default_def

lemma succeeds_True:
  "succeeds operation os = (True, os') \<longleftrightarrow> (\<exists>call. operation = Some call \<and> call os = (0, os'))"
  by (auto simp: succeeds_def split: option.splits prod.splits)

text \<open>
  A stage either leaves the error mask alone or adds one of its own bits; the flag it reports
  is tied to the calls that were made.
\<close>

lemma apply_memory_lock_cases:
  assumes "apply_memory_lock config ops r os = (r', os')"
  obtains "\<not> requestMemoryLock config" "r' = r" "os' = os"
  | lock where "requestMemoryLock config" "lockMemory ops = Some lock" "lock os = (0, os')"
      "r' = r\<lparr>rt_memoryLocked := True\<rparr>"
  | error where "requestMemoryLock config" "r' = rt_fail error r" "error \<noteq> 0"
  using assms by (auto simp: realtime_bits apply_memory_lock_def succeeds_True split: if_splits prod.splits)

lemma apply_fifo_cases:
  assumes "apply_fifo config ops r os = (r', os')"
  obtains "\<not> requestFifo config" "r' = r" "os' = os"
  | "requestFifo config" "0 < fifoPriority config" "fifoPriority config < 100"
      "r' = r\<lparr>rt_schedulerApplied := True\<rparr>"
  | error where "requestFifo config" "r' = rt_fail error r"
      "error \<noteq> 0"
  using assms by (auto simp: apply_fifo_def realtime_bits split: if_splits prod.splits)

lemma apply_affinity_cases:
  assumes "apply_affinity config ops r os = (r', os')"
  obtains "cpuAffinity config = None" "r' = r" "os' = os"
  | cpu count available between set_affinity where "cpuAffinity config = Some cpu"
      "availableCpuCount ops = Some count" "count os = (available, between)" "cpu < available"
      "setCpuAffinity ops = Some set_affinity" "set_affinity cpu between = (0, os')"
      "r' = r\<lparr>rt_affinityApplied := True\<rparr>"
  | error where "cpuAffinity config \<noteq> None" "r' = rt_fail error r"
      "error \<noteq> 0"
  using assms
  by (auto simp: apply_affinity_def realtime_bits succeeds_True not_le split: if_splits prod.splits option.splits)

lemma observe_policy_cases:
  assumes "observe_policy config ops r os = (r', os')" and "rt_schedulingMode r = SchedOther"
  obtains policy where "currentSchedulingPolicy ops = Some policy" "policy os = (1, os')"
      "r' = r\<lparr>rt_schedulingMode := SchedFifo\<rparr>"
  | "\<not> requestFifo config" "r' = r"
  | error where "requestFifo config" "r' = (rt_fail error r)\<lparr>rt_schedulerApplied := False\<rparr>" "error \<noteq> 0"
  using assms
  by (auto simp: realtime_bits observe_policy_def Let_def split: if_splits prod.splits option.splits)

lemma realtime_chain:
  assumes "ApplyRealtimeConfiguration config ops os = (result, os')"
  obtains r1 os1 r2 os2 r3 os3 where
    "apply_memory_lock config ops (RealtimeResult_default
       \<lparr>rt_requested := requestMemoryLock config \<or> requestFifo config \<or> cpuAffinity config \<noteq> None\<rparr>) os
       = (r1, os1)"
    "apply_fifo config ops r1 os1 = (r2, os2)"
    "apply_affinity config ops r2 os2 = (r3, os3)"
    "observe_policy config ops r3 os3 = (result, os')"
  using assms by (auto simp: ApplyRealtimeConfiguration_def Let_def split: prod.splits)

lemma rt_fail_select [simp]:
  "rt_errorBits (rt_fail e r) = rt_errorBits r OR e"
  "rt_memoryLocked (rt_fail e r) = rt_memoryLocked r"
  "rt_schedulerApplied (rt_fail e r) = rt_schedulerApplied r"
  "rt_affinityApplied (rt_fail e r) = rt_affinityApplied r"
  "rt_schedulingMode (rt_fail e r) = rt_schedulingMode r"
  by (simp_all add: rt_fail_def)

text \<open>
  C34: the realtime report is truthful. The error mask is empty exactly when everything requested
  was applied; a reported FIFO scheduler means that the priority was in 1..99 and that the
  policy read back from the operating system was FIFO; and an applied affinity names an existing CPU
  whose assignment the operating system accepted.
\<close>

theorem realtime_report_truthful:
  assumes "ApplyRealtimeConfiguration config ops os = (result, os')"
  shows "(rt_errorBits result = 0 \<longleftrightarrow> fullyApplied config result)
    \<and> (rt_schedulerApplied result \<longrightarrow>
         requestFifo config \<and> 0 < fifoPriority config \<and> fifoPriority config < 100
         \<and> rt_schedulingMode result = SchedFifo)
    \<and> (rt_schedulingMode result = SchedFifo \<longrightarrow>
         (\<exists>policy before. currentSchedulingPolicy ops = Some policy \<and> policy before = (1, os')))
    \<and> (rt_affinityApplied result \<longrightarrow>
         (\<exists>cpu count before available between set_affinity after.
            cpuAffinity config = Some cpu
            \<and> availableCpuCount ops = Some count \<and> count before = (available, between) \<and> cpu < available
            \<and> setCpuAffinity ops = Some set_affinity \<and> set_affinity cpu between = (0, after)))
    \<and> (rt_memoryLocked result \<longrightarrow> (\<exists>lock. lockMemory ops = Some lock \<and> fst (lock os) = 0))"
proof -
  from assms obtain r1 os1 r2 os2 r3 os3 where
    1: "apply_memory_lock config ops (RealtimeResult_default
       \<lparr>rt_requested := requestMemoryLock config \<or> requestFifo config \<or> cpuAffinity config \<noteq> None\<rparr>) os
       = (r1, os1)" and
    2: "apply_fifo config ops r1 os1 = (r2, os2)" and
    3: "apply_affinity config ops r2 os2 = (r3, os3)" and
    4: "observe_policy config ops r3 os3 = (result, os')"
    by (rule realtime_chain)
  note init = RealtimeResult_default_def
  have r1: "rt_schedulingMode r1 = SchedOther" "\<not> rt_schedulerApplied r1" "\<not> rt_affinityApplied r1"
    "rt_errorBits r1 = 0 \<longleftrightarrow> (requestMemoryLock config \<longrightarrow> rt_memoryLocked r1)"
    "rt_memoryLocked r1 \<longrightarrow> (\<exists>lock. lockMemory ops = Some lock \<and> fst (lock os) = 0)"
    using 1 by (elim apply_memory_lock_cases; simp add: init or_eq_0_iff)+
  have r2: "rt_schedulingMode r2 = SchedOther" "\<not> rt_affinityApplied r2"
    "rt_memoryLocked r2 = rt_memoryLocked r1"
    "rt_errorBits r2 = 0 \<longleftrightarrow> rt_errorBits r1 = 0 \<and> (requestFifo config \<longrightarrow> rt_schedulerApplied r2)"
    "rt_schedulerApplied r2 \<longrightarrow> requestFifo config \<and> 0 < fifoPriority config \<and> fifoPriority config < 100"
    using 2 r1(1-3) by (elim apply_fifo_cases; simp add: or_eq_0_iff)+
  have r3: "rt_schedulingMode r3 = SchedOther"
    "rt_memoryLocked r3 = rt_memoryLocked r2" "rt_schedulerApplied r3 = rt_schedulerApplied r2"
    "rt_errorBits r3 = 0 \<longleftrightarrow> rt_errorBits r2 = 0 \<and> (cpuAffinity config \<noteq> None \<longrightarrow> rt_affinityApplied r3)"
    using 3 r2(1,2) by (elim apply_affinity_cases; simp add: or_eq_0_iff)+
  have affinity: "rt_affinityApplied r3 \<longrightarrow>
      (\<exists>cpu count before available between set_affinity after.
         cpuAffinity config = Some cpu
         \<and> availableCpuCount ops = Some count \<and> count before = (available, between) \<and> cpu < available
         \<and> setCpuAffinity ops = Some set_affinity \<and> set_affinity cpu between = (0, after))"
    using 3 r2(2) by (elim apply_affinity_cases) (simp, blast, simp)
  have r4: "rt_memoryLocked result = rt_memoryLocked r3" "rt_affinityApplied result = rt_affinityApplied r3"
    "rt_errorBits result = 0 \<longleftrightarrow>
       rt_errorBits r3 = 0 \<and> (requestFifo config \<longrightarrow> rt_schedulingMode result = SchedFifo)"
    "rt_schedulerApplied result \<longleftrightarrow>
       rt_schedulerApplied r3 \<and> (requestFifo config \<longrightarrow> rt_schedulingMode result = SchedFifo)"
    using 4 r3(1) by (elim observe_policy_cases [OF _ r3(1)]; simp add: or_eq_0_iff)+
  have policy: "rt_schedulingMode result = SchedFifo \<longrightarrow>
       (\<exists>policy before. currentSchedulingPolicy ops = Some policy \<and> policy before = (1, os'))"
    using 4 r3(1) by (elim observe_policy_cases [OF _ r3(1)]) (simp_all, blast)
  have "rt_errorBits result = 0 \<longleftrightarrow> fullyApplied config result"
    unfolding fullyApplied_def r4 r3(2-4) r2(3,4) r1(4) by argo
  moreover have "rt_schedulerApplied result \<longrightarrow>
      requestFifo config \<and> 0 < fifoPriority config \<and> fifoPriority config < 100
      \<and> rt_schedulingMode result = SchedFifo"
    unfolding r4 r3 using r2(5) by argo
  ultimately show ?thesis
    using policy affinity r1(5) unfolding r4 r3 r2 by argo
qed

definition example_realtime_config :: RealtimeConfig where
  "example_realtime_config =
     \<lparr>requestMemoryLock = True, requestFifo = True, fifoPriority = 55, cpuAffinity = Some 2\<rparr>"

text \<open>An operating system whose state is the policy in force, with four CPUs.\<close>

definition example_operations :: "int RealtimeOperations" where
  "example_operations =
     \<lparr>lockMemory = Some (\<lambda>os. (0, os)), setFifoScheduler = Some (\<lambda>priority os. (0, 1)),
      setCpuAffinity = Some (\<lambda>cpu os. (0, os)), availableCpuCount = Some (\<lambda>os. (4, os)),
      currentSchedulingPolicy = Some (\<lambda>os. (os, os))\<rparr>"

theorem realtime_report_truthful_witness:
  "\<exists>result. ApplyRealtimeConfiguration example_realtime_config example_operations 0 = (result, 1)
     \<and> rt_schedulerApplied result \<and> rt_errorBits result = 0
     \<and> fullyApplied example_realtime_config result"
proof -
  let ?r = "ApplyRealtimeConfiguration example_realtime_config example_operations 0"
  have run: "?r = (fst ?r, 1)" "rt_schedulerApplied (fst ?r)" "rt_errorBits (fst ?r) = 0"
    by code_simp+
  from realtime_report_truthful [OF run(1)] run show ?thesis by blast
qed

end
