(* ===== verification/Adapter_Identity.thy ===== *)
theory Adapter_Identity
  imports Wire_Enums "HOL-Library.Char_ord" "HOL-Library.List_Lexorder" "HOL-Library.Product_Lexorder"
begin

text \<open>
  Identification of the network adapters a bus may use: \<^verbatim>\<open>adapter_identity.hpp\<close>. Strings are
  character lists, absolute paths are component lists. The file system the scanner reads is a
  record of functions: the content a file yields (nothing when it cannot be opened), the result
  of resolving symbolic links, and the entries of a directory in the order of the iterator. The
  character classes are those of the C locale, which the daemon never leaves.
\<close>

section \<open>Characters\<close>

abbreviation char_code :: "char \<Rightarrow> nat" where
  "char_code \<equiv> of_char"

definition isspace :: "char \<Rightarrow> bool" where
  "isspace c \<longleftrightarrow> char_code c = 32 \<or> 9 \<le> char_code c \<and> char_code c \<le> 13"

definition isdigit :: "char \<Rightarrow> bool" where
  "isdigit c \<longleftrightarrow> 48 \<le> char_code c \<and> char_code c \<le> 57"

definition isxdigit :: "char \<Rightarrow> bool" where
  "isxdigit c \<longleftrightarrow> isdigit c \<or> 65 \<le> char_code c \<and> char_code c \<le> 70
                  \<or> 97 \<le> char_code c \<and> char_code c \<le> 102"

definition isalnum :: "char \<Rightarrow> bool" where
  "isalnum c \<longleftrightarrow> isdigit c \<or> 65 \<le> char_code c \<and> char_code c \<le> 90
                 \<or> 97 \<le> char_code c \<and> char_code c \<le> 122"

definition tolower :: "char \<Rightarrow> char" where
  "tolower c = (if 65 \<le> char_code c \<and> char_code c \<le> 90 then char_of (char_code c + 32) else c)"

definition printableAscii :: "string \<Rightarrow> bool" where
  "printableAscii v \<longleftrightarrow> list_all (\<lambda>c. 32 \<le> char_code c \<and> char_code c \<le> 126) v"

definition TrimAscii :: "string \<Rightarrow> string" where
  "TrimAscii v = (let v = dropWhile isspace v in rev (dropWhile isspace (rev v)))"

section \<open>Normal forms of hardware identifiers\<close>

text \<open>The digit loop of \<^verbatim>\<open>NormalizeMac\<close>: nothing when another character is met.\<close>

fun mac_digits :: "string \<Rightarrow> string \<Rightarrow> string option" where
  "mac_digits hexadecimal [] = Some hexadecimal"
| "mac_digits hexadecimal (c # rest) =
     (if isxdigit c then mac_digits (hexadecimal @ [tolower c]) rest
      else if c \<noteq> CHR '':'' \<and> c \<noteq> CHR ''-'' \<and> \<not> isspace c then None
      else mac_digits hexadecimal rest)"

definition hex_digit_value :: "char \<Rightarrow> nat" where
  "hex_digit_value c = (if isdigit c then char_code c - 48 else char_code c - 97 + 10)"

fun mac_groups :: "string \<Rightarrow> string \<Rightarrow> string" where
  "mac_groups normalized (a # b # rest) =
     mac_groups ((if normalized \<noteq> [] then normalized @ '':'' else normalized) @ [a, b]) rest"
| "mac_groups normalized _ = normalized"

definition NormalizeMac :: "string \<Rightarrow> string option" where
  "NormalizeMac input =
     (case mac_digits [] input of None \<Rightarrow> None
      | Some hexadecimal \<Rightarrow>
         if length hexadecimal \<noteq> 12 then None
         else let firstByte = hex_digit_value (hexadecimal ! 0) * 16 + hex_digit_value (hexadecimal ! 1);
                  allZero = list_all (\<lambda>c. c = CHR ''0'') hexadecimal;
                  allBroadcast = list_all (\<lambda>c. c = CHR ''f'') hexadecimal
              in if firstByte mod 2 \<noteq> 0 \<or> allZero \<or> allBroadcast then None
                 else Some (mac_groups [] hexadecimal))"

definition starts_with :: "string \<Rightarrow> string \<Rightarrow> bool" where
  "starts_with prefix v \<longleftrightarrow> take (length prefix) v = prefix"

definition NormalizeUsbId :: "string \<Rightarrow> string option" where
  "NormalizeUsbId input =
     (let v = TrimAscii input;
          v = (if starts_with ''0x'' v \<or> starts_with ''0X'' v then drop 2 v else v)
      in if length v \<noteq> 4 \<or> \<not> list_all isxdigit v then None
         else Some (map tolower v))"

section \<open>Locks and identities\<close>

record AdapterIdentityLock =
  lock_idPath :: string
  lock_permanentMac :: "string option"
  lock_usbSerial :: "string option"
  lock_usbVendorId :: "string option"
  lock_usbProductId :: "string option"

definition pathOnly :: "AdapterIdentityLock \<Rightarrow> bool" where
  "pathOnly l \<longleftrightarrow> lock_permanentMac l = None \<and> lock_usbSerial l = None
                  \<and> lock_usbVendorId l = None \<and> lock_usbProductId l = None"

record AdapterIdentity =
  id_interfaceName :: string
  id_idPath :: string
  id_permanentMac :: "string option"
  id_usbSerial :: "string option"
  id_usbVendorId :: "string option"
  id_usbProductId :: "string option"
  id_ethernet :: bool
  id_linkUp :: bool

record AdapterResolution =
  resolution_state :: AdapterLockState
  resolution_reason :: AdapterLockReason
  resolution_identity :: "AdapterIdentity option"

datatype LockError =
  IdPathInvalid | PermanentMacInvalid | UsbSerialInvalid | UsbVendorIdInvalid | UsbProductIdInvalid

text \<open>The result is the message given to the caller, nothing when the lock is accepted.\<close>

definition ValidateAdapterLock :: "AdapterIdentityLock \<Rightarrow> LockError option" where
  "ValidateAdapterLock l =
     (if lock_idPath l = [] \<or> length (lock_idPath l) > 1024 \<or> \<not> printableAscii (lock_idPath l)
      then Some IdPathInvalid
      else if (case lock_permanentMac l of None \<Rightarrow> False | Some mac \<Rightarrow> NormalizeMac mac = None)
      then Some PermanentMacInvalid
      else if (case lock_usbSerial l of None \<Rightarrow> False
               | Some serial \<Rightarrow> serial = [] \<or> length serial > 256 \<or> \<not> printableAscii serial)
      then Some UsbSerialInvalid
      else if (case lock_usbVendorId l of None \<Rightarrow> False | Some v \<Rightarrow> NormalizeUsbId v = None)
      then Some UsbVendorIdInvalid
      else if (case lock_usbProductId l of None \<Rightarrow> False | Some v \<Rightarrow> NormalizeUsbId v = None)
      then Some UsbProductIdInvalid
      else None)"

section \<open>Reading sysfs and udev\<close>

type_synonym path = "string list"

text \<open>
  \<open>fs_list\<close> pairs each entry with whether the iterator could be advanced past it; \<open>fs_canonical\<close> is
  \<^verbatim>\<open>std::filesystem::weakly_canonical\<close>, nothing on an error.
\<close>

record FileSystem =
  fs_read :: "path \<Rightarrow> string option"
  fs_canonical :: "path \<Rightarrow> path option"
  fs_list :: "path \<Rightarrow> (string \<times> bool) list option"

record SysfsAdapterScanner =
  scanner_root :: path
  scanner_udevDataRoot :: path

definition IsBoundedPrintableAscii :: "string \<Rightarrow> nat \<Rightarrow> bool" where
  "IsBoundedPrintableAscii v maximumBytes \<longleftrightarrow>
     v \<noteq> [] \<and> length v \<le> maximumBytes \<and> list_all (\<lambda>c. 32 \<le> char_code c \<and> char_code c \<le> 126) v"

definition newline :: char where
  "newline = char_of (10::nat)"

fun getlines :: "string \<Rightarrow> string list" where
  "getlines [] = []"
| "getlines (c # rest) =
     (let line = takeWhile (\<lambda>c. c \<noteq> newline) (c # rest)
      in line # getlines (drop (Suc (length line)) (c # rest)))"

definition ReadFirstLine :: "FileSystem \<Rightarrow> path \<Rightarrow> string option" where
  "ReadFirstLine fs path = do {
     content \<leftarrow> fs_read fs path;
     require (content \<noteq> []);
     let v = takeWhile (\<lambda>c. c \<noteq> newline) content;
     require (length v \<le> 4096);
     let v = TrimAscii v;
     require (v \<noteq> []);
     Some v
   }"

definition ReadCarrier :: "FileSystem \<Rightarrow> path \<Rightarrow> bool option" where
  "ReadCarrier fs path =
     (case ReadFirstLine fs path of None \<Rightarrow> None
      | Some v \<Rightarrow> if v = ''1'' \<or> v = ''up'' then Some True
                 else if v = ''0'' \<or> v = ''down'' then Some False
                 else None)"

definition ReadOperstateUp :: "FileSystem \<Rightarrow> path \<Rightarrow> bool" where
  "ReadOperstateUp fs path \<longleftrightarrow> ReadFirstLine fs path = Some ''up''"

text \<open>
  \<^verbatim>\<open>std::filesystem::relative\<close> resolves both paths and compares them component by component.
\<close>

fun lexically_relative :: "path \<Rightarrow> path \<Rightarrow> path" where
  "lexically_relative (p # ps) (b # bs) =
     (if p = b then lexically_relative ps bs else ''..'' # map (\<lambda>_. ''..'') bs @ p # ps)"
| "lexically_relative [] [] = [''.'']"
| "lexically_relative ps bs = map (\<lambda>_. ''..'') bs @ ps"

definition fs_relative :: "FileSystem \<Rightarrow> path \<Rightarrow> path \<Rightarrow> path option" where
  "fs_relative fs candidate base = do {
     p \<leftarrow> fs_canonical fs candidate;
     b \<leftarrow> fs_canonical fs base;
     Some (lexically_relative p b)
   }"

fun generic_string :: "path \<Rightarrow> string" where
  "generic_string [] = []"
| "generic_string [p] = p"
| "generic_string (p # ps) = p @ ''/'' @ generic_string ps"

definition IsWithinRoot :: "SysfsAdapterScanner \<Rightarrow> FileSystem \<Rightarrow> path \<Rightarrow> bool" where
  "IsWithinRoot scanner fs candidate =
     (case fs_canonical fs (scanner_root scanner) of None \<Rightarrow> False
      | Some canonicalRoot \<Rightarrow>
         (case fs_relative fs candidate canonicalRoot of
            None \<Rightarrow> candidate = canonicalRoot
          | Some relative \<Rightarrow>
             if relative = [] then candidate = canonicalRoot
             else let relativeText = generic_string relative
                  in relativeText \<noteq> ''..'' \<and> \<not> starts_with ''../'' relativeText))"

definition ReadTextFile :: "FileSystem \<Rightarrow> path \<Rightarrow> string option" where
  "ReadTextFile fs path = do {
     content \<leftarrow> fs_read fs path;
     let bytes = min (length content) 4097;
     require (\<not> (bytes \<le> 0 \<or> bytes > 4096));
     Some (take bytes content)
   }"

definition udev_id_path :: "string \<Rightarrow> string option" where
  "udev_id_path record_text =
     (let prefix = ''E:ID_PATH=''
      in case find (\<lambda>line. starts_with prefix line \<and> length line > length prefix) (getlines record_text) of
           None \<Rightarrow> None
         | Some line \<Rightarrow> Some (TrimAscii (drop (length prefix) line)))"

definition uevent_id_path :: "string \<Rightarrow> string option" where
  "uevent_id_path uevent =
     (let prefix = ''ID_PATH=''
      in case find (starts_with prefix) (getlines uevent) of
           None \<Rightarrow> None
         | Some line \<Rightarrow> Some (drop (length prefix) line))"

text \<open>The three sources of an ID path in the order of the code, each tried when those before yield nothing.\<close>

definition id_path_from_udev :: "SysfsAdapterScanner \<Rightarrow> FileSystem \<Rightarrow> path \<Rightarrow> string option" where
  "id_path_from_udev scanner fs interfacePath =
     (case ReadFirstLine fs (interfacePath @ [''ifindex'']) of None \<Rightarrow> None
      | Some ifindex \<Rightarrow>
         if ifindex \<noteq> [] \<and> list_all isdigit ifindex then
           (case ReadTextFile fs (scanner_udevDataRoot scanner @ [''n'' @ ifindex]) of
              None \<Rightarrow> None
            | Some udevRecord \<Rightarrow> udev_id_path udevRecord)
         else None)"

definition id_path_from_device :: "SysfsAdapterScanner \<Rightarrow> FileSystem \<Rightarrow> path \<Rightarrow> string" where
  "id_path_from_device scanner fs device =
     (case ReadFirstLine fs (device @ [''id_path'']) of Some explicitPath \<Rightarrow> explicitPath
      | None \<Rightarrow>
         (case (case ReadTextFile fs (device @ [''uevent'']) of None \<Rightarrow> None
                | Some uevent \<Rightarrow> uevent_id_path uevent) of
            Some v \<Rightarrow> v
          | None \<Rightarrow>
             (case fs_relative fs device (scanner_root scanner) of
                Some relative \<Rightarrow>
                  if relative \<noteq> [] \<and> \<not> starts_with ''..'' (generic_string relative)
                  then ''sysfs:'' @ generic_string relative
                  else ''sysfs:/'' @ generic_string device
              | None \<Rightarrow> ''sysfs:/'' @ generic_string device)))"

definition ReadIdPath :: "SysfsAdapterScanner \<Rightarrow> FileSystem \<Rightarrow> path \<Rightarrow> path option \<Rightarrow> string" where
  "ReadIdPath scanner fs interfacePath device =
     (case id_path_from_udev scanner fs interfacePath of Some v \<Rightarrow> v
      | None \<Rightarrow>
         (case ReadFirstLine fs (interfacePath @ [''id_path'']) of Some explicitPath \<Rightarrow> explicitPath
          | None \<Rightarrow> (case device of None \<Rightarrow> [] | Some d \<Rightarrow> id_path_from_device scanner fs d)))"

definition ReadPermanentMac :: "FileSystem \<Rightarrow> path \<Rightarrow> string option" where
  "ReadPermanentMac fs interfacePath =
     (case ReadFirstLine fs (interfacePath @ [''perm_address'']) of
        Some explicitAddress \<Rightarrow> NormalizeMac explicitAddress
      | None \<Rightarrow>
         let assignmentType = ReadFirstLine fs (interfacePath @ [''addr_assign_type''])
         in if assignmentType \<noteq> None \<and> assignmentType \<noteq> Some ''0'' then None
            else (case ReadFirstLine fs (interfacePath @ [''address'']) of
                    None \<Rightarrow> None | Some address \<Rightarrow> NormalizeMac address))"

text \<open>
  The walk towards the root of the file system; \<open>fuel\<close> is 16 minus the depth, so it is the loop's own bound.
\<close>

primrec parent_attribute ::
  "nat \<Rightarrow> SysfsAdapterScanner \<Rightarrow> FileSystem \<Rightarrow> path \<Rightarrow> string \<Rightarrow> bool \<Rightarrow> string option" where
  "parent_attribute 0 scanner fs device attribute hexadecimal = None"
| "parent_attribute (Suc fuel) scanner fs device attribute hexadecimal =
     (if \<not> IsWithinRoot scanner fs device then None
      else case ReadFirstLine fs (device @ [attribute]) of
             Some v \<Rightarrow> if hexadecimal then NormalizeUsbId v else Some v
           | None \<Rightarrow> if butlast device = device then None
                     else parent_attribute fuel scanner fs (butlast device) attribute hexadecimal)"

definition ReadParentAttribute ::
  "SysfsAdapterScanner \<Rightarrow> FileSystem \<Rightarrow> path option \<Rightarrow> string \<Rightarrow> bool \<Rightarrow> string option" where
  "ReadParentAttribute scanner fs device attribute hexadecimal =
     (case device of None \<Rightarrow> None
      | Some d \<Rightarrow> parent_attribute 16 scanner fs d attribute hexadecimal)"

section \<open>Scanning\<close>

datatype ScanError = EnumerationFailed | EnumerationChanged | TooManyInterfaces

definition scan_device :: "SysfsAdapterScanner \<Rightarrow> FileSystem \<Rightarrow> path \<Rightarrow> path option" where
  "scan_device scanner fs entry =
     (case fs_canonical fs (entry @ [''device'']) of None \<Rightarrow> None
      | Some device \<Rightarrow> if IsWithinRoot scanner fs device then Some device else None)"

text \<open>One turn of the loop body; nothing stands for \<^verbatim>\<open>continue\<close>.\<close>

definition scan_entry :: "SysfsAdapterScanner \<Rightarrow> FileSystem \<Rightarrow> string \<Rightarrow> AdapterIdentity option" where
  "scan_entry scanner fs name =
     (let entry = scanner_root scanner @ [''class'', ''net'', name]
      in if name = [] \<or> length name > 255 \<or> name = ''lo'' then None
         else let ethernet = (case ReadFirstLine fs (entry @ [''type'']) of None \<Rightarrow> False
                              | Some t \<Rightarrow> TrimAscii t = ''1'')
              in if \<not> ethernet then None
                 else let linkUp = (case ReadCarrier fs (entry @ [''carrier'']) of
                                      Some carrier \<Rightarrow> carrier
                                    | None \<Rightarrow> ReadOperstateUp fs (entry @ [''operstate'']));
                          device = scan_device scanner fs entry;
                          idPath = ReadIdPath scanner fs entry device;
                          idPath = (if IsBoundedPrintableAscii idPath 1024 then idPath else []);
                          usbSerial = (case ReadParentAttribute scanner fs device ''serial'' False of
                                         None \<Rightarrow> None
                                       | Some v \<Rightarrow> if IsBoundedPrintableAscii v 256 then Some v else None)
                      in Some \<lparr>id_interfaceName = name, id_idPath = idPath,
                               id_permanentMac = ReadPermanentMac fs entry,
                               id_usbSerial = usbSerial,
                               id_usbVendorId = ReadParentAttribute scanner fs device ''idVendor'' True,
                               id_usbProductId = ReadParentAttribute scanner fs device ''idProduct'' True,
                               id_ethernet = ethernet, id_linkUp = linkUp\<rparr>)"

fun scan_loop ::
  "SysfsAdapterScanner \<Rightarrow> FileSystem \<Rightarrow> AdapterIdentity list \<Rightarrow> (string \<times> bool) list \<Rightarrow>
   ScanError option \<times> AdapterIdentity list" where
  "scan_loop scanner fs adapters [] = (None, adapters)"
| "scan_loop scanner fs adapters ((name, advanced) # entries) =
     (if \<not> advanced then (Some EnumerationChanged, adapters)
      else if length adapters \<ge> 256 then (Some TooManyInterfaces, adapters)
      else case scan_entry scanner fs name of
             None \<Rightarrow> scan_loop scanner fs adapters entries
           | Some identity \<Rightarrow> scan_loop scanner fs (adapters @ [identity]) entries)"

definition Scan :: "SysfsAdapterScanner \<Rightarrow> FileSystem \<Rightarrow> ScanError option \<times> AdapterIdentity list" where
  "Scan scanner fs =
     (case fs_list fs (scanner_root scanner @ [''class'', ''net'']) of
        None \<Rightarrow> (Some EnumerationFailed, [])
      | Some entries \<Rightarrow>
         let (err, adapters) = scan_loop scanner fs [] entries
         in (err, sort_key (\<lambda>i. (id_idPath i, id_interfaceName i)) adapters))"

section \<open>Resolving a configured adapter\<close>

definition find_preferred :: "AdapterIdentity list \<Rightarrow> string \<Rightarrow> AdapterIdentity option" where
  "find_preferred adapters preferredInterface =
     find (\<lambda>identity. id_interfaceName identity = preferredInterface) adapters"

text \<open>The comparison lambda: nothing when the attribute is not locked or agrees.\<close>

definition attribute_mismatch ::
  "AdapterIdentity \<Rightarrow> string option \<Rightarrow> string option \<Rightarrow> AdapterLockReason \<Rightarrow> AdapterResolution option" where
  "attribute_mismatch pathMatch expectedValue observedValue reason =
     (case expectedValue of None \<Rightarrow> None
      | Some expected \<Rightarrow>
         (case observedValue of
            None \<Rightarrow> Some \<lparr>resolution_state = LockMismatch, resolution_reason = ReasonIdentityUnavailable,
                         resolution_identity = Some pathMatch\<rparr>
          | Some observed \<Rightarrow>
             if expected \<noteq> observed
             then Some \<lparr>resolution_state = LockMismatch, resolution_reason = reason,
                        resolution_identity = Some pathMatch\<rparr>
             else None))"

definition resolve_attributes :: "AdapterIdentityLock \<Rightarrow> AdapterIdentity \<Rightarrow> AdapterResolution" where
  "resolve_attributes expected pathMatch =
     (let normalizedMac = Option.bind (lock_permanentMac expected) NormalizeMac;
          normalizedVendor = Option.bind (lock_usbVendorId expected) NormalizeUsbId;
          normalizedProduct = Option.bind (lock_usbProductId expected) NormalizeUsbId
      in case attribute_mismatch pathMatch normalizedMac (id_permanentMac pathMatch)
                ReasonPermanentMacMismatch of
           Some result \<Rightarrow> result
         | None \<Rightarrow> (case attribute_mismatch pathMatch (lock_usbSerial expected) (id_usbSerial pathMatch)
                           ReasonUsbSerialMismatch of
           Some result \<Rightarrow> result
         | None \<Rightarrow> (case attribute_mismatch pathMatch normalizedVendor (id_usbVendorId pathMatch)
                           ReasonUsbVendorMismatch of
           Some result \<Rightarrow> result
         | None \<Rightarrow> (case attribute_mismatch pathMatch normalizedProduct (id_usbProductId pathMatch)
                           ReasonUsbProductMismatch of
           Some result \<Rightarrow> result
         | None \<Rightarrow> \<lparr>resolution_state = LockMatched,
                    resolution_reason = (if pathOnly expected then ReasonPathOnlyIdentity else ReasonNone),
                    resolution_identity = Some pathMatch\<rparr>))))"

definition ResolveAdapter ::
  "AdapterIdentity list \<Rightarrow> string \<Rightarrow> AdapterIdentityLock option \<Rightarrow> bool \<Rightarrow> AdapterResolution" where
  "ResolveAdapter adapters preferredInterface lock runtimeUnlocked =
     (case (if runtimeUnlocked then None else lock) of
        None \<Rightarrow>
          (case find_preferred adapters preferredInterface of
             None \<Rightarrow> \<lparr>resolution_state = LockMissing, resolution_reason = ReasonInterfaceMissing,
                     resolution_identity = None\<rparr>
           | Some selected \<Rightarrow>
              \<lparr>resolution_state = (if runtimeUnlocked then LockRuntimeUnlocked else LockUnlocked),
               resolution_reason = ReasonNone, resolution_identity = Some selected\<rparr>)
      | Some expected \<Rightarrow>
          (case find (\<lambda>identity. id_idPath identity = lock_idPath expected) adapters of
             None \<Rightarrow>
               let preferred = find_preferred adapters preferredInterface;
                   normalizedExpectedMac = Option.bind (lock_permanentMac expected) NormalizeMac;
                   relatedIdentity = list_ex (\<lambda>identity.
                       normalizedExpectedMac \<noteq> None \<and> id_permanentMac identity = normalizedExpectedMac
                       \<or> lock_usbSerial expected \<noteq> None \<and> id_usbSerial identity = lock_usbSerial expected)
                     adapters;
                   known = (preferred \<noteq> None \<or> relatedIdentity)
               in \<lparr>resolution_state = (if known then LockMismatch else LockMissing),
                   resolution_reason = (if known then ReasonIdPathMismatch else ReasonInterfaceMissing),
                   resolution_identity = preferred\<rparr>
           | Some pathMatch \<Rightarrow>
               if length (filter (\<lambda>identity. id_idPath identity = lock_idPath expected) adapters) \<noteq> 1
               then \<lparr>resolution_state = LockMismatch, resolution_reason = ReasonIdentityUnavailable,
                     resolution_identity = None\<rparr>
               else resolve_attributes expected pathMatch))"

section \<open>Normal forms are fixed points\<close>

lemmas char_class_defs = isspace_def isxdigit_def isdigit_def isalnum_def tolower_def

definition lower_hex :: "char \<Rightarrow> bool" where
  "lower_hex c \<longleftrightarrow> isxdigit c \<and> tolower c = c"

lemma lower_hex_tolower: "isxdigit c \<Longrightarrow> lower_hex (tolower c)"
  by (auto simp: lower_hex_def char_class_defs)

lemma lower_hex_not_space: "lower_hex c \<Longrightarrow> \<not> isspace c"
  by (auto simp: lower_hex_def char_class_defs)

lemma mac_digits_acc:
  "mac_digits acc s = map_option (\<lambda>d. acc @ d) (mac_digits [] s)"
proof (induction s arbitrary: acc)
  case (Cons c s)
  show ?case
    using Cons.IH [of "acc @ [tolower c]"] Cons.IH [of "[tolower c]"] Cons.IH [of acc]
    by (simp add: option.map_comp comp_def)
qed simp

lemma mac_digits_lower: "mac_digits acc s = Some h \<Longrightarrow> list_all lower_hex acc \<Longrightarrow> list_all lower_hex h"
  by (induction acc s rule: mac_digits.induct) (auto simp: lower_hex_tolower split: if_splits)

lemma mac_digits_tolower: "mac_digits acc (map tolower s) = mac_digits acc s"
proof (induction acc s rule: mac_digits.induct)
  case (2 acc c rest)
  have "isxdigit (tolower c) = isxdigit c" "isspace (tolower c) = isspace c"
    "tolower (tolower c) = tolower c" "tolower c = CHR '':'' \<longleftrightarrow> c = CHR '':''"
    "tolower c = CHR ''-'' \<longleftrightarrow> c = CHR ''-''"
    by (auto simp: char_class_defs dest!: arg_cong [where f = char_code])
  with 2 show ?case by simp
qed simp

lemma mac_digits_groups:
  assumes "length h = 12" and "list_all lower_hex h"
  shows "mac_digits [] (mac_groups [] h) = Some h" and "length (mac_groups [] h) = 17"
proof -
  from assms(1) obtain a b c d e f g i j k l m where h: "h = [a, b, c, d, e, f, g, i, j, k, l, m]"
    by (auto simp: numeral_eq_Suc length_Suc_conv)
  have colon: "\<not> isxdigit CHR '':''" by (simp add: char_class_defs)
  show "length (mac_groups [] h) = 17" by (simp add: h)
  show "mac_digits [] (mac_groups [] h) = Some h"
    using assms(2) by (simp add: h colon lower_hex_def)
qed

lemma NormalizeMac_idem:
  assumes "NormalizeMac s = Some m"
  shows "NormalizeMac m = Some m"
proof -
  from assms obtain h where h: "mac_digits [] s = Some h" "length h = 12" "m = mac_groups [] h"
    by (auto simp: NormalizeMac_def Let_def split: option.splits if_splits)
  from mac_digits_lower [OF h(1)] have "list_all lower_hex h" by simp
  with h(2,3) have "mac_digits [] m = Some h" by (simp add: mac_digits_groups)
  with assms h(1) show ?thesis by (simp add: NormalizeMac_def)
qed

lemma TrimAscii_id: "list_all (\<lambda>c. \<not> isspace c) v \<Longrightarrow> TrimAscii v = v"
proof -
  have "dropWhile isspace v = v" if "list_all (\<lambda>c. \<not> isspace c) v" for v
    using that by (cases v) simp_all
  then show "list_all (\<lambda>c. \<not> isspace c) v \<Longrightarrow> TrimAscii v = v"
    by (simp add: TrimAscii_def list_all_rev)
qed

lemma NormalizeUsbId_lower:
  assumes "NormalizeUsbId s = Some v"
  shows "length v = 4" and "list_all lower_hex v"
  using assms
  by (auto simp: NormalizeUsbId_def Let_def list_all_iff lower_hex_tolower split: if_splits)

lemma NormalizeUsbId_idem:
  assumes "NormalizeUsbId s = Some v"
  shows "NormalizeUsbId v = Some v"
proof -
  note v = NormalizeUsbId_lower [OF assms]
  from v have trim: "TrimAscii v = v"
    by (intro TrimAscii_id) (auto simp: list_all_iff lower_hex_not_space)
  have hex: "isxdigit c" "tolower c = c" if "c \<in> set v" for c
    using v(2) that by (auto simp: list_all_iff lower_hex_def)
  have x: "\<not> isxdigit CHR ''x''" "\<not> isxdigit CHR ''X''" by (simp_all add: char_class_defs)
  from v(1) obtain a b c d where abcd: "v = [a, b, c, d]"
    by (auto simp: numeral_eq_Suc length_Suc_conv)
  with hex x have "b \<noteq> CHR ''x''" "b \<noteq> CHR ''X''" by auto
  with abcd hex trim show ?thesis
    by (simp add: NormalizeUsbId_def Let_def starts_with_def)
qed

section \<open>What a lock accepts\<close>

definition lock_accepts :: "AdapterIdentityLock \<Rightarrow> AdapterIdentity \<Rightarrow> bool" where
  "lock_accepts l i \<longleftrightarrow>
     id_idPath i = lock_idPath l
     \<and> (\<forall>mac. lock_permanentMac l = Some mac \<longrightarrow> id_permanentMac i = NormalizeMac mac)
     \<and> (\<forall>serial. lock_usbSerial l = Some serial \<longrightarrow> id_usbSerial i = Some serial)
     \<and> (\<forall>v. lock_usbVendorId l = Some v \<longrightarrow> id_usbVendorId i = NormalizeUsbId v)
     \<and> (\<forall>v. lock_usbProductId l = Some v \<longrightarrow> id_usbProductId i = NormalizeUsbId v)"

lemma attribute_mismatch_None:
  "attribute_mismatch i e obs r = None \<longleftrightarrow> e = None \<or> e = obs"
  by (auto simp: attribute_mismatch_def split: option.splits)

lemma attribute_mismatch_Some:
  "attribute_mismatch i e obs r = Some x \<Longrightarrow>
     resolution_state x = LockMismatch \<and> resolution_identity x = Some i"
  by (auto simp: attribute_mismatch_def split: option.splits if_splits)

lemma resolve_attributes_state:
  "resolution_state (resolve_attributes l i) \<in> {LockMatched, LockMismatch}
   \<and> resolution_identity (resolve_attributes l i) = Some i"
  by (auto simp: resolve_attributes_def Let_def dest: attribute_mismatch_Some split: option.splits)

lemma resolve_attributes_chain:
  "resolution_state (resolve_attributes l i) = LockMatched \<longleftrightarrow>
     attribute_mismatch i (Option.bind (lock_permanentMac l) NormalizeMac) (id_permanentMac i)
       ReasonPermanentMacMismatch = None
     \<and> attribute_mismatch i (lock_usbSerial l) (id_usbSerial i) ReasonUsbSerialMismatch = None
     \<and> attribute_mismatch i (Option.bind (lock_usbVendorId l) NormalizeUsbId) (id_usbVendorId i)
          ReasonUsbVendorMismatch = None
     \<and> attribute_mismatch i (Option.bind (lock_usbProductId l) NormalizeUsbId) (id_usbProductId i)
          ReasonUsbProductMismatch = None"
  by (simp add: resolve_attributes_def Let_def attribute_mismatch_Some split: option.split)

lemma resolve_attributes_matched:
  assumes "ValidateAdapterLock l = None" and "id_idPath i = lock_idPath l"
  shows "resolution_state (resolve_attributes l i) = LockMatched \<longleftrightarrow> lock_accepts l i"
proof -
  have mac: "Option.bind (lock_permanentMac l) NormalizeMac = None \<longleftrightarrow> lock_permanentMac l = None"
    using assms(1) by (cases "lock_permanentMac l") (simp_all add: ValidateAdapterLock_def split: if_split_asm)
  have vendor: "Option.bind (lock_usbVendorId l) NormalizeUsbId = None \<longleftrightarrow> lock_usbVendorId l = None"
    using assms(1) by (cases "lock_usbVendorId l") (simp_all add: ValidateAdapterLock_def split: if_split_asm)
  have product: "Option.bind (lock_usbProductId l) NormalizeUsbId = None \<longleftrightarrow> lock_usbProductId l = None"
    using assms(1) by (cases "lock_usbProductId l") (simp_all add: ValidateAdapterLock_def split: if_split_asm)
  have "resolution_state (resolve_attributes l i) = LockMatched \<longleftrightarrow>
      (lock_permanentMac l = None \<or> Option.bind (lock_permanentMac l) NormalizeMac = id_permanentMac i)
      \<and> (lock_usbSerial l = None \<or> lock_usbSerial l = id_usbSerial i)
      \<and> (lock_usbVendorId l = None \<or> Option.bind (lock_usbVendorId l) NormalizeUsbId = id_usbVendorId i)
      \<and> (lock_usbProductId l = None \<or> Option.bind (lock_usbProductId l) NormalizeUsbId = id_usbProductId i)"
    unfolding resolve_attributes_chain attribute_mismatch_None mac vendor product ..
  then show ?thesis using assms(2)
    by (cases "lock_permanentMac l"; cases "lock_usbSerial l"; cases "lock_usbVendorId l";
        cases "lock_usbProductId l") (auto simp: lock_accepts_def)
qed

lemma find_eq_hd_filter:
  "find P xs = (case filter P xs of [] \<Rightarrow> None | x # _ \<Rightarrow> Some x)"
  by (induction xs) auto

text \<open>
  C28: a locked bus only ever runs on the adapter it is locked to. For a lock that passed
  validation, resolution reports a match exactly when one adapter alone has the locked ID path
  and every further locked attribute of that adapter is present and equal in normal form; the identity
  returned is then that adapter. Neither the preferred interface name nor the order of the scan can
  turn anything else into a match, and every other outcome is Missing or Mismatch.
\<close>

theorem locked_adapter_exact:
  assumes "ValidateAdapterLock l = None"
  shows "(resolution_state (ResolveAdapter adapters preferred (Some l) False) = LockMatched \<longleftrightarrow>
            (\<exists>i. filter (\<lambda>i. id_idPath i = lock_idPath l) adapters = [i] \<and> lock_accepts l i))
    \<and> (\<forall>i. filter (\<lambda>i. id_idPath i = lock_idPath l) adapters = [i] \<longrightarrow> lock_accepts l i \<longrightarrow>
            resolution_identity (ResolveAdapter adapters preferred (Some l) False) = Some i)
    \<and> resolution_state (ResolveAdapter adapters preferred (Some l) False)
        \<in> {LockMatched, LockMismatch, LockMissing}"
proof (cases "filter (\<lambda>i. id_idPath i = lock_idPath l) adapters")
  case Nil
  then show ?thesis by (simp add: ResolveAdapter_def find_eq_hd_filter Let_def)
next
  case (Cons i rest)
  then have "id_idPath i = lock_idPath l"
    by (metis (mono_tags, lifting) filter_eq_ConsD)
  with Cons assms show ?thesis
    using resolve_attributes_state [of l i] resolve_attributes_matched [of l i]
    by (cases rest) (auto simp: ResolveAdapter_def find_eq_hd_filter)
qed

definition example_lock :: AdapterIdentityLock where
  "example_lock = \<lparr>lock_idPath = ''pci-0000:00:14.0-usb-0:2:1.0'',
     lock_permanentMac = Some ''00-1B-21-AB-CD-EF'', lock_usbSerial = None,
     lock_usbVendorId = Some ''0x0B95'', lock_usbProductId = None\<rparr>"

definition example_adapter :: AdapterIdentity where
  "example_adapter = \<lparr>id_interfaceName = ''eth1'', id_idPath = ''pci-0000:00:14.0-usb-0:2:1.0'',
     id_permanentMac = Some ''00:1b:21:ab:cd:ef'', id_usbSerial = Some ''A1'',
     id_usbVendorId = Some ''0b95'', id_usbProductId = Some ''1790'',
     id_ethernet = True, id_linkUp = True\<rparr>"

theorem locked_adapter_exact_witness:
  "ValidateAdapterLock example_lock = None
   \<and> resolution_state (ResolveAdapter [example_adapter] ''usb7'' (Some example_lock) False) = LockMatched
   \<and> lock_accepts example_lock example_adapter"
proof -
  have valid: "ValidateAdapterLock example_lock = None" by code_simp
  have matched: "resolution_state (ResolveAdapter [example_adapter] ''usb7'' (Some example_lock) False)
      = LockMatched" by code_simp
  from locked_adapter_exact [OF valid, of "[example_adapter]" "''usb7''"] matched valid
  show ?thesis by (auto split: if_splits)
qed

lemma parent_attribute_normal:
  "parent_attribute fuel scanner fs device attribute True = Some v \<Longrightarrow> NormalizeUsbId v = Some v"
  by (induction fuel arbitrary: device)
    (auto intro: NormalizeUsbId_idem split: if_splits option.splits)

lemma ReadPermanentMac_normal: "ReadPermanentMac fs p = Some m \<Longrightarrow> NormalizeMac m = Some m"
  by (auto simp: ReadPermanentMac_def Let_def intro: NormalizeMac_idem split: if_splits option.splits)

definition normal_identity :: "AdapterIdentity \<Rightarrow> bool" where
  "normal_identity i \<longleftrightarrow>
     id_ethernet i \<and> id_interfaceName i \<noteq> [] \<and> length (id_interfaceName i) \<le> 255
     \<and> id_interfaceName i \<noteq> ''lo''
     \<and> (id_idPath i = [] \<or> length (id_idPath i) \<le> 1024 \<and> printableAscii (id_idPath i))
     \<and> (\<forall>m. id_permanentMac i = Some m \<longrightarrow> NormalizeMac m = Some m)
     \<and> (\<forall>v. id_usbVendorId i = Some v \<longrightarrow> NormalizeUsbId v = Some v)
     \<and> (\<forall>v. id_usbProductId i = Some v \<longrightarrow> NormalizeUsbId v = Some v)"

lemma ReadParentAttribute_normal:
  "ReadParentAttribute scanner fs device attribute True = Some v \<Longrightarrow> NormalizeUsbId v = Some v"
  by (auto simp: ReadParentAttribute_def intro: parent_attribute_normal split: option.splits)

lemma scan_entry_normal:
  assumes "scan_entry scanner fs name = Some i"
  shows "normal_identity i"
proof -
  let ?entry = "scanner_root scanner @ [''class'', ''net'', name]"
  have name: "name \<noteq> []" "length name \<le> 255" "name \<noteq> ''lo''"
    using assms by (auto simp: scan_entry_def Let_def split: if_splits)
  let ?device = "scan_device scanner fs ?entry"
  have i: "id_interfaceName i = name" "id_ethernet i"
    "id_idPath i = (if IsBoundedPrintableAscii (ReadIdPath scanner fs ?entry ?device) 1024
                    then ReadIdPath scanner fs ?entry ?device else [])"
    "id_permanentMac i = ReadPermanentMac fs ?entry"
    "id_usbVendorId i = ReadParentAttribute scanner fs ?device ''idVendor'' True"
    "id_usbProductId i = ReadParentAttribute scanner fs ?device ''idProduct'' True"
    using assms by (auto simp: scan_entry_def Let_def split: if_split_asm)
  show ?thesis
    unfolding normal_identity_def i(1,3-)
    using name i(2) by (auto simp: IsBoundedPrintableAscii_def printableAscii_def
        dest: ReadPermanentMac_normal ReadParentAttribute_normal)
qed

lemma scan_loop_normal:
  "length adapters \<le> 256 \<Longrightarrow> list_all normal_identity adapters \<Longrightarrow>
   list_all normal_identity (snd (scan_loop scanner fs adapters entries))
   \<and> length (snd (scan_loop scanner fs adapters entries)) \<le> 256"
  by (induction scanner fs adapters entries rule: scan_loop.induct)
    (auto intro: scan_entry_normal split: option.split)

text \<open>
  C35: what the scanner reports is already in normal form, so that comparing it with a normalised lock
  compares hardware and not spelling. However the file system looks, and whatever error is reported,
  every adapter of a scan is an Ethernet interface with a name of 1 to 255 characters other than
  the loopback, its ID path is empty or bounded printable ASCII, its MAC address and USB
  identifiers are fixed points of the normalisation, at most 256 adapters are returned and they are
  sorted by ID path and interface name.
\<close>

theorem scan_reports_normal_forms:
  "(\<forall>i \<in> set (snd (Scan scanner fs)).
      id_ethernet i \<and> id_interfaceName i \<noteq> [] \<and> length (id_interfaceName i) \<le> 255
      \<and> id_interfaceName i \<noteq> ''lo''
      \<and> (id_idPath i = [] \<or> length (id_idPath i) \<le> 1024 \<and> printableAscii (id_idPath i))
      \<and> (\<forall>m. id_permanentMac i = Some m \<longrightarrow> NormalizeMac m = Some m)
      \<and> (\<forall>v. id_usbVendorId i = Some v \<longrightarrow> NormalizeUsbId v = Some v)
      \<and> (\<forall>v. id_usbProductId i = Some v \<longrightarrow> NormalizeUsbId v = Some v))
   \<and> length (snd (Scan scanner fs)) \<le> 256
   \<and> sorted (map (\<lambda>i. (id_idPath i, id_interfaceName i)) (snd (Scan scanner fs)))"
  using scan_loop_normal [of "[]" scanner fs]
  by (auto simp: Scan_def list_all_iff normal_identity_def [symmetric] split_beta split: option.split)

definition example_scanner :: SysfsAdapterScanner where
  "example_scanner = \<lparr>scanner_root = [''sys''], scanner_udevDataRoot = [''run'', ''udev'', ''data'']\<rparr>"

definition example_files :: "(path \<times> string) list" where
  "example_files =
     [([''sys'', ''class'', ''net'', ''eth1'', ''type''], ''1'' @ [newline]),
      ([''sys'', ''class'', ''net'', ''eth1'', ''carrier''], ''1'' @ [newline]),
      ([''sys'', ''class'', ''net'', ''eth1'', ''ifindex''], ''3'' @ [newline]),
      ([''sys'', ''class'', ''net'', ''eth1'', ''address''], ''00:1B:21:AB:CD:EF'' @ [newline]),
      ([''run'', ''udev'', ''data'', ''n3''],
         ''I:1'' @ [newline] @ ''E:ID_PATH=pci-0000:00:14.0-usb-0:2:1.0'' @ [newline]),
      ([''sys'', ''devices'', ''usb2'', ''serial''], ''A1'' @ [newline]),
      ([''sys'', ''devices'', ''usb2'', ''idVendor''], ''0B95'' @ [newline]),
      ([''sys'', ''devices'', ''usb2'', ''idProduct''], ''1790'' @ [newline])]"

definition example_fs :: FileSystem where
  "example_fs =
     \<lparr>fs_read = map_of example_files,
      fs_canonical = (\<lambda>p. Some (if last p = ''device'' then [''sys'', ''devices'', ''usb2'', ''2-2''] else p)),
      fs_list = (\<lambda>p. Some [(''lo'', True), (''eth1'', True)])\<rparr>"

theorem scan_reports_normal_forms_witness:
  "Scan example_scanner example_fs = (None, [example_adapter])
   \<and> NormalizeMac ''00:1b:21:ab:cd:ef'' = Some ''00:1b:21:ab:cd:ef''"
proof -
  have scan: "Scan example_scanner example_fs = (None, [example_adapter])" by code_simp
  have mac: "id_permanentMac example_adapter = Some ''00:1b:21:ab:cd:ef''"
    by (simp add: example_adapter_def)
  from scan_reports_normal_forms [of example_scanner example_fs] scan mac show ?thesis by simp
qed

end
