(* ===== verification/Bus_State.thy ===== *)
theory Bus_State
  imports Wire_Format Bus_Topology Spsc_Queue Cycle_Timing Dc_Sync Realtime Adapter_Identity
begin

text \<open>
  The object \<^verbatim>\<open>EthercatBus\<close> of \<^verbatim>\<open>main.cpp\<close>: its fields as one record, the methods the daemon thread
  calls on it, and the helpers of its worker thread that act on a settled state. An atomic field is
  a plain field here; where the worker reads it while the daemon may be writing, the reading function
  of the cycle theory takes the daemon's operations as an argument. The cell that all
  buses share for the last faulted epoch is kept as this bus sees it.
\<close>

section \<open>Data\<close>

record InterfaceConfig =
  if_logicalName :: string
  if_physicalInterface :: string
  if_enabled :: bool
  if_lock :: "AdapterIdentityLock option"
  if_expectedSubDevices :: "ExpectedSubDevice list"
  if_maximumIoMapBytes :: nat
  if_distributedClock :: bool
  if_distributedClockShiftNs :: int
  if_allowUnverifiedTopology :: bool

text \<open>The valid bytes of the fixed-size data array; its length field is the length of the list.\<close>

record OutputCommand =
  cmd_epoch :: u64
  cmd_subDeviceIndex :: u16
  cmd_offset :: u32
  cmd_acceptedMonotonicUs :: u64
  cmd_data :: bytes

record InputChunk =
  chunk_header :: PdoInputPayload
  chunk_data :: bytes
  chunk_snapshotChunkIndex :: u16
  chunk_snapshotChunkCount :: u16

record BusSnapshot =
  snap_state :: BusState
  snap_linkUp :: bool
  snap_reinitializing :: bool
  snap_subDeviceCount :: u16
  snap_faults :: u16
  snap_lostFrames :: u64
  snap_cycleOverruns :: u64
  snap_currentJitterUs :: u32
  snap_maximumJitterUs :: u32
  snap_cycleSequence :: u64
  snap_schedulingMode :: SchedulingMode
  snap_realtimeErrorBits :: u8

record EthercatBus =
  bus_index :: u16
  bus_configuration :: InterfaceConfig
  bus_cyclePeriod :: int
  bus_outputCommandTimeout :: int
  bus_globalFaultedEpoch :: u64
  bus_interfaceName :: string
  bus_running :: bool
  bus_linkUp :: bool
  bus_outputsPermitted :: bool
  bus_safetyEpoch :: u64
  bus_safetyEpochApplied :: u64
  bus_inputPublicationPeriodUs :: u64
  bus_observedSafetyEpoch :: u64
  bus_outputsWerePermitted :: bool
  bus_lastOutputCommandUs :: "u64 list"
  bus_staleOutput :: "bool list"
  bus_staleOutputFaults :: u16
  bus_faultedEpoch :: u64
  bus_outputCommands :: "OutputCommand SpscQueue"
  bus_inputChunks :: "InputChunk SpscQueue"
  bus_devices :: "SubDevice list"
  bus_io :: IoMap
  bus_contextAttempted :: bool
  bus_contextOpen :: bool
  bus_dcConfigured :: bool
  bus_dcController :: DistributedClockController
  bus_expectedWorkingCounter :: int
  bus_state :: BusState
  bus_reinitializing :: bool
  bus_subDeviceCount :: u16
  bus_outputSizes :: "u32 list"
  bus_outputBits :: "u16 list"
  bus_faults :: u16
  bus_lostFrames :: u64
  bus_cycleOverruns :: u64
  bus_currentJitterUs :: u32
  bus_maximumJitterUs :: u32
  bus_cycleSequence :: u64
  bus_schedulingMode :: SchedulingMode
  bus_realtimeErrorBits :: u8
  bus_resetCounterSequence :: u64
  bus_faultSequence :: u64
  bus_faultReason :: DisableReason
  bus_outputTopologyVerified :: bool
  bus_dcSynchronized :: bool
  bus_inputChunkCursor :: nat

section \<open>Methods called by the daemon\<close>

definition bus_SetLinkUp :: "bool \<Rightarrow> EthercatBus \<Rightarrow> EthercatBus" where
  "bus_SetLinkUp linkUp b =
     (let b = (if \<not> linkUp then b\<lparr>bus_outputsPermitted := False\<rparr> else b)
      in b\<lparr>bus_linkUp := linkUp\<rparr>)"

definition bus_SetSafety :: "u64 \<Rightarrow> bool \<Rightarrow> EthercatBus \<Rightarrow> EthercatBus" where
  "bus_SetSafety epoch outputsPermitted b =
     (let b = b\<lparr>bus_safetyEpoch := epoch\<rparr>;
          faultLatched = (bus_faultedEpoch b = epoch \<or> bus_globalFaultedEpoch b = epoch)
      in b\<lparr>bus_outputsPermitted := (outputsPermitted \<and> \<not> faultLatched)\<rparr>)"

definition SetInputPublicationPeriod :: "int \<Rightarrow> EthercatBus \<Rightarrow> EthercatBus" where
  "SetInputPublicationPeriod periodMs b =
     (let microseconds = (if periodMs \<le> 0 then 0 else word_of_int periodMs * 1000)
      in b\<lparr>bus_inputPublicationPeriodUs := microseconds\<rparr>)"

definition SafetyBarrierComplete :: "EthercatBus \<Rightarrow> u64 \<Rightarrow> bool" where
  "SafetyBarrierComplete b epoch =
     (if bus_state b \<noteq> BusOperational then True else bus_safetyEpochApplied b = epoch)"

definition QueueOutput :: "OutputCommand \<Rightarrow> EthercatBus \<Rightarrow> bool \<times> EthercatBus" where
  "QueueOutput command b =
     (let (pushed, q) = TryPush command (bus_outputCommands b)
      in (pushed, b\<lparr>bus_outputCommands := q\<rparr>))"

definition ValidateOutput :: "EthercatBus \<Rightarrow> u16 \<Rightarrow> u32 \<Rightarrow> bytes \<Rightarrow> AckStatus" where
  "ValidateOutput b subDevice offset img =
     (if bus_state b \<noteq> BusOperational then AckDisabled
      else if subDevice = 0 \<or> subDevice > bus_subDeviceCount b
              \<or> unat subDevice \<ge> length (bus_outputSizes b)
      then AckBadTarget
      else let bounds = ValidateWholeOutputWrite (bus_outputSizes b ! unat subDevice) offset (length img)
           in if bounds \<noteq> AckOk then bounds
              else if HasCanonicalPdoPadding (bus_outputBits b ! unat subDevice) img
              then AckOk else AckMalformed)"

definition PopInput :: "EthercatBus \<Rightarrow> InputChunk option \<times> EthercatBus" where
  "PopInput b = (let (chunk, q) = TryPop (bus_inputChunks b) in (chunk, b\<lparr>bus_inputChunks := q\<rparr>))"

definition bus_ResetCounters :: "EthercatBus \<Rightarrow> EthercatBus" where
  "bus_ResetCounters b = b\<lparr>bus_resetCounterSequence := bus_resetCounterSequence b + 1\<rparr>"

definition Snapshot :: "EthercatBus \<Rightarrow> BusSnapshot" where
  "Snapshot b =
     \<lparr>snap_state = bus_state b, snap_linkUp = bus_linkUp b, snap_reinitializing = bus_reinitializing b,
      snap_subDeviceCount = bus_subDeviceCount b,
      snap_faults = of_nat (min 65535 (unat (bus_faults b) + unat (bus_staleOutputFaults b))),
      snap_lostFrames = bus_lostFrames b, snap_cycleOverruns = bus_cycleOverruns b,
      snap_currentJitterUs = bus_currentJitterUs b, snap_maximumJitterUs = bus_maximumJitterUs b,
      snap_cycleSequence = bus_cycleSequence b, snap_schedulingMode = bus_schedulingMode b,
      snap_realtimeErrorBits = bus_realtimeErrorBits b\<rparr>"

definition distributedClockHealthy :: "EthercatBus \<Rightarrow> bool" where
  "distributedClockHealthy b \<longleftrightarrow> \<not> if_distributedClock (bus_configuration b) \<or> bus_dcSynchronized b"

text \<open>The effect of \<^verbatim>\<open>Stop\<close> on the shared fields; it then waits for the worker, which runs \<open>worker_exit\<close>.\<close>

definition bus_Stop :: "EthercatBus \<Rightarrow> EthercatBus" where
  "bus_Stop b = b\<lparr>bus_outputsPermitted := False, bus_running := False\<rparr>"

definition bus_Start :: "string \<Rightarrow> bool \<Rightarrow> u64 \<Rightarrow> EthercatBus \<Rightarrow> EthercatBus" where
  "bus_Start interfaceName linkUp epoch b =
     (bus_Stop b)\<lparr>bus_interfaceName := interfaceName, bus_linkUp := linkUp, bus_safetyEpoch := epoch,
        bus_safetyEpochApplied := 0, bus_observedSafetyEpoch := 0, bus_outputsPermitted := False,
        bus_running := True\<rparr>"

section \<open>Helpers of the worker\<close>

definition ZeroOutputs :: "EthercatBus \<Rightarrow> EthercatBus" where
  "ZeroOutputs b =
     (if \<not> bus_contextOpen b then b else b\<lparr>bus_io := zero_outputs (bus_devices b) (bus_io b)\<rparr>)"

definition RaiseFault :: "DisableReason \<Rightarrow> EthercatBus \<Rightarrow> EthercatBus" where
  "RaiseFault reason b =
     (let epoch = bus_safetyEpoch b
      in b\<lparr>bus_faultedEpoch := epoch, bus_globalFaultedEpoch := epoch, bus_outputsPermitted := False,
           bus_faultReason := reason,
           bus_faultSequence := AtomicSaturatingIncrement 1 [] (bus_faultSequence b)\<rparr>)"

definition ReceiveTimeoutUs :: "EthercatBus \<Rightarrow> int" where
  "ReceiveTimeoutUs b = min (max (bus_cyclePeriod b sdiv 2) 500) 2000"

definition command_timeout_us :: "EthercatBus \<Rightarrow> u64" where
  "command_timeout_us b = word_of_int (bus_outputCommandTimeout b) * 1000"

text \<open>One turn of the loop over popped commands; a \<^verbatim>\<open>continue\<close> leaves the bus as it is.\<close>

definition apply_command :: "u64 \<Rightarrow> bool \<Rightarrow> u64 \<Rightarrow> OutputCommand \<Rightarrow> EthercatBus \<Rightarrow> EthercatBus" where
  "apply_command epoch permitted now command b =
     (let index = unat (cmd_subDeviceIndex command)
      in if \<not> permitted \<or> cmd_epoch command \<noteq> epoch \<or> index = 0 \<or> index > length (bus_devices b) then b
         else if cmd_acceptedMonotonicUs command = 0 \<or> now < cmd_acceptedMonotonicUs command
                 \<or> now - cmd_acceptedMonotonicUs command > command_timeout_us b then b
         else case write_device (bus_devices b ! (index - 1)) (cmd_offset command) (cmd_data command) (bus_io b) of
                None \<Rightarrow> b
              | Some io \<Rightarrow>
                  b\<lparr>bus_io := io,
                    bus_lastOutputCommandUs := (bus_lastOutputCommandUs b)[index := cmd_acceptedMonotonicUs command],
                    bus_staleOutput := (bus_staleOutput b)[index := False]\<rparr>)"

text \<open>The loop pops until the queue is empty; its fuel is the capacity, which no content reaches.\<close>

primrec apply_commands :: "nat \<Rightarrow> u64 \<Rightarrow> bool \<Rightarrow> u64 \<Rightarrow> EthercatBus \<Rightarrow> EthercatBus" where
  "apply_commands 0 epoch permitted now b = b"
| "apply_commands (Suc fuel) epoch permitted now b =
     (case TryPop (bus_outputCommands b) of
        (None, q) \<Rightarrow> b
      | (Some command, q) \<Rightarrow>
          apply_commands fuel epoch permitted now
            (apply_command epoch permitted now command (b\<lparr>bus_outputCommands := q\<rparr>)))"

text \<open>The start of a permitted phase: outputs begin at zero and every SubDevice counts as fresh.\<close>

definition begin_permitted :: "u64 \<Rightarrow> EthercatBus \<Rightarrow> EthercatBus" where
  "begin_permitted now b =
     (let b = ZeroOutputs b; n = length (bus_devices b)
      in b\<lparr>bus_lastOutputCommandUs := fold (\<lambda>i xs. xs[i := now]) [1..<Suc n] (bus_lastOutputCommandUs b),
           bus_staleOutput := fold (\<lambda>i xs. xs[i := False]) [1..<Suc n] (bus_staleOutput b),
           bus_outputsWerePermitted := True\<rparr>)"

text \<open>One turn of the freshness loop, with the count of stale SubDevices.\<close>

definition enforce_freshness :: "u64 \<Rightarrow> nat \<Rightarrow> EthercatBus \<times> u16 \<Rightarrow> EthercatBus \<times> u16" where
  "enforce_freshness now index = (\<lambda>(b, staleCount).
     let sd = bus_devices b ! (index - 1)
     in if PdoImageByteLength (sd_Obits sd) = 0 \<or> sd_outputs sd = None then (b, staleCount)
        else let last = bus_lastOutputCommandUs b ! index;
                 b = (if last = 0 \<or> now < last \<or> now - last > command_timeout_us b
                      then b\<lparr>bus_io := zero_device sd (bus_io b),
                             bus_staleOutput := (bus_staleOutput b)[index := True]\<rparr>
                      else b)
             in (b, if bus_staleOutput b ! index \<and> staleCount \<noteq> - 1 then staleCount + 1 else staleCount))"

definition EnforcePerSubDeviceFreshness :: "u64 \<Rightarrow> EthercatBus \<Rightarrow> EthercatBus" where
  "EnforcePerSubDeviceFreshness now b =
     (if \<not> bus_outputsPermitted b then b
      else let (b, staleCount) = fold (enforce_freshness now) [1..<Suc (length (bus_devices b))] (b, 0)
           in b\<lparr>bus_staleOutputFaults := staleCount\<rparr>)"

definition CloseContext :: "EthercatBus \<Rightarrow> EthercatBus" where
  "CloseContext b =
     (let b = b\<lparr>bus_outputsPermitted := False, bus_subDeviceCount := 0,
                bus_outputSizes := map (\<lambda>_. 0) (bus_outputSizes b),
                bus_outputBits := map (\<lambda>_. 0) (bus_outputBits b),
                bus_outputTopologyVerified := False, bus_outputsWerePermitted := False,
                bus_staleOutputFaults := 0,
                bus_lastOutputCommandUs := map (\<lambda>_. 0) (bus_lastOutputCommandUs b),
                bus_staleOutput := map (\<lambda>_. False) (bus_staleOutput b)\<rparr>
      in if \<not> bus_contextAttempted b then b
         else let b = ZeroOutputs b
              in b\<lparr>bus_devices := [], bus_contextAttempted := False, bus_contextOpen := False,
                   bus_dcConfigured := False, bus_dcSynchronized := False, bus_expectedWorkingCounter := 0\<rparr>)"

end
