(* ===== verification/Bus_Cycle.thy ===== *)
theory Bus_Cycle
  imports Bus_State
begin

text \<open>
  The worker thread of \<^verbatim>\<open>EthercatBus\<close>: publication of inputs, one cycle of \<^verbatim>\<open>RunCyclic\<close>, the
  initialisation and the outer loop. Other threads act between any two accesses of the worker to shared
  fields; each such gap receives a list of atomic stores, arbitrary except where a hypothesis says
  otherwise. The EtherCAT master and the clocks are arguments of a cycle: the result of sending,
  the result of receiving as a function of the IO map, the reference clock and the times read.
\<close>

section \<open>Stores by other threads\<close>

datatype SharedStore =
    StoreEpoch u64
  | StorePermitted bool
  | StoreLinkUp bool
  | StoreRunning bool
  | StoreInputPeriod u64
  | StoreGlobalFault u64
  | IncrementResetSequence
  | PushCommand OutputCommand

primrec shared_store :: "SharedStore \<Rightarrow> EthercatBus \<Rightarrow> EthercatBus" where
  "shared_store (StoreEpoch e) b = b\<lparr>bus_safetyEpoch := e\<rparr>"
| "shared_store (StorePermitted p) b = b\<lparr>bus_outputsPermitted := p\<rparr>"
| "shared_store (StoreLinkUp l) b = b\<lparr>bus_linkUp := l\<rparr>"
| "shared_store (StoreRunning r) b = b\<lparr>bus_running := r\<rparr>"
| "shared_store (StoreInputPeriod p) b = b\<lparr>bus_inputPublicationPeriodUs := p\<rparr>"
| "shared_store (StoreGlobalFault e) b = b\<lparr>bus_globalFaultedEpoch := e\<rparr>"
| "shared_store IncrementResetSequence b = bus_ResetCounters b"
| "shared_store (PushCommand c) b = snd (QueueOutput c b)"

definition interfere :: "SharedStore list \<Rightarrow> EthercatBus \<Rightarrow> EthercatBus" where
  "interfere stores b = fold shared_store stores b"

section \<open>Publishing inputs\<close>

record InputRange =
  range_subDevice :: u16
  range_data :: nat
  range_size :: u32
  range_bitCount :: u16
  range_startBit :: u8
  range_mappedBytes :: u32
  range_firstOrdinal :: nat
  range_chunkCount :: nat

definition chunk_count :: "u32 \<Rightarrow> nat" where
  "chunk_count inputBytes = (unat inputBytes + kMaximumPdoChunk - 1) div kMaximumPdoChunk"

fun input_ranges :: "IoMap \<Rightarrow> nat \<Rightarrow> SubDevice list \<Rightarrow> nat \<Rightarrow> InputRange list \<times> nat" where
  "input_ranges io index [] totalChunks = ([], totalChunks)"
| "input_ranges io index (sd # rest) totalChunks =
     (let inputBytes = PdoImageByteLength (sd_Ibits sd);
          mappedBytes = PdoMappedByteLength (sd_Ibits sd) (sd_Istartbit sd)
      in case sd_inputs sd of
           None \<Rightarrow> input_ranges io (Suc index) rest totalChunks
         | Some p \<Rightarrow>
             if inputBytes = 0 \<or> \<not> PointerRangeInIoMap io (Some p) mappedBytes
             then input_ranges io (Suc index) rest totalChunks
             else let chunks = chunk_count inputBytes;
                      (ranges, total) = input_ranges io (Suc index) rest (totalChunks + chunks)
                  in (\<lparr>range_subDevice = of_nat index, range_data = p, range_size = inputBytes,
                       range_bitCount = sd_Ibits sd, range_startBit = sd_Istartbit sd,
                       range_mappedBytes = mappedBytes, range_firstOrdinal = totalChunks,
                       range_chunkCount = chunks\<rparr> # ranges, total))"

text \<open>The chunk with a given ordinal; nothing where the source leaves the loop.\<close>

definition input_chunk ::
  "EthercatBus \<Rightarrow> InputRange list \<Rightarrow> nat \<Rightarrow> u64 \<Rightarrow> u64 \<Rightarrow> nat \<Rightarrow> InputChunk option" where
  "input_chunk b ranges totalChunks epoch sequence count =
     (let ordinal = (bus_inputChunkCursor b + count) mod totalChunks
      in case find (\<lambda>r. ordinal \<ge> range_firstOrdinal r \<and> ordinal < range_firstOrdinal r + range_chunkCount r) ranges of
           None \<Rightarrow> None
         | Some rg \<Rightarrow>
             let chunkWithinRange = ordinal - range_firstOrdinal rg;
                 offset = of_nat (chunkWithinRange * kMaximumPdoChunk) :: u32;
                 len = unat (min (of_nat kMaximumPdoChunk) (range_size rg - offset))
             in (case ReadPackedPdoChunk (io_span (bus_io b) (range_data rg) (unat (range_mappedBytes rg)))
                       (range_startBit rg) (range_bitCount rg) offset len of
                  None \<Rightarrow> None
                | Some bs \<Rightarrow>
                    Some \<lparr>chunk_header = \<lparr>pdo_busIndex = bus_index b, pdo_subDeviceIndex = range_subDevice rg,
                             pdo_offset = offset, pdo_totalSize = range_size rg, pdo_epoch = epoch,
                             pdo_cycleSequence = sequence, pdo_data = []\<rparr>,
                          chunk_data = bs, chunk_snapshotChunkIndex = of_nat count,
                          chunk_snapshotChunkCount = of_nat totalChunks\<rparr>))"

fun publish_chunks ::
  "EthercatBus \<Rightarrow> InputRange list \<Rightarrow> nat \<Rightarrow> u64 \<Rightarrow> u64 \<Rightarrow> nat list \<Rightarrow> InputChunk SpscQueue \<Rightarrow> nat \<Rightarrow>
   InputChunk SpscQueue \<times> nat" where
  "publish_chunks b ranges totalChunks epoch sequence [] q published = (q, published)"
| "publish_chunks b ranges totalChunks epoch sequence (count # counts) q published =
     (case input_chunk b ranges totalChunks epoch sequence count of
        None \<Rightarrow> (q, published)
      | Some chunk \<Rightarrow>
          (case TryPush chunk q of
             (False, q) \<Rightarrow> (q, published)
           | (True, q) \<Rightarrow> publish_chunks b ranges totalChunks epoch sequence counts q (Suc published)))"

definition kMaximumChunksPerPublication :: nat where
  "kMaximumChunksPerPublication = 128"

definition PublishInputs :: "EthercatBus \<Rightarrow> EthercatBus" where
  "PublishInputs b =
     (let (ranges, totalChunks) = input_ranges (bus_io b) 1 (bus_devices b) 0
      in if totalChunks = 0 then b\<lparr>bus_inputChunkCursor := 0\<rparr>
         else if totalChunks > kMaximumChunksPerPublication
                 \<or> AvailableToWrite (bus_inputChunks b) < totalChunks then b
         else let publishLimit = min totalChunks kMaximumChunksPerPublication;
                  (q, publishedChunks) =
                    publish_chunks b ranges totalChunks (bus_safetyEpoch b) (bus_cycleSequence b)
                      [0..<publishLimit] (bus_inputChunks b) 0
              in b\<lparr>bus_inputChunks := q,
                   bus_inputChunkCursor := (bus_inputChunkCursor b + publishedChunks) mod totalChunks\<rparr>)"

section \<open>One cycle\<close>

record CycleEnv =
  env_stores :: "nat \<Rightarrow> SharedStore list"
  env_sleepResult :: int
  env_wake :: "timespec option"
  env_applyNow :: u64
  env_freshNow :: u64
  env_sent :: int
  env_receive :: "IoMap \<Rightarrow> int \<times> IoMap"
  env_DCtime :: int
  env_nowMicros :: u64
  env_after :: "timespec option"

record CycleLocals =
  loc_next :: timespec
  loc_observedReset :: u64
  loc_misses :: nat
  loc_observedInputPeriod :: u64
  loc_nextInputPublication :: u64

definition ApplyOutputCommands ::
  "SharedStore list \<Rightarrow> SharedStore list \<Rightarrow> u64 \<Rightarrow> EthercatBus \<Rightarrow> EthercatBus" where
  "ApplyOutputCommands stores1 stores2 now b =
     (let b = interfere stores1 b; epoch = bus_safetyEpoch b;
          b = interfere stores2 b; permitted = bus_outputsPermitted b;
          b = (if permitted \<and> \<not> bus_outputsWerePermitted b then begin_permitted now b else b)
      in apply_commands (Capacity (bus_outputCommands b)) epoch permitted now b)"

definition force_zero :: "EthercatBus \<Rightarrow> EthercatBus" where
  "force_zero b = (ZeroOutputs b)\<lparr>bus_outputsWerePermitted := False\<rparr>"

text \<open>
  The checks between the start of a cycle and its transmission. The stores of the gaps inside the
  command branch happen in the barrier branch too, after the outputs were cleared.
\<close>

definition cycle_command_phase :: "CycleEnv \<Rightarrow> EthercatBus \<Rightarrow> bool \<times> EthercatBus" where
  "cycle_command_phase e b =
     (let b = interfere (env_stores e 0) b;
          activeEpoch = bus_safetyEpoch b;
          epochBarrier = (activeEpoch \<noteq> bus_observedSafetyEpoch b);
          b = (if epochBarrier
               then interfere (env_stores e 1 @ env_stores e 2 @ env_stores e 3)
                      (force_zero (b\<lparr>bus_observedSafetyEpoch := activeEpoch\<rparr>))
               else EnforcePerSubDeviceFreshness (env_freshNow e) (interfere (env_stores e 3)
                      (ApplyOutputCommands (env_stores e 1) (env_stores e 2) (env_applyNow e) b)));
          b = interfere (env_stores e 4) b
      in (epochBarrier, if epochBarrier \<or> \<not> bus_outputsPermitted b then force_zero b else b))"

definition cycle_recheck_phase :: "CycleEnv \<Rightarrow> bool \<Rightarrow> EthercatBus \<Rightarrow> bool \<times> EthercatBus" where
  "cycle_recheck_phase e epochBarrier b =
     (let b = interfere (env_stores e 5) b;
          transmitEpoch = bus_safetyEpoch b;
          moved = (transmitEpoch \<noteq> bus_observedSafetyEpoch b);
          b = (if moved then force_zero (b\<lparr>bus_observedSafetyEpoch := transmitEpoch\<rparr>) else b);
          b = interfere (env_stores e 6) b;
          b = (if \<not> bus_outputsPermitted b then force_zero b else b);
          b = interfere (env_stores e 7) b;
          b = (if bus_globalFaultedEpoch b = bus_observedSafetyEpoch b then force_zero b else b)
      in (epochBarrier \<or> moved, b))"

definition cycle_outputs :: "CycleEnv \<Rightarrow> EthercatBus \<Rightarrow> bool \<times> EthercatBus" where
  "cycle_outputs e b =
     (let (epochBarrier, b) = cycle_command_phase e b in cycle_recheck_phase e epochBarrier b)"

definition clock_fault :: "EthercatBus \<Rightarrow> EthercatBus" where
  "clock_fault b =
     RaiseFault DrProcessDataFault (b\<lparr>bus_realtimeErrorBits := bus_realtimeErrorBits b OR RealtimeClockError\<rparr>)"

text \<open>The fault exit: outputs are cleared and a frame with cleared outputs is sent before the fault is raised.\<close>

definition process_data_fault :: "EthercatBus \<Rightarrow> EthercatBus" where
  "process_data_fault b =
     (RaiseFault DrProcessDataFault
        (ZeroOutputs (b\<lparr>bus_faults := 1, bus_outputsPermitted := False\<rparr>)))\<lparr>bus_state := BusFault\<rparr>"

text \<open>Start of the cycle: jitter and counter reset.\<close>

definition cycle_begin :: "timespec \<Rightarrow> CycleLocals \<Rightarrow> EthercatBus \<Rightarrow> CycleLocals \<times> EthercatBus" where
  "cycle_begin wake loc b =
     (let jitter = DifferenceMicros wake (loc_next loc);
          b = b\<lparr>bus_currentJitterUs := jitter,
                bus_maximumJitterUs := AtomicMaximum jitter [] (bus_maximumJitterUs b)\<rparr>;
          reset = bus_resetCounterSequence b
      in if reset \<noteq> loc_observedReset loc
         then (loc\<lparr>loc_observedReset := reset\<rparr>,
               b\<lparr>bus_lostFrames := 0, bus_cycleOverruns := 0, bus_maximumJitterUs := 0\<rparr>)
         else (loc, b))"

text \<open>Exchange of process data: the barrier is published only after a complete exchange under the same epoch.\<close>

definition cycle_exchange :: "CycleEnv \<Rightarrow> bool \<Rightarrow> EthercatBus \<Rightarrow> int \<times> EthercatBus" where
  "cycle_exchange e epochBarrier b =
     (let (workingCounter, b) =
            (if env_sent e > 0
             then (let (wkc, io) = env_receive e (bus_io b) in (wkc, b\<lparr>bus_io := io\<rparr>))
             else (- 1, b));
          b = interfere (env_stores e 8) b;
          b = (if epochBarrier \<and> env_sent e > 0 \<and> workingCounter \<ge> bus_expectedWorkingCounter b
                  \<and> bus_safetyEpoch b = bus_observedSafetyEpoch b
               then b\<lparr>bus_safetyEpochApplied := bus_observedSafetyEpoch b\<rparr> else b)
      in (workingCounter, b\<lparr>bus_cycleSequence := AtomicSaturatingIncrement 1 [] (bus_cycleSequence b)\<rparr>))"

definition cycle_clock :: "CycleEnv \<Rightarrow> EthercatBus \<Rightarrow> DistributedClockAdjustment \<times> EthercatBus" where
  "cycle_clock e b =
     (let (adjustment, controller) = dc_Update (bus_dcController b) (env_DCtime e)
      in (adjustment,
          b\<lparr>bus_dcController := controller, bus_dcSynchronized := adj_synchronized adjustment,
            bus_realtimeErrorBits :=
              (if adj_synchronized adjustment
               then bus_realtimeErrorBits b AND NOT RealtimeDistributedClockUnlocked
               else bus_realtimeErrorBits b OR RealtimeDistributedClockUnlocked)\<rparr>))"

definition cycle_publish :: "CycleEnv \<Rightarrow> bool \<Rightarrow> CycleLocals \<Rightarrow> EthercatBus \<Rightarrow> CycleLocals \<times> EthercatBus" where
  "cycle_publish e complete loc b =
     (let now = env_nowMicros e;
          publicationPeriod = bus_inputPublicationPeriodUs b;
          loc = (if publicationPeriod \<noteq> loc_observedInputPeriod loc
                 then loc\<lparr>loc_observedInputPeriod := publicationPeriod,
                          loc_nextInputPublication := (if publicationPeriod = 0 then 0 else now + publicationPeriod)\<rparr>
                 else loc)
      in if complete \<and> publicationPeriod \<noteq> 0 \<and> now \<ge> loc_nextInputPublication loc
         then (loc\<lparr>loc_nextInputPublication := now + publicationPeriod\<rparr>, PublishInputs b)
         else (loc, b))"

text \<open>The body of the loop: whether the loop goes on, the local variables and the bus.\<close>

definition cycle_finish ::
  "CycleEnv \<Rightarrow> bool \<Rightarrow> int \<Rightarrow> CycleLocals \<Rightarrow> EthercatBus \<Rightarrow> bool \<times> CycleLocals \<times> EthercatBus" where
  "cycle_finish e complete correction loc b =
     (let (loc, b) = cycle_publish e complete loc b
      in case env_after e of
           None \<Rightarrow> (False, loc, clock_fault b)
         | Some after \<Rightarrow>
             (let (next, overruns) = advance_deadline (bus_cyclePeriod b) correction after (loc_next loc)
                                       (bus_cycleOverruns b)
              in (True, loc\<lparr>loc_next := next\<rparr>, b\<lparr>bus_cycleOverruns := overruns\<rparr>)))"

definition cycle_body :: "CycleEnv \<Rightarrow> CycleLocals \<Rightarrow> EthercatBus \<Rightarrow> bool \<times> CycleLocals \<times> EthercatBus" where
  "cycle_body e loc b =
     (if env_sleepResult e \<noteq> 0 then (False, loc, clock_fault b)
      else case env_wake e of
        None \<Rightarrow> (False, loc, clock_fault b)
      | Some wake \<Rightarrow>
          (let (loc, b) = cycle_begin wake loc b;
               (epochBarrier, b) = cycle_outputs e b;
               (workingCounter, b) = cycle_exchange e epochBarrier b;
               complete = (workingCounter \<ge> bus_expectedWorkingCounter b)
           in if \<not> complete \<and> loc_misses loc + 1 \<ge> 3
              then (False, loc, process_data_fault
                     (b\<lparr>bus_lostFrames := AtomicSaturatingIncrement 1 [] (bus_lostFrames b)\<rparr>))
              else let b = (if complete then b
                            else b\<lparr>bus_lostFrames := AtomicSaturatingIncrement 1 [] (bus_lostFrames b)\<rparr>);
                       loc = loc\<lparr>loc_misses := (if complete then 0 else loc_misses loc + 1)\<rparr>
                   in if complete \<and> bus_dcConfigured b
                      then (let (adjustment, b) = cycle_clock e b
                            in if adj_fault adjustment then (False, loc, process_data_fault b)
                               else cycle_finish e complete (adj_correctionNs adjustment) loc b)
                      else cycle_finish e complete 0 loc b))"

text \<open>The loop and what follows it, over a finite sequence of environments.\<close>

fun run_cycles :: "CycleEnv list \<Rightarrow> CycleLocals \<Rightarrow> EthercatBus \<Rightarrow> EthercatBus" where
  "run_cycles [] loc b = b"
| "run_cycles (e # es) loc b =
     (let b = interfere (env_stores e 9) b
      in if bus_running b \<and> bus_linkUp b \<and> bus_state b = BusOperational
         then (case cycle_body e loc b of
                 (True, loc, b) \<Rightarrow> run_cycles es loc b
               | (False, loc, b) \<Rightarrow> b)
         else if \<not> bus_linkUp b then RaiseFault DrLinkLoss b else b)"

definition RunCyclic :: "timespec option \<Rightarrow> CycleEnv list \<Rightarrow> EthercatBus \<Rightarrow> EthercatBus" where
  "RunCyclic start es b =
     (case start of
        None \<Rightarrow> clock_fault b
      | Some t \<Rightarrow>
          run_cycles es \<lparr>loc_next = AddToTimespec t (bus_cyclePeriod b),
             loc_observedReset = bus_resetCounterSequence b, loc_misses = 0,
             loc_observedInputPeriod = 0, loc_nextInputPublication = 0\<rparr> b)"

section \<open>What the worker may rely on\<close>

text \<open>The fields only the worker writes, as far as output images are concerned, and the shared fields it checks.\<close>

definition worker_view :: "EthercatBus \<Rightarrow> IoMap \<times> SubDevice list \<times> bool \<times> u64" where
  "worker_view b = (bus_io b, bus_devices b, bus_contextOpen b, bus_observedSafetyEpoch b)"

definition shared_view :: "EthercatBus \<Rightarrow> u64 \<times> bool \<times> u64" where
  "shared_view b = (bus_safetyEpoch b, bus_outputsPermitted b, bus_globalFaultedEpoch b)"

primrec view_store :: "SharedStore \<Rightarrow> u64 \<times> bool \<times> u64 \<Rightarrow> u64 \<times> bool \<times> u64" where
  "view_store (StoreEpoch e) v = (e, snd v)"
| "view_store (StorePermitted p) v = (fst v, p, snd (snd v))"
| "view_store (StoreGlobalFault e) v = (fst v, fst (snd v), e)"
| "view_store (StoreLinkUp l) v = v"
| "view_store (StoreRunning r) v = v"
| "view_store (StoreInputPeriod p) v = v"
| "view_store IncrementResetSequence v = v"
| "view_store (PushCommand c) v = v"

lemma interfere_append: "interfere (xs @ ys) b = interfere ys (interfere xs b)"
  by (simp add: interfere_def)

lemma worker_view_store: "worker_view (shared_store st b) = worker_view b"
  by (cases st) (simp_all add: worker_view_def bus_ResetCounters_def QueueOutput_def split_beta Let_def)

lemma worker_view_interfere [simp]: "worker_view (interfere stores b) = worker_view b"
  unfolding interfere_def by (induction stores arbitrary: b) (simp_all add: worker_view_store)

lemma interfere_view [simp]:
  "bus_io (interfere stores b) = bus_io b" "bus_devices (interfere stores b) = bus_devices b"
  "bus_contextOpen (interfere stores b) = bus_contextOpen b"
  "bus_observedSafetyEpoch (interfere stores b) = bus_observedSafetyEpoch b"
  using worker_view_interfere [of stores b] by (simp_all add: worker_view_def)

lemma shared_view_store: "shared_view (shared_store st b) = view_store st (shared_view b)"
  by (cases st) (simp_all add: shared_view_def bus_ResetCounters_def QueueOutput_def split_beta Let_def)

lemma shared_view_interfere: "shared_view (interfere stores b) = fold view_store stores (shared_view b)"
  unfolding interfere_def by (induction stores arbitrary: b) (simp_all add: shared_view_store)

section \<open>Where an output bit comes from\<close>

definition bit_from :: "OutputCommand set \<Rightarrow> u64 \<Rightarrow> SubDevice list \<Rightarrow> nat \<Rightarrow> nat \<Rightarrow> bool" where
  "bit_from Q epoch devices base j \<longleftrightarrow>
     (\<exists>c \<in> Q. cmd_epoch c = epoch \<and> 0 < unat (cmd_subDeviceIndex c)
        \<and> unat (cmd_subDeviceIndex c) \<le> length devices
        \<and> (let sd = devices ! (unat (cmd_subDeviceIndex c) - 1)
           in j \<in> device_bits base sd
              \<and> (\<exists>p. sd_outputs sd = Some p
                   \<and> pdo_bit (cmd_data c) (j - (8 * io_offset base p + unat (sd_Ostartbit sd))))))"

definition epoch_image :: "OutputCommand set \<Rightarrow> u64 \<Rightarrow> SubDevice list \<Rightarrow> IoMap \<Rightarrow> bool" where
  "epoch_image Q epoch devices io \<longleftrightarrow>
     (\<forall>sd \<in> set devices. \<forall>j \<in> device_bits (io_base io) sd.
        io_bit io j \<longrightarrow> bit_from Q epoch devices (io_base io) j)"

definition outputs_clear :: "EthercatBus \<Rightarrow> bool" where
  "outputs_clear b \<longleftrightarrow>
     (\<forall>sd \<in> set (bus_devices b). \<forall>j \<in> device_bits (io_base (bus_io b)) sd. \<not> io_bit (bus_io b) j)"

definition worker_ok :: "OutputCommand set \<Rightarrow> EthercatBus \<Rightarrow> bool" where
  "worker_ok Q b \<longleftrightarrow>
     bus_contextOpen b \<and> (\<forall>sd \<in> set (bus_devices b). device_ok (bus_io b) sd)
     \<and> queue_ok (bus_outputCommands b) \<and> set (queue_contents (bus_outputCommands b)) \<subseteq> Q"

definition pushes :: "SharedStore list \<Rightarrow> OutputCommand set" where
  "pushes stores = {c. PushCommand c \<in> set stores}"

lemma epoch_image_clear: "outputs_clear b \<Longrightarrow> epoch_image Q E (bus_devices b) (bus_io b)"
  by (auto simp: epoch_image_def outputs_clear_def)

lemma zero_device_image:
  assumes "epoch_image Q E devices io" and "device_ok io sd"
  shows "epoch_image Q E devices (zero_device sd io)"
  using assms zero_device_bits [OF assms(2)] by (auto simp: epoch_image_def io_shape_def)

lemma device_bits_Some:
  "sd_outputs sd = Some p \<Longrightarrow> device_bits base sd =
     {8 * io_offset base p + unat (sd_Ostartbit sd) ..< 8 * io_offset base p + unat (sd_Ostartbit sd) + unat (sd_Obits sd)}"
  by (simp add: device_bits_def)

lemma write_device_image:
  assumes "epoch_image Q E devices io" and "c \<in> Q" and "cmd_epoch c = E"
    and "0 < unat (cmd_subDeviceIndex c)" and "unat (cmd_subDeviceIndex c) \<le> length devices"
    and "device_ok io (devices ! (unat (cmd_subDeviceIndex c) - 1))"
    and "write_device (devices ! (unat (cmd_subDeviceIndex c) - 1)) off (cmd_data c) io = Some io'"
  shows "epoch_image Q E devices io'"
proof -
  let ?sd = "devices ! (unat (cmd_subDeviceIndex c) - 1)"
  note w = write_device_bits [OF assms(6,7)]
  have base: "io_base io' = io_base io" using w by (simp add: io_shape_def)
  obtain p where p: "sd_outputs ?sd = Some p"
    "\<And>i. i < unat (sd_Obits ?sd) \<Longrightarrow>
      io_bit io' (8 * io_offset (io_base io) p + unat (sd_Ostartbit ?sd) + i) = pdo_bit (cmd_data c) i"
    using w by blast
  have "bit_from Q E devices (io_base io) j" if bit: "io_bit io' j" and own: "j \<in> device_bits (io_base io) ?sd" for j
  proof -
    let ?k = "8 * io_offset (io_base io) p + unat (sd_Ostartbit ?sd)"
    have "?k \<le> j" "j - ?k < unat (sd_Obits ?sd)" using own unfolding device_bits_Some [OF p(1)] by auto
    with p(2) [of "j - ?k"] bit have "pdo_bit (cmd_data c) (j - ?k)" by simp
    with assms(2-5) own p(1) show ?thesis unfolding bit_from_def Let_def by blast
  qed
  moreover have "io_bit io' j = io_bit io j" if "j \<notin> device_bits (io_base io) ?sd" for j
    using w that write_device_bits [OF assms(6,7), of j] by blast
  ultimately show ?thesis using assms(1) unfolding epoch_image_def base by blast
qed

section \<open>The steps of a cycle keep the invariant\<close>

lemma worker_ok_store:
  assumes "worker_ok Q b" and "pushes [st] \<subseteq> Q"
  shows "worker_ok Q (shared_store st b)"
proof (cases st)
  case (PushCommand c)
  have q: "queue_ok (bus_outputCommands b)" using assms(1) by (simp add: worker_ok_def)
  have "c \<in> Q" using assms(2) PushCommand by (auto simp: pushes_def)
  then show ?thesis
    using assms(1) ring.push_ok [OF q, of c] ring.push_contents [OF q, of c]
    by (auto simp: PushCommand worker_ok_def QueueOutput_def split_beta Let_def split: if_splits)
qed (use assms(1) in \<open>simp_all add: worker_ok_def bus_ResetCounters_def\<close>)

lemma worker_ok_interfere:
  assumes "worker_ok Q b" and "pushes stores \<subseteq> Q"
  shows "worker_ok Q (interfere stores b)"
  using assms unfolding interfere_def
proof (induction stores arbitrary: b)
  case (Cons st stores)
  have "worker_ok Q (shared_store st b)"
    by (rule worker_ok_store) (use Cons.prems in \<open>auto simp: pushes_def\<close>)
  with Cons show ?case by (auto simp: pushes_def)
qed simp

lemma ZeroOutputs_fields [simp]:
  "bus_devices (ZeroOutputs b) = bus_devices b" "bus_contextOpen (ZeroOutputs b) = bus_contextOpen b"
  "bus_observedSafetyEpoch (ZeroOutputs b) = bus_observedSafetyEpoch b"
  "bus_outputCommands (ZeroOutputs b) = bus_outputCommands b"
  "shared_view (ZeroOutputs b) = shared_view b"
  by (simp_all add: ZeroOutputs_def shared_view_def)

lemma ZeroOutputs_ok:
  assumes "worker_ok Q b"
  shows "worker_ok Q (ZeroOutputs b)" and "outputs_clear (ZeroOutputs b)"
proof -
  have open_ctx: "bus_contextOpen b" and dev: "\<forall>sd \<in> set (bus_devices b). device_ok (bus_io b) sd"
    using assms by (simp_all add: worker_ok_def)
  note z = zero_outputs_bits [OF dev]
  have shape: "io_shape (bus_io (ZeroOutputs b)) = io_shape (bus_io b)"
    using z open_ctx by (simp add: ZeroOutputs_def)
  show "worker_ok Q (ZeroOutputs b)"
    using assms device_ok_shape [OF shape] by (simp add: worker_ok_def)
  show "outputs_clear (ZeroOutputs b)"
    using z open_ctx by (auto simp: outputs_clear_def ZeroOutputs_def io_shape_def)
qed

lemma worker_ok_cong:
  "worker_ok Q b \<Longrightarrow> bus_contextOpen b' = bus_contextOpen b \<Longrightarrow> bus_devices b' = bus_devices b \<Longrightarrow>
   bus_io b' = bus_io b \<Longrightarrow> bus_outputCommands b' = bus_outputCommands b \<Longrightarrow> worker_ok Q b'"
  by (simp add: worker_ok_def)

lemma force_zero_ok:
  assumes "worker_ok Q b"
  shows "worker_ok Q (force_zero b)" and "outputs_clear (force_zero b)"
  using ZeroOutputs_ok [OF assms] by (simp_all add: force_zero_def worker_ok_def outputs_clear_def)

lemma force_zero_fields [simp]:
  "bus_devices (force_zero b) = bus_devices b"
  "bus_observedSafetyEpoch (force_zero b) = bus_observedSafetyEpoch b"
  "shared_view (force_zero b) = shared_view b"
  using ZeroOutputs_fields(5) [of b] by (simp_all add: force_zero_def shared_view_def)

text \<open>The invariant with the origin of the image: every set output bit was commanded under epoch \<open>E\<close>.\<close>

definition worker_inv :: "OutputCommand set \<Rightarrow> u64 \<Rightarrow> EthercatBus \<Rightarrow> bool" where
  "worker_inv Q E b \<longleftrightarrow> worker_ok Q b \<and> epoch_image Q E (bus_devices b) (bus_io b)"

lemma worker_inv_interfere: "worker_inv Q E b \<Longrightarrow> pushes stores \<subseteq> Q \<Longrightarrow> worker_inv Q E (interfere stores b)"
  by (simp add: worker_inv_def worker_ok_interfere)

lemma force_zero_inv: "worker_ok Q b \<Longrightarrow> worker_inv Q E (force_zero b)"
  by (simp only: worker_inv_def force_zero_ok epoch_image_clear simp_thms)

lemma apply_command_fields [simp]:
  "bus_devices (apply_command epoch permitted now c b) = bus_devices b"
  "bus_observedSafetyEpoch (apply_command epoch permitted now c b) = bus_observedSafetyEpoch b"
  "bus_outputCommands (apply_command epoch permitted now c b) = bus_outputCommands b"
  "shared_view (apply_command epoch permitted now c b) = shared_view b"
  by (simp_all add: apply_command_def Let_def shared_view_def split: option.split)

lemma apply_command_ok:
  assumes "worker_ok Q b"
  shows "worker_ok Q (apply_command epoch permitted now c b)"
proof (cases "apply_command epoch permitted now c b = b")
  case False
  then obtain io where index: "0 < unat (cmd_subDeviceIndex c)" "unat (cmd_subDeviceIndex c) \<le> length (bus_devices b)"
    and io: "write_device (bus_devices b ! (unat (cmd_subDeviceIndex c) - 1)) (cmd_offset c) (cmd_data c) (bus_io b) = Some io"
    and b': "bus_io (apply_command epoch permitted now c b) = io"
      "bus_contextOpen (apply_command epoch permitted now c b) = bus_contextOpen b"
    by (auto simp: apply_command_def Let_def split: if_split_asm option.split_asm)
  have "device_ok (bus_io b) (bus_devices b ! (unat (cmd_subDeviceIndex c) - 1))"
    using assms index by (simp add: worker_ok_def)
  from write_device_bits [OF this io] have "io_shape io = io_shape (bus_io b)" by simp
  then show ?thesis
    using assms device_ok_shape [of io "bus_io b"] by (simp add: worker_ok_def b')
qed (use assms in simp)

lemma apply_command_inv:
  assumes "worker_inv Q epoch b" and "c \<in> Q"
  shows "worker_inv Q epoch (apply_command epoch permitted now c b)"
proof (cases "apply_command epoch permitted now c b = b")
  case False
  then obtain io where index: "0 < unat (cmd_subDeviceIndex c)" "unat (cmd_subDeviceIndex c) \<le> length (bus_devices b)"
    and io: "write_device (bus_devices b ! (unat (cmd_subDeviceIndex c) - 1)) (cmd_offset c) (cmd_data c) (bus_io b) = Some io"
    and b': "bus_io (apply_command epoch permitted now c b) = io" and e: "cmd_epoch c = epoch"
    by (auto simp: apply_command_def Let_def split: if_split_asm option.split_asm)
  have "device_ok (bus_io b) (bus_devices b ! (unat (cmd_subDeviceIndex c) - 1))"
    using assms index by (simp add: worker_inv_def worker_ok_def)
  from write_device_image [OF _ assms(2) e index this io] assms(1) apply_command_ok [of Q b]
  show ?thesis by (simp add: worker_inv_def b')
qed (use assms in simp)

lemma TryPop_command:
  assumes "worker_ok Q b" and "TryPop (bus_outputCommands b) = (Some c, q)"
  shows "c \<in> Q" and "worker_ok Q (b\<lparr>bus_outputCommands := q\<rparr>)"
proof -
  have ok: "queue_ok (bus_outputCommands b)" and sub: "set (queue_contents (bus_outputCommands b)) \<subseteq> Q"
    using assms(1) by (simp_all add: worker_ok_def)
  from ring.pop_hd [OF ok] assms(2) have c: "c \<in> set (queue_contents (bus_outputCommands b))"
    by (auto split: list.splits)
  with sub show "c \<in> Q" by auto
  have "queue_ok q" "queue_contents q = tl (queue_contents (bus_outputCommands b))"
    using ring.pop_ok [OF ok] ring.pop_contents [OF ok] assms(2) by simp_all
  moreover have "set (tl xs) \<subseteq> set xs" for xs :: "OutputCommand list" by (cases xs) auto
  ultimately have "queue_ok q" "set (queue_contents q) \<subseteq> Q" using sub by auto
  then show "worker_ok Q (b\<lparr>bus_outputCommands := q\<rparr>)" using assms(1) by (simp add: worker_ok_def)
qed

lemma apply_commands_fields [simp]:
  "bus_devices (apply_commands n epoch permitted now b) = bus_devices b"
  "bus_observedSafetyEpoch (apply_commands n epoch permitted now b) = bus_observedSafetyEpoch b"
  "shared_view (apply_commands n epoch permitted now b) = shared_view b"
  by (induction n arbitrary: b; simp split: prod.split option.split; simp add: shared_view_def)+

lemma apply_commands_ok:
  "worker_ok Q b \<Longrightarrow> worker_ok Q (apply_commands n epoch permitted now b)"
  by (induction n arbitrary: b)
    (auto split: prod.split option.split intro: apply_command_ok TryPop_command(2))

lemma apply_commands_inv:
  "worker_inv Q epoch b \<Longrightarrow> worker_inv Q epoch (apply_commands n epoch permitted now b)"
proof (induction n arbitrary: b)
  case (Suc n)
  have "worker_inv Q epoch (apply_command epoch permitted now c (b\<lparr>bus_outputCommands := q\<rparr>))"
    if "TryPop (bus_outputCommands b) = (Some c, q)" for c q
    using Suc.prems TryPop_command [OF _ that, of Q] by (intro apply_command_inv) (simp_all add: worker_inv_def)
  with Suc show ?case by (auto split: prod.split option.split)
qed simp

lemma begin_permitted_inv:
  assumes "worker_ok Q b"
  shows "worker_inv Q E (begin_permitted now b)"
  using ZeroOutputs_ok [OF assms] epoch_image_clear [of "ZeroOutputs b" Q E]
  by (simp add: begin_permitted_def worker_inv_def worker_ok_def Let_def)

lemma begin_permitted_fields [simp]:
  "bus_devices (begin_permitted now b) = bus_devices b"
  "bus_observedSafetyEpoch (begin_permitted now b) = bus_observedSafetyEpoch b"
  "shared_view (begin_permitted now b) = shared_view b"
  using ZeroOutputs_fields(5) [of b] by (simp_all add: begin_permitted_def shared_view_def Let_def)

lemma ApplyOutputCommands_ok:
  assumes "worker_ok Q b" and "pushes s1 \<subseteq> Q" and "pushes s2 \<subseteq> Q"
  shows "worker_ok Q (ApplyOutputCommands s1 s2 now b)"
  using begin_permitted_inv [of Q _ 0 now] worker_ok_interfere [OF worker_ok_interfere [OF assms(1,2)] assms(3)]
  by (auto simp: ApplyOutputCommands_def Let_def worker_inv_def intro!: apply_commands_ok)

lemma ApplyOutputCommands_inv:
  assumes "worker_inv Q E b" and "pushes s1 \<subseteq> Q" and "pushes s2 \<subseteq> Q"
    and "bus_safetyEpoch (interfere s1 b) = E"
  shows "worker_inv Q E (ApplyOutputCommands s1 s2 now b)"
proof -
  have inv: "worker_inv Q E (interfere s2 (interfere s1 b))"
    using assms by (simp add: worker_inv_interfere)
  then have "worker_inv Q E (begin_permitted now (interfere s2 (interfere s1 b)))"
    by (intro begin_permitted_inv) (simp add: worker_inv_def)
  with inv show ?thesis
    unfolding ApplyOutputCommands_def Let_def assms(4) by (auto intro: apply_commands_inv)
qed

lemma ApplyOutputCommands_fields [simp]:
  "bus_devices (ApplyOutputCommands s1 s2 now b) = bus_devices b"
  "bus_observedSafetyEpoch (ApplyOutputCommands s1 s2 now b) = bus_observedSafetyEpoch b"
  "shared_view (ApplyOutputCommands s1 s2 now b) = shared_view (interfere s2 (interfere s1 b))"
  by (simp_all add: ApplyOutputCommands_def Let_def)

lemma enforce_freshness_inv:
  assumes "worker_ok Q b" and "0 < index" and "index \<le> length (bus_devices b)"
    and "enforce_freshness now index (b, n) = (b', n')"
  shows "worker_ok Q b' \<and> bus_devices b' = bus_devices b
    \<and> bus_observedSafetyEpoch b' = bus_observedSafetyEpoch b \<and> shared_view b' = shared_view b
    \<and> (worker_inv Q E b \<longrightarrow> worker_inv Q E b')"
proof -
  let ?sd = "bus_devices b ! (index - 1)"
  have dev: "device_ok (bus_io b) ?sd" using assms(1,2,3) by (simp add: worker_ok_def)
  have io: "bus_io b' = bus_io b \<or> bus_io b' = zero_device ?sd (bus_io b)"
    and same: "bus_devices b' = bus_devices b" "bus_contextOpen b' = bus_contextOpen b"
      "bus_observedSafetyEpoch b' = bus_observedSafetyEpoch b"
      "bus_outputCommands b' = bus_outputCommands b" "shared_view b' = shared_view b"
    using assms(4) by (auto simp: enforce_freshness_def Let_def shared_view_def split: if_split_asm)
  have shape: "io_shape (bus_io b') = io_shape (bus_io b)"
    using io zero_device_bits [OF dev] by auto
  have "worker_ok Q b'" using assms(1) device_ok_shape [OF shape] by (simp add: worker_ok_def same)
  moreover have "worker_inv Q E b'" if "worker_inv Q E b"
    using that io \<open>worker_ok Q b'\<close> zero_device_image [OF _ dev] by (auto simp: worker_inv_def same)
  ultimately show ?thesis using same by simp
qed

lemma freshness_fold:
  assumes "worker_ok Q b" and "\<forall>i \<in> set is. 0 < i \<and> i \<le> length (bus_devices b)"
    and "fold (enforce_freshness now) is (b, n) = (b', n')"
  shows "worker_ok Q b' \<and> bus_devices b' = bus_devices b
    \<and> bus_observedSafetyEpoch b' = bus_observedSafetyEpoch b \<and> shared_view b' = shared_view b
    \<and> (worker_inv Q E b \<longrightarrow> worker_inv Q E b')"
  using assms
proof (induction "is" arbitrary: b n)
  case (Cons i "is")
  obtain b1 n1 where one: "enforce_freshness now i (b, n) = (b1, n1)" by fastforce
  have i: "0 < i" "i \<le> length (bus_devices b)" using Cons.prems(2) by simp_all
  note step = enforce_freshness_inv [OF Cons.prems(1) i one, of E]
  have "fold (enforce_freshness now) is (b1, n1) = (b', n')" using Cons.prems(3) one by simp
  with Cons.IH [of b1 n1] step Cons.prems(2) show ?case by simp
qed simp

lemma stale_count_irrelevant [simp]:
  "worker_ok Q (b\<lparr>bus_staleOutputFaults := n\<rparr>) = worker_ok Q b"
  "worker_inv Q E (b\<lparr>bus_staleOutputFaults := n\<rparr>) = worker_inv Q E b"
  "shared_view (b\<lparr>bus_staleOutputFaults := n\<rparr>) = shared_view b"
  by (simp_all add: worker_ok_def worker_inv_def shared_view_def)

lemma Freshness_inv:
  assumes "worker_ok Q b"
  shows "worker_ok Q (EnforcePerSubDeviceFreshness now b)
    \<and> bus_devices (EnforcePerSubDeviceFreshness now b) = bus_devices b
    \<and> bus_observedSafetyEpoch (EnforcePerSubDeviceFreshness now b) = bus_observedSafetyEpoch b
    \<and> shared_view (EnforcePerSubDeviceFreshness now b) = shared_view b
    \<and> (worker_inv Q E b \<longrightarrow> worker_inv Q E (EnforcePerSubDeviceFreshness now b))"
proof (cases "bus_outputsPermitted b")
  case True
  obtain b' n' where f: "fold (enforce_freshness now) [1..<Suc (length (bus_devices b))] (b, 0) = (b', n')"
    by fastforce
  have "\<forall>i \<in> set [1..<Suc (length (bus_devices b))]. 0 < i \<and> i \<le> length (bus_devices b)" by auto
  note fold = freshness_fold [OF assms this f, of E]
  have "EnforcePerSubDeviceFreshness now b = b'\<lparr>bus_staleOutputFaults := n'\<rparr>"
    using True f by (simp add: EnforcePerSubDeviceFreshness_def del: upt_Suc)
  with fold show ?thesis by simp
qed (use assms in \<open>simp add: EnforcePerSubDeviceFreshness_def\<close>)

section \<open>Transmission\<close>

text \<open>The bus as the other threads leave it after the first \<open>n + 1\<close> gaps of a cycle.\<close>

definition seen :: "CycleEnv \<Rightarrow> nat \<Rightarrow> EthercatBus \<Rightarrow> EthercatBus" where
  "seen e n b = interfere (concat (map (env_stores e) [0..<Suc n])) b"

lemma shared_seen_0: "shared_view (interfere (env_stores e 0) b) = shared_view (seen e 0 b)"
  by (simp add: seen_def)

lemma shared_seen_Suc:
  "shared_view b' = shared_view (seen e n b) \<Longrightarrow>
   shared_view (interfere (env_stores e (Suc n)) b') = shared_view (seen e (Suc n) b)"
  by (simp add: seen_def interfere_append shared_view_interfere)

lemma observed_update_irrelevant [simp]:
  "worker_ok Q (b\<lparr>bus_observedSafetyEpoch := x\<rparr>) = worker_ok Q b"
  "shared_view (b\<lparr>bus_observedSafetyEpoch := x\<rparr>) = shared_view b"
  by (simp_all add: worker_ok_def shared_view_def)

lemma shared_view_eqD:
  assumes "shared_view b = shared_view b'"
  shows "bus_safetyEpoch b = bus_safetyEpoch b'" "bus_outputsPermitted b = bus_outputsPermitted b'"
    "bus_globalFaultedEpoch b = bus_globalFaultedEpoch b'"
  using assms by (simp_all add: shared_view_def)

lemma command_phase:
  assumes "worker_inv Q (bus_observedSafetyEpoch b) b" and "\<forall>n. pushes (env_stores e n) \<subseteq> Q"
    and "cycle_command_phase e b = (barrier, b1)"
  shows "worker_ok Q b1" and "bus_devices b1 = bus_devices b"
    and "shared_view b1 = shared_view (seen e 4 b)"
    and "bus_observedSafetyEpoch b1 = bus_safetyEpoch (seen e 0 b)"
    and "barrier \<Longrightarrow> outputs_clear b1"
    and "bus_safetyEpoch (seen e 1 b) = bus_safetyEpoch (seen e 0 b) \<Longrightarrow>
           worker_inv Q (bus_observedSafetyEpoch b1) b1"
proof -
  define b0 where "b0 = interfere (env_stores e 0) b"
  define mid where "mid = (if bus_safetyEpoch b0 \<noteq> bus_observedSafetyEpoch b0
    then interfere (env_stores e 1 @ env_stores e 2 @ env_stores e 3)
           (force_zero (b0\<lparr>bus_observedSafetyEpoch := bus_safetyEpoch b0\<rparr>))
    else EnforcePerSubDeviceFreshness (env_freshNow e) (interfere (env_stores e 3)
           (ApplyOutputCommands (env_stores e 1) (env_stores e 2) (env_applyNow e) b0)))"
  define b4 where "b4 = interfere (env_stores e 4) mid"
  have barrier: "barrier \<longleftrightarrow> bus_safetyEpoch b0 \<noteq> bus_observedSafetyEpoch b0"
    and b1: "b1 = (if barrier \<or> \<not> bus_outputsPermitted b4 then force_zero b4 else b4)"
    using assms(3) unfolding cycle_command_phase_def Let_def b0_def [symmetric] mid_def [symmetric]
      b4_def [symmetric] by auto
  have sub: "pushes (env_stores e n) \<subseteq> Q" for n using assms(2) by blast
  have pre: "pushes (env_stores e 1 @ env_stores e 2 @ env_stores e 3) \<subseteq> Q"
    using sub [of 1] sub [of 2] sub [of 3] by (auto simp: pushes_def)
  have s0: "shared_view b0 = shared_view (seen e 0 b)" by (simp add: b0_def shared_seen_0)
  have inv0: "worker_inv Q (bus_observedSafetyEpoch b) b0"
    unfolding b0_def by (rule worker_inv_interfere [OF assms(1) sub])
  then have ok0: "worker_ok Q b0" by (simp add: worker_inv_def)
  have gaps: "shared_view (interfere (env_stores e 3) (interfere (env_stores e 2) (interfere (env_stores e 1) b0)))
      = shared_view (seen e 3 b)"
    using shared_seen_Suc [OF shared_seen_Suc [OF shared_seen_Suc [OF s0]]]
    by (simp add: numeral_eq_Suc)
  have mid: "worker_ok Q mid \<and> bus_devices mid = bus_devices b \<and> shared_view mid = shared_view (seen e 3 b)
      \<and> bus_observedSafetyEpoch mid = bus_safetyEpoch b0
      \<and> (bus_safetyEpoch (seen e 1 b) = bus_safetyEpoch (seen e 0 b) \<longrightarrow> worker_inv Q (bus_safetyEpoch b0) mid)"
  proof (cases "bus_safetyEpoch b0 \<noteq> bus_observedSafetyEpoch b0")
    case True
    let ?z = "force_zero (b0\<lparr>bus_observedSafetyEpoch := bus_safetyEpoch b0\<rparr>)"
    have m: "mid = interfere (env_stores e 1 @ env_stores e 2 @ env_stores e 3) ?z"
      using True by (simp add: mid_def)
    have "worker_inv Q (bus_safetyEpoch b0) ?z" by (rule force_zero_inv) (simp add: ok0)
    then have inv: "worker_inv Q (bus_safetyEpoch b0) mid"
      unfolding m by (rule worker_inv_interfere [OF _ pre])
    moreover have "shared_view mid = shared_view (seen e 3 b)"
      using gaps by (simp add: m interfere_append shared_view_interfere)
    ultimately show ?thesis by (simp add: worker_inv_def m b0_def)
  next
    case False
    let ?a = "interfere (env_stores e 3) (ApplyOutputCommands (env_stores e 1) (env_stores e 2) (env_applyNow e) b0)"
    have m: "mid = EnforcePerSubDeviceFreshness (env_freshNow e) ?a" using False by (simp add: mid_def)
    have ok: "worker_ok Q ?a"
      by (intro worker_ok_interfere ApplyOutputCommands_ok ok0 sub)
    have inv: "worker_inv Q (bus_safetyEpoch b0) ?a"
      if "bus_safetyEpoch (seen e 1 b) = bus_safetyEpoch (seen e 0 b)"
    proof -
      have "shared_view (interfere (env_stores e 1) b0) = shared_view (seen e 1 b)"
        using shared_seen_Suc [OF s0] by simp
      from shared_view_eqD(1) [OF this] shared_view_eqD(1) [OF s0] that
      have "bus_safetyEpoch (interfere (env_stores e 1) b0) = bus_safetyEpoch b0" by simp
      moreover have "worker_inv Q (bus_safetyEpoch b0) b0" using inv0 False by (simp add: b0_def)
      ultimately show ?thesis by (intro worker_inv_interfere ApplyOutputCommands_inv sub)
    qed
    have "shared_view ?a = shared_view (seen e 3 b)" using gaps by (simp add: shared_view_interfere)
    moreover have "bus_devices ?a = bus_devices b" "bus_observedSafetyEpoch ?a = bus_safetyEpoch b0"
      using False by (simp_all add: b0_def)
    ultimately show ?thesis
      using Freshness_inv [OF ok, of "env_freshNow e" "bus_safetyEpoch b0"] inv unfolding m by argo
  qed
  have ok4: "worker_ok Q b4" unfolding b4_def by (rule worker_ok_interfere) (use mid sub in auto)
  have s4: "shared_view b4 = shared_view (seen e 4 b)"
    unfolding b4_def using shared_seen_Suc [of mid e 3 b] mid by (simp add: numeral_eq_Suc)
  show "worker_ok Q b1" using ok4 by (simp add: b1 force_zero_ok)
  show "bus_devices b1 = bus_devices b" using mid by (simp add: b1 b4_def)
  show "shared_view b1 = shared_view (seen e 4 b)" using s4 by (simp add: b1)
  show "bus_observedSafetyEpoch b1 = bus_safetyEpoch (seen e 0 b)"
    using mid shared_view_eqD(1) [OF s0] by (simp add: b1 b4_def)
  show "outputs_clear b1" if barrier using that force_zero_ok(2) [OF ok4] by (simp add: b1)
  show "worker_inv Q (bus_observedSafetyEpoch b1) b1"
    if "bus_safetyEpoch (seen e 1 b) = bus_safetyEpoch (seen e 0 b)"
  proof -
    have "worker_inv Q (bus_safetyEpoch b0) b4"
      unfolding b4_def by (rule worker_inv_interfere) (use mid sub that in auto)
    moreover have "bus_observedSafetyEpoch b1 = bus_safetyEpoch b0" using mid by (simp add: b1 b4_def)
    ultimately show ?thesis using force_zero_inv [OF ok4] by (simp add: b1)
  qed
qed

lemma recheck_phase:
  assumes "worker_ok Q b1" and "\<forall>n. pushes (env_stores e n) \<subseteq> Q"
    and "shared_view b1 = shared_view (seen e 4 b)"
    and "cycle_recheck_phase e barrier b1 = (barrier', b')"
  shows "worker_ok Q b'" and "bus_devices b' = bus_devices b1"
    and "bus_observedSafetyEpoch b' = bus_safetyEpoch (seen e 5 b)"
    and "barrier' \<longleftrightarrow> barrier \<or> bus_safetyEpoch (seen e 5 b) \<noteq> bus_observedSafetyEpoch b1"
    and "\<not> bus_outputsPermitted (seen e 6 b)
         \<or> bus_globalFaultedEpoch (seen e 7 b) = bus_safetyEpoch (seen e 5 b)
         \<or> bus_safetyEpoch (seen e 5 b) \<noteq> bus_observedSafetyEpoch b1
         \<or> outputs_clear b1 \<Longrightarrow> outputs_clear b'"
    and "bus_safetyEpoch (seen e 5 b) = bus_observedSafetyEpoch b1 \<Longrightarrow>
         worker_inv Q (bus_observedSafetyEpoch b1) b1 \<Longrightarrow> worker_inv Q (bus_observedSafetyEpoch b') b'"
proof -
  define b5 where "b5 = interfere (env_stores e 5) b1"
  define moved where "moved \<longleftrightarrow> bus_safetyEpoch b5 \<noteq> bus_observedSafetyEpoch b5"
  define c5 where "c5 = (if moved then force_zero (b5\<lparr>bus_observedSafetyEpoch := bus_safetyEpoch b5\<rparr>) else b5)"
  define b6 where "b6 = interfere (env_stores e 6) c5"
  define c6 where "c6 = (if \<not> bus_outputsPermitted b6 then force_zero b6 else b6)"
  define b7 where "b7 = interfere (env_stores e 7) c6"
  have result: "barrier' \<longleftrightarrow> barrier \<or> moved"
    "b' = (if bus_globalFaultedEpoch b7 = bus_observedSafetyEpoch b7 then force_zero b7 else b7)"
    using assms(4) unfolding cycle_recheck_phase_def Let_def b5_def [symmetric] moved_def [symmetric]
      c5_def [symmetric] b6_def [symmetric] c6_def [symmetric] b7_def [symmetric] by auto
  have sub: "pushes (env_stores e n) \<subseteq> Q" for n using assms(2) by blast
  have s5: "shared_view b5 = shared_view (seen e 5 b)"
    unfolding b5_def using shared_seen_Suc [OF assms(3)] by (simp add: numeral_eq_Suc)
  have s6: "shared_view b6 = shared_view (seen e 6 b)"
    unfolding b6_def using shared_seen_Suc [of c5 e 5 b] s5 by (simp add: c5_def numeral_eq_Suc)
  have s7: "shared_view b7 = shared_view (seen e 7 b)"
    unfolding b7_def using shared_seen_Suc [of c6 e 6 b] s6 by (simp add: c6_def numeral_eq_Suc)
  have o1: "bus_observedSafetyEpoch b5 = bus_observedSafetyEpoch b1" by (simp add: b5_def)
  have o5: "bus_observedSafetyEpoch c5 = bus_safetyEpoch b5" by (simp add: c5_def moved_def)
  have o7: "bus_observedSafetyEpoch b7 = bus_safetyEpoch b5"
    by (simp add: b7_def c6_def b6_def o5)
  have ok5: "worker_ok Q b5" unfolding b5_def by (rule worker_ok_interfere [OF assms(1) sub])
  have okc5: "worker_ok Q c5" using ok5 by (simp add: c5_def force_zero_ok)
  have ok6: "worker_ok Q b6" unfolding b6_def by (rule worker_ok_interfere [OF okc5 sub])
  have okc6: "worker_ok Q c6" using ok6 by (simp add: c6_def force_zero_ok)
  have ok7: "worker_ok Q b7" unfolding b7_def by (rule worker_ok_interfere [OF okc6 sub])
  have clear_interfere: "outputs_clear (interfere st x) = outputs_clear x" for st x
    by (simp add: outputs_clear_def)
  have epoch: "bus_safetyEpoch b5 = bus_safetyEpoch (seen e 5 b)" by (rule shared_view_eqD [OF s5])
  have move: "moved \<longleftrightarrow> bus_safetyEpoch (seen e 5 b) \<noteq> bus_observedSafetyEpoch b1"
    by (simp add: moved_def epoch o1)
  show "worker_ok Q b'" using ok7 by (simp add: result force_zero_ok)
  show "bus_devices b' = bus_devices b1"
    by (simp add: result b7_def c6_def b6_def c5_def b5_def)
  show "bus_observedSafetyEpoch b' = bus_safetyEpoch (seen e 5 b)" by (simp add: result o7 epoch)
  show "barrier' \<longleftrightarrow> barrier \<or> bus_safetyEpoch (seen e 5 b) \<noteq> bus_observedSafetyEpoch b1"
    by (simp add: result move)
  have c7: "outputs_clear b'" if "outputs_clear b7 \<or> bus_globalFaultedEpoch b7 = bus_observedSafetyEpoch b7"
    using that force_zero_ok(2) [OF ok7] by (auto simp: result)
  have c6: "outputs_clear b7" if "outputs_clear b6 \<or> \<not> bus_outputsPermitted b6"
    using that force_zero_ok(2) [OF ok6] by (auto simp: b7_def c6_def clear_interfere)
  have c5: "outputs_clear b6" if "outputs_clear b1 \<or> moved"
    using that force_zero_ok(2) [of Q "b5\<lparr>bus_observedSafetyEpoch := bus_safetyEpoch b5\<rparr>"] ok5
    by (auto simp: b6_def c5_def clear_interfere b5_def)
  show "outputs_clear b'" if "\<not> bus_outputsPermitted (seen e 6 b)
         \<or> bus_globalFaultedEpoch (seen e 7 b) = bus_safetyEpoch (seen e 5 b)
         \<or> bus_safetyEpoch (seen e 5 b) \<noteq> bus_observedSafetyEpoch b1
         \<or> outputs_clear b1"
    using that c5 c6 c7 move o7 epoch shared_view_eqD(2) [OF s6] shared_view_eqD(3) [OF s7] by auto
  show "worker_inv Q (bus_observedSafetyEpoch b') b'"
    if "bus_safetyEpoch (seen e 5 b) = bus_observedSafetyEpoch b1" "worker_inv Q (bus_observedSafetyEpoch b1) b1"
  proof -
    let ?E = "bus_observedSafetyEpoch b1"
    have "worker_inv Q ?E b5" unfolding b5_def by (rule worker_inv_interfere [OF that(2) sub])
    then have "worker_inv Q ?E c5" using that(1) move by (simp add: c5_def)
    then have "worker_inv Q ?E b6" unfolding b6_def by (rule worker_inv_interfere [OF _ sub])
    then have "worker_inv Q ?E c6" using force_zero_inv [OF ok6] by (simp add: c6_def)
    then have "worker_inv Q ?E b7" unfolding b7_def by (rule worker_inv_interfere [OF _ sub])
    then have "worker_inv Q ?E b'" using force_zero_inv [OF ok7] by (simp add: result)
    moreover have "bus_observedSafetyEpoch b' = ?E" using that(1) by (simp add: result o7 epoch)
    ultimately show ?thesis by simp
  qed
qed

lemma cycle_outputs_inv:
  assumes "worker_inv Q (bus_observedSafetyEpoch b) b" and "\<forall>n. pushes (env_stores e n) \<subseteq> Q"
    and "bus_safetyEpoch (seen e 5 b) = bus_safetyEpoch (seen e 0 b) \<longrightarrow>
         bus_safetyEpoch (seen e 1 b) = bus_safetyEpoch (seen e 0 b)"
    and "cycle_outputs e b = (barrier, b')"
  shows "worker_inv Q (bus_observedSafetyEpoch b') b'" and "bus_devices b' = bus_devices b"
    and "bus_observedSafetyEpoch b' = bus_safetyEpoch (seen e 5 b)"
    and "barrier \<Longrightarrow> outputs_clear b'"
    and "\<not> outputs_clear b' \<Longrightarrow> bus_outputsPermitted (seen e 6 b)
           \<and> bus_globalFaultedEpoch (seen e 7 b) \<noteq> bus_observedSafetyEpoch b'
           \<and> bus_safetyEpoch (seen e 0 b) = bus_observedSafetyEpoch b'"
proof -
  obtain barrier1 b1 where c: "cycle_command_phase e b = (barrier1, b1)" by fastforce
  with assms(4) have r: "cycle_recheck_phase e barrier1 b1 = (barrier, b')"
    by (simp add: cycle_outputs_def)
  note C = command_phase [OF assms(1,2) c]
  note R = recheck_phase [OF C(1) assms(2) C(3) r]
  show "worker_inv Q (bus_observedSafetyEpoch b') b'"
  proof (cases "bus_safetyEpoch (seen e 5 b) = bus_observedSafetyEpoch b1")
    case True
    with C(4) assms(3) have "worker_inv Q (bus_observedSafetyEpoch b1) b1" by (intro C(6)) simp
    with True show ?thesis by (rule R(6))
  next
    case False
    then have "outputs_clear b'" by (intro R(5)) simp
    with R(1) show ?thesis by (simp add: worker_inv_def epoch_image_clear)
  qed
  show "bus_devices b' = bus_devices b" using R(2) C(2) by simp
  show "bus_observedSafetyEpoch b' = bus_safetyEpoch (seen e 5 b)" by (rule R(3))
  show "outputs_clear b'" if barrier using that R(4) R(5) C(5) by blast
  show "bus_outputsPermitted (seen e 6 b) \<and> bus_globalFaultedEpoch (seen e 7 b) \<noteq> bus_observedSafetyEpoch b'
      \<and> bus_safetyEpoch (seen e 0 b) = bus_observedSafetyEpoch b'" if "\<not> outputs_clear b'"
    using that R(3) R(5) C(4) by metis
qed

text \<open>
  C4: no output of a previous controller generation reaches the wire. Consider any cycle of the
  worker, with any stores by other threads in the gaps between its reads, as long as the safety epoch
  does not return to a former value within the cycle. If before the cycle every set output bit was
  commanded under the epoch the worker last observed, then in the image handed to the
  master every set output bit was commanded, by a command that was really queued, under the epoch
  in force at the last check. An image with any output bit set is only transmitted when the outputs
  were permitted and no fault of that epoch was latched at the last checks, and never in a barrier cycle.
\<close>

theorem no_stale_output_transmitted:
  assumes "worker_inv Q (bus_observedSafetyEpoch b) b" and "\<forall>n. pushes (env_stores e n) \<subseteq> Q"
    and "bus_safetyEpoch (seen e 5 b) = bus_safetyEpoch (seen e 0 b) \<longrightarrow>
         bus_safetyEpoch (seen e 1 b) = bus_safetyEpoch (seen e 0 b)"
    and "cycle_outputs e b = (barrier, b')"
  shows "(\<forall>sd \<in> set (bus_devices b). \<forall>j \<in> device_bits (io_base (bus_io b')) sd.
            io_bit (bus_io b') j \<longrightarrow>
              bit_from Q (bus_safetyEpoch (seen e 5 b)) (bus_devices b) (io_base (bus_io b')) j)
    \<and> (barrier \<longrightarrow> outputs_clear b')
    \<and> (\<not> outputs_clear b' \<longrightarrow> bus_outputsPermitted (seen e 6 b)
         \<and> bus_globalFaultedEpoch (seen e 7 b) \<noteq> bus_safetyEpoch (seen e 5 b))
    \<and> worker_inv Q (bus_observedSafetyEpoch b') b'"
proof -
  note inv = cycle_outputs_inv [OF assms]
  have "epoch_image Q (bus_safetyEpoch (seen e 5 b)) (bus_devices b) (bus_io b')"
    using inv(1) unfolding worker_inv_def inv(2,3) by blast
  with inv show ?thesis unfolding epoch_image_def by metis
qed

definition example_configuration :: InterfaceConfig where
  "example_configuration =
     \<lparr>if_logicalName = ''bus0'', if_physicalInterface = ''eth1'', if_enabled = True, if_lock = None,
      if_expectedSubDevices = [example_expected], if_maximumIoMapBytes = 64,
      if_distributedClock = False, if_distributedClockShiftNs = 0, if_allowUnverifiedTopology = False\<rparr>"

definition example_command :: OutputCommand where
  "example_command =
     \<lparr>cmd_epoch = 7, cmd_subDeviceIndex = 1, cmd_offset = 0, cmd_acceptedMonotonicUs = 1000000,
      cmd_data = [0x55, 0x05]\<rparr>"

definition example_chunk :: InputChunk where
  "example_chunk =
     \<lparr>chunk_header = \<lparr>pdo_busIndex = 0, pdo_subDeviceIndex = 0, pdo_offset = 0, pdo_totalSize = 0,
        pdo_epoch = 0, pdo_cycleSequence = 0, pdo_data = []\<rparr>,
      chunk_data = [], chunk_snapshotChunkIndex = 0, chunk_snapshotChunkCount = 0\<rparr>"

definition example_bus :: EthercatBus where
  "example_bus =
     \<lparr>bus_index = 0, bus_configuration = example_configuration, bus_cyclePeriod = 5000,
      bus_outputCommandTimeout = 100, bus_globalFaultedEpoch = 0, bus_interfaceName = ''eth1'',
      bus_running = True, bus_linkUp = True, bus_outputsPermitted = True, bus_safetyEpoch = 7,
      bus_safetyEpochApplied = 7, bus_inputPublicationPeriodUs = 10000, bus_observedSafetyEpoch = 7,
      bus_outputsWerePermitted = True, bus_lastOutputCommandUs = [0, 990000], bus_staleOutput = [False, False],
      bus_staleOutputFaults = 0, bus_faultedEpoch = 0,
      bus_outputCommands = \<lparr>q_values = [example_command, example_command], q_read = 0, q_write = 1\<rparr>,
      bus_inputChunks = \<lparr>q_values = [example_chunk, example_chunk], q_read = 0, q_write = 0\<rparr>,
      bus_devices = [example_subdevice], bus_io = \<lparr>io_base = 16, io_bytes = [0, 0, 0xff, 0]\<rparr>,
      bus_contextAttempted = True, bus_contextOpen = True, bus_dcConfigured = False,
      bus_dcController = dc_init 5000000, bus_expectedWorkingCounter = 3, bus_state = BusOperational,
      bus_reinitializing = False, bus_subDeviceCount = 1, bus_outputSizes = [0, 2], bus_outputBits = [0, 12],
      bus_faults = 0, bus_lostFrames = 0, bus_cycleOverruns = 0, bus_currentJitterUs = 0,
      bus_maximumJitterUs = 0, bus_cycleSequence = 41, bus_schedulingMode = SchedFifo,
      bus_realtimeErrorBits = 0, bus_resetCounterSequence = 0, bus_faultSequence = 0,
      bus_faultReason = DrProcessDataFault, bus_outputTopologyVerified = True, bus_dcSynchronized = False,
      bus_inputChunkCursor = 0\<rparr>"

definition example_env :: CycleEnv where
  "example_env =
     \<lparr>env_stores = (\<lambda>n. []), env_sleepResult = 0, env_wake = Some \<lparr>tv_sec = 1, tv_nsec = 5000000\<rparr>,
      env_applyNow = 1005000, env_freshNow = 1005000, env_sent = 1, env_receive = (\<lambda>io. (3, io)),
      env_DCtime = 0, env_nowMicros = 1005100, env_after = Some \<lparr>tv_sec = 1, tv_nsec = 5200000\<rparr>\<rparr>"

lemma example_worker_inv: "worker_inv {example_command} 7 example_bus"
proof -
  have clear: "outputs_clear example_bus"
    by (auto simp: outputs_clear_def example_bus_def example_subdevice_def device_bits_def io_offset_def
        io_bit_def pdo_bit_def nth_Cons split: nat.splits)
  have "queue_contents (bus_outputCommands example_bus) = [example_command]" by code_simp
  moreover have "device_ok (bus_io example_bus) example_subdevice" by code_simp
  ultimately have "worker_ok {example_command} example_bus"
    by (simp add: worker_ok_def) (simp add: example_bus_def queue_ok_def)
  with epoch_image_clear [OF clear] show ?thesis by (simp add: worker_inv_def)
qed

theorem no_stale_output_transmitted_witness:
  "\<exists>b'. cycle_outputs example_env example_bus = (False, b')
     \<and> io_bytes (bus_io b') = [0x55, 0x05, 0xff, 0] \<and> io_bit (bus_io b') 2
     \<and> bit_from {example_command} 7 [example_subdevice] 16 2"
proof -
  obtain barrier b' where run: "cycle_outputs example_env example_bus = (barrier, b')" by fastforce
  have "map_prod id bus_io (cycle_outputs example_env example_bus) =
      (False, \<lparr>io_base = 16, io_bytes = [0x55, 0x05, 0xff, 0]\<rparr>)" by code_simp
  with run have result: "\<not> barrier" "bus_io b' = \<lparr>io_base = 16, io_bytes = [0x55, 0x05, 0xff, 0]\<rparr>"
    by simp_all
  have bit: "io_bit (bus_io b') 2" unfolding result(2) by code_simp
  have none: "concat (map (\<lambda>n. [] :: SharedStore list) ns) = []" for ns :: "nat list" by simp
  have seen: "seen example_env n b = b" for n b
    unfolding seen_def example_env_def interfere_def CycleEnv.select_convs none by simp
  have fields: "bus_observedSafetyEpoch example_bus = 7" "bus_safetyEpoch example_bus = 7"
    "bus_devices example_bus = [example_subdevice]" by (simp_all add: example_bus_def)
  have inv: "worker_inv {example_command} (bus_observedSafetyEpoch example_bus) example_bus"
    using example_worker_inv by (simp add: fields)
  have none: "\<forall>n. pushes (env_stores example_env n) \<subseteq> {example_command}"
    by (simp add: example_env_def pushes_def)
  have "2 \<in> device_bits (io_base (bus_io b')) example_subdevice"
    by (simp add: result device_bits_def example_subdevice_def io_offset_def)
  then have "bit_from {example_command} 7 [example_subdevice] 16 2"
    using no_stale_output_transmitted [OF inv none _ run] bit by (simp add: seen fields result)
  with run result bit show ?thesis by auto
qed

end
