(* ===== verification/Bus_Run.thy ===== *)
theory Bus_Run
  imports Bus_Cycle
begin

text \<open>
  The life of the worker thread: bringing a bus to the operational state, running cycles until the link,
  the process data or the daemon ends them, and starting over. What the EtherCAT master reports during
  an initialisation is one record; its process-data exchanges are functions on the IO map.
\<close>

section \<open>Initialisation\<close>

record SoemReply =
  sr_init :: int
  sr_discovered :: int
  sr_devices :: "SubDevice list"
  sr_mapped :: int
  sr_outputsWKC :: u16
  sr_inputsWKC :: u16
  sr_groupOutputs :: "nat option"
  sr_groupObytes :: u32
  sr_groupInputs :: "nat option"
  sr_groupIbytes :: u32
  sr_configdc :: bool
  sr_groupHasdc :: bool
  sr_exchange :: "nat \<Rightarrow> IoMap \<Rightarrow> IoMap"
  sr_operational :: "nat \<Rightarrow> bool"

text \<open>Before anything is asked of the master: a closed context and an empty image.\<close>

definition initialize_reset :: "EthercatBus \<Rightarrow> EthercatBus" where
  "initialize_reset b =
     (let b = CloseContext b; io = bus_io b
      in b\<lparr>bus_state := BusInitializing, bus_io := io\<lparr>io_bytes := map (\<lambda>_. 0) (io_bytes io)\<rparr>,
           bus_outputSizes := map (\<lambda>_. 0) (bus_outputSizes b),
           bus_outputBits := map (\<lambda>_. 0) (bus_outputBits b),
           bus_devices := [], bus_contextAttempted := True\<rparr>)"

text \<open>
  Opening the adapter, discovery, mapping, topology check, working counter and group ranges. Nothing
  when any of them fails.
\<close>

definition initialize_map :: "SoemReply \<Rightarrow> EthercatBus \<Rightarrow> EthercatBus option" where
  "initialize_map sr b = do {
     require (sr_init sr > 0);
     let b = b\<lparr>bus_contextOpen := True\<rparr>;
     require (\<not> (sr_discovered sr \<le> 0 \<or> length (sr_devices sr) = 0 \<or> length (sr_devices sr) \<ge> EC_MAXSLAVE));
     let b = b\<lparr>bus_devices := sr_devices sr\<rparr>;
     require (\<not> (sr_mapped sr < 0 \<or> nat (sr_mapped sr) > if_maximumIoMapBytes (bus_configuration b)
                 \<or> nat (sr_mapped sr) > length (io_bytes (bus_io b))));
     (ts, verified) \<leftarrow>
       (case ValidateTopology (if_expectedSubDevices (bus_configuration b))
               (if_allowUnverifiedTopology (bus_configuration b)) (bus_io b) (bus_devices b)
               (bus_outputSizes b) (bus_outputBits b) of
          Inl e \<Rightarrow> None | Inr r \<Rightarrow> Some r);
     let b = b\<lparr>bus_outputSizes := ts_outputSizes ts, bus_outputBits := ts_outputBits ts,
               bus_outputTopologyVerified := verified,
               bus_expectedWorkingCounter := uint (sr_outputsWKC sr) * 2 + uint (sr_inputsWKC sr)\<rparr>;
     require (bus_expectedWorkingCounter b > 0);
     require (PointerRangeInIoMap (bus_io b) (sr_groupOutputs sr) (sr_groupObytes sr)
              \<and> PointerRangeInIoMap (bus_io b) (sr_groupInputs sr) (sr_groupIbytes sr));
     Some b
   }"

definition initialize_clock :: "SoemReply \<Rightarrow> EthercatBus \<Rightarrow> EthercatBus option" where
  "initialize_clock sr b =
     (if if_distributedClock (bus_configuration b) then do {
        require (sr_configdc sr \<and> sr_groupHasdc sr);
        require (\<not> (bus_cyclePeriod b * 1000 \<le> 0 \<or> bus_cyclePeriod b * 1000 > 2 ^ 32 - 1));
        Some (b\<lparr>bus_dcConfigured := True, bus_dcController := dc_Reset (bus_dcController b),
                bus_dcSynchronized := False,
                bus_realtimeErrorBits := bus_realtimeErrorBits b OR RealtimeDistributedClockUnlocked\<rparr>)
      } else Some b)"

definition exchange_zero :: "SoemReply \<Rightarrow> nat \<Rightarrow> EthercatBus \<Rightarrow> EthercatBus" where
  "exchange_zero sr n b = (let b = ZeroOutputs b in b\<lparr>bus_io := sr_exchange sr n (bus_io b)\<rparr>)"

fun reach_operational :: "SoemReply \<Rightarrow> nat list \<Rightarrow> EthercatBus \<Rightarrow> bool \<times> EthercatBus" where
  "reach_operational sr [] b = (False, b)"
| "reach_operational sr (attempt # attempts) b =
     (let b = exchange_zero sr (Suc attempt) b
      in if sr_operational sr attempt then (True, b) else reach_operational sr attempts b)"

definition Initialize :: "SoemReply \<Rightarrow> EthercatBus \<Rightarrow> bool \<times> EthercatBus" where
  "Initialize sr b =
     (let b = initialize_reset b
      in case initialize_map sr b \<bind> initialize_clock sr of
           None \<Rightarrow> (False, CloseContext b)
         | Some b \<Rightarrow>
             (let b = exchange_zero sr 0 (b\<lparr>bus_state := BusSafeOperational\<rparr>);
                  (operational, b) = reach_operational sr [0..<10] b
              in if \<not> operational then (False, CloseContext b)
                 else (True, b\<lparr>bus_subDeviceCount := of_nat (length (bus_devices b)), bus_faults := 0,
                               bus_state := BusOperational\<rparr>)))"

section \<open>The outer loop\<close>

record TurnEnv =
  turn_stores :: "SharedStore list"
  turn_reply :: SoemReply
  turn_start :: "timespec option"
  turn_cycles :: "CycleEnv list"

definition run_turn :: "TurnEnv \<Rightarrow> bool \<Rightarrow> EthercatBus \<Rightarrow> bool \<times> EthercatBus" where
  "run_turn t attempted b =
     (if \<not> bus_linkUp b then (attempted, b\<lparr>bus_state := BusWaitingForLink\<rparr>)
      else let b = (if attempted then RaiseFault DrReinitialize b else b);
               (initialized, b) = Initialize (turn_reply t) (b\<lparr>bus_reinitializing := True\<rparr>);
               b = b\<lparr>bus_reinitializing := False\<rparr>
           in (True, if \<not> initialized then b\<lparr>bus_state := BusFault\<rparr>
                     else CloseContext (RunCyclic (turn_start t) (turn_cycles t) b)))"

definition worker_exit :: "EthercatBus \<Rightarrow> EthercatBus" where
  "worker_exit b = CloseContext (b\<lparr>bus_state := BusStopping\<rparr>)"

fun run_turns :: "TurnEnv list \<Rightarrow> bool \<Rightarrow> EthercatBus \<Rightarrow> EthercatBus" where
  "run_turns [] attempted b = worker_exit b"
| "run_turns (t # ts) attempted b =
     (let b = interfere (turn_stores t) b
      in if \<not> bus_running b then worker_exit b
         else (let (attempted, b) = run_turn t attempted b in run_turns ts attempted b))"

definition bus_Run ::
  "RealtimeConfig \<Rightarrow> 'os RealtimeOperations \<Rightarrow> 'os \<Rightarrow> TurnEnv list \<Rightarrow> EthercatBus \<Rightarrow> EthercatBus" where
  "bus_Run config ops os ts b =
     (let (realtime, os) = ApplyRealtimeConfiguration config ops os
      in run_turns ts False (b\<lparr>bus_schedulingMode := rt_schedulingMode realtime,
                               bus_realtimeErrorBits := rt_errorBits realtime\<rparr>))"

section \<open>The image stays attributable over all cycles\<close>

text \<open>What is assumed of the master: an exchange writes inputs only.\<close>

definition exchange_ok :: "SubDevice list \<Rightarrow> (IoMap \<Rightarrow> IoMap) \<Rightarrow> bool" where
  "exchange_ok devices exchange \<longleftrightarrow>
     (\<forall>io. io_shape (exchange io) = io_shape io
        \<and> (\<forall>sd \<in> set devices. \<forall>j \<in> device_bits (io_base io) sd. io_bit (exchange io) j = io_bit io j))"

definition env_ok :: "OutputCommand set \<Rightarrow> SubDevice list \<Rightarrow> CycleEnv \<Rightarrow> bool" where
  "env_ok Q devices e \<longleftrightarrow>
     (\<forall>n. pushes (env_stores e n) \<subseteq> Q) \<and> exchange_ok devices (\<lambda>io. snd (env_receive e io))"

text \<open>The safety epoch does not return to a former value within a cycle, from whatever epoch it starts.\<close>

definition epochs_advance :: "CycleEnv \<Rightarrow> bool" where
  "epochs_advance e \<longleftrightarrow>
     (\<forall>b. bus_safetyEpoch (seen e 5 b) = bus_safetyEpoch (seen e 0 b) \<longrightarrow>
          bus_safetyEpoch (seen e 1 b) = bus_safetyEpoch (seen e 0 b))"

lemma exchange_ok_image:
  assumes "exchange_ok devices exchange" and "epoch_image Q E devices io"
  shows "epoch_image Q E devices (exchange io)"
proof -
  have "io_base (exchange io) = io_base io" using assms(1) by (auto simp: exchange_ok_def io_shape_def)
  with assms show ?thesis by (simp add: exchange_ok_def epoch_image_def)
qed

definition worker_fields ::
  "EthercatBus \<Rightarrow> bool \<times> SubDevice list \<times> IoMap \<times> OutputCommand SpscQueue \<times> u64" where
  "worker_fields b = (bus_contextOpen b, bus_devices b, bus_io b, bus_outputCommands b, bus_observedSafetyEpoch b)"

definition attributable :: "OutputCommand set \<Rightarrow> EthercatBus \<Rightarrow> bool" where
  "attributable Q b \<longleftrightarrow> worker_inv Q (bus_observedSafetyEpoch b) b"

lemma attributable_fields:
  assumes "worker_fields b' = worker_fields b"
  shows "attributable Q b' = attributable Q b"
  using assms by (simp add: attributable_def worker_inv_def worker_ok_def worker_fields_def)

lemma publish_chunks_fields: "worker_fields (PublishInputs b) = worker_fields b"
  by (simp add: PublishInputs_def Let_def worker_fields_def split: prod.split)

lemma cycle_begin_fields: "worker_fields (snd (cycle_begin wake loc b)) = worker_fields b"
  by (simp add: cycle_begin_def Let_def worker_fields_def)

lemma cycle_clock_fields: "worker_fields (snd (cycle_clock e b)) = worker_fields b"
  by (simp add: cycle_clock_def worker_fields_def split: prod.split)

lemma cycle_publish_fields: "worker_fields (snd (cycle_publish e complete loc b)) = worker_fields b"
  by (simp add: cycle_publish_def Let_def publish_chunks_fields)

lemma RaiseFault_fields: "worker_fields (RaiseFault reason b) = worker_fields b"
  by (simp add: RaiseFault_def Let_def worker_fields_def)

lemma clock_fault_fields: "worker_fields (clock_fault b) = worker_fields b"
  by (simp add: clock_fault_def RaiseFault_def Let_def worker_fields_def)

lemma cycle_finish_fields: "worker_fields (snd (snd (cycle_finish e complete correction loc b))) = worker_fields b"
proof -
  obtain loc1 b1 where p: "cycle_publish e complete loc b = (loc1, b1)" by fastforce
  have "worker_fields b1 = worker_fields b" using cycle_publish_fields [of e complete loc b] p by simp
  then show ?thesis
    by (simp add: cycle_finish_def p clock_fault_fields split: option.split prod.split)
      (simp add: worker_fields_def)
qed

lemma ZeroOutputs_attributable: "attributable Q b \<Longrightarrow> attributable Q (ZeroOutputs b)"
  using ZeroOutputs_ok [of Q b] epoch_image_clear [of "ZeroOutputs b" Q]
  by (simp add: attributable_def worker_inv_def)

lemma process_data_fault_attributable:
  assumes "attributable Q b"
  shows "attributable Q (process_data_fault b)"
proof -
  have "attributable Q (b\<lparr>bus_faults := 1, bus_outputsPermitted := False\<rparr>)"
    using assms by (subst attributable_fields) (simp_all add: worker_fields_def)
  then have "attributable Q (ZeroOutputs (b\<lparr>bus_faults := 1, bus_outputsPermitted := False\<rparr>))"
    by (rule ZeroOutputs_attributable)
  then show ?thesis
    unfolding process_data_fault_def
    by (subst attributable_fields) (simp_all add: worker_fields_def RaiseFault_def Let_def)
qed

lemma exchange_attributable:
  assumes "attributable Q b" and "exchange_ok (bus_devices b) exchange"
  shows "attributable Q (b\<lparr>bus_io := exchange (bus_io b)\<rparr>)"
proof -
  have "io_shape (exchange (bus_io b)) = io_shape (bus_io b)" using assms(2) by (simp add: exchange_ok_def)
  from device_ok_shape [OF this] exchange_ok_image [OF assms(2)] assms(1)
  show ?thesis by (simp add: attributable_def worker_inv_def worker_ok_def)
qed

lemma interfere_attributable: "attributable Q b \<Longrightarrow> pushes stores \<subseteq> Q \<Longrightarrow> attributable Q (interfere stores b)"
  by (simp add: attributable_def worker_inv_interfere)

lemma cycle_exchange_attributable:
  assumes "attributable Q b" and "env_ok Q (bus_devices b) e"
  shows "attributable Q (snd (cycle_exchange e barrier b))
    \<and> bus_devices (snd (cycle_exchange e barrier b)) = bus_devices b"
proof -
  let ?b1 = "if env_sent e > 0 then b\<lparr>bus_io := snd (env_receive e (bus_io b))\<rparr> else b"
  have one: "attributable Q ?b1"
    using exchange_attributable [OF assms(1), of "\<lambda>io. snd (env_receive e io)"] assms
    by (simp add: env_ok_def)
  have two: "attributable Q (interfere (env_stores e 8) ?b1)"
    by (rule interfere_attributable [OF one]) (use assms(2) in \<open>auto simp: env_ok_def\<close>)
  have "worker_fields (snd (cycle_exchange e barrier b)) = worker_fields (interfere (env_stores e 8) ?b1)"
    by (simp add: cycle_exchange_def worker_fields_def Let_def split_beta)
  with two attributable_fields [OF this] show ?thesis by (simp add: worker_fields_def split: if_splits)
qed

lemma cycle_body_attributable:
  assumes "attributable Q b" and "env_ok Q (bus_devices b) e" and "epochs_advance e"
  shows "attributable Q (snd (snd (cycle_body e loc b)))
    \<and> bus_devices (snd (snd (cycle_body e loc b))) = bus_devices b"
proof -
  have fields: "attributable Q b2 \<and> bus_devices b2 = bus_devices b1"
    if "worker_fields b2 = worker_fields b1" "attributable Q b1" for b1 b2
    using that attributable_fields [OF that(1)] by (simp add: worker_fields_def)
  show ?thesis
  proof (cases "env_sleepResult e = 0 \<and> env_wake e \<noteq> None")
    case False
    then have "snd (snd (cycle_body e loc b)) = clock_fault b"
      by (auto simp: cycle_body_def split: option.split)
    with fields [OF clock_fault_fields assms(1)] show ?thesis by simp
  next
    case True
    then obtain wake where wake: "env_sleepResult e = 0" "env_wake e = Some wake" by auto
    obtain loc1 b1 where one: "cycle_begin wake loc b = (loc1, b1)" by fastforce
    obtain barrier b2 where two: "cycle_outputs e b1 = (barrier, b2)" by fastforce
    obtain wkc b3 where three: "cycle_exchange e barrier b2 = (wkc, b3)" by fastforce
    have f1: "attributable Q b1 \<and> bus_devices b1 = bus_devices b"
      using fields [of b1 b] cycle_begin_fields [of wake loc b] assms(1) one by simp
    have "attributable Q b2 \<and> bus_devices b2 = bus_devices b1"
      using cycle_outputs_inv(1,2) [of Q b1 e barrier b2] f1 two assms(2,3)
      by (simp add: attributable_def env_ok_def epochs_advance_def)
    with f1 have f3: "attributable Q b3 \<and> bus_devices b3 = bus_devices b"
      using cycle_exchange_attributable [of Q b2 e barrier] assms(2) three by simp
    let ?lost = "b3\<lparr>bus_lostFrames := AtomicSaturatingIncrement 1 [] (bus_lostFrames b3)\<rparr>"
    have lost: "attributable Q ?lost \<and> bus_devices ?lost = bus_devices b"
      using fields [of ?lost b3] f3 by (simp add: worker_fields_def)
    have fault: "attributable Q (process_data_fault x) \<and> bus_devices (process_data_fault x) = bus_devices b"
      if "attributable Q x \<and> bus_devices x = bus_devices b" for x
      using that process_data_fault_attributable [of Q x]
      by (simp add: process_data_fault_def RaiseFault_def Let_def)
    have finish: "attributable Q (snd (snd (cycle_finish e complete correction l x)))
        \<and> bus_devices (snd (snd (cycle_finish e complete correction l x))) = bus_devices b"
      if "attributable Q x \<and> bus_devices x = bus_devices b" for complete correction l x
      using that fields [OF cycle_finish_fields, of x] by simp
    have clock: "attributable Q (snd (cycle_clock e x)) \<and> bus_devices (snd (cycle_clock e x)) = bus_devices b"
      if "attributable Q x \<and> bus_devices x = bus_devices b" for x
      using that fields [OF cycle_clock_fields, of x] by simp
    show ?thesis
      unfolding cycle_body_def wake Let_def
      by (simp only: one two three split_beta fst_conv snd_conv option.case simp_thms if_False)
        (use f3 lost fault finish clock in \<open>simp split: if_split\<close>)
  qed
qed

lemma run_cycles_attributable:
  assumes "attributable Q b" and "\<forall>e \<in> set es. env_ok Q (bus_devices b) e \<and> epochs_advance e"
  shows "attributable Q (run_cycles es loc b)"
  using assms
proof (induction es arbitrary: loc b)
  case (Cons e es)
  let ?b = "interfere (env_stores e 9) b"
  have b: "attributable Q ?b"
    by (rule interfere_attributable) (use Cons.prems in \<open>auto simp: env_ok_def\<close>)
  obtain go loc1 b1 where body: "cycle_body e loc ?b = (go, loc1, b1)" by (metis prod_cases3)
  have b1: "attributable Q b1 \<and> bus_devices b1 = bus_devices b"
    using cycle_body_attributable [OF b, of e loc] Cons.prems(2) body by simp
  have "attributable Q (RaiseFault DrLinkLoss ?b)"
    using b attributable_fields [OF RaiseFault_fields] by simp
  then show ?case
    using Cons.IH [of b1 loc1] b1 b Cons.prems(2) by (simp add: body Let_def split: bool.split)
qed simp

section \<open>What initialisation establishes\<close>

definition context_closed :: "EthercatBus \<Rightarrow> bool" where
  "context_closed b \<longleftrightarrow>
     \<not> bus_contextOpen b \<and> bus_devices b = [] \<and> \<not> bus_outputsPermitted b \<and> bus_subDeviceCount b = 0
     \<and> \<not> bus_outputTopologyVerified b \<and> (\<forall>n \<in> set (bus_outputSizes b). n = 0)"

definition context_tracked :: "EthercatBus \<Rightarrow> bool" where
  "context_tracked b \<longleftrightarrow> bus_contextAttempted b \<or> \<not> bus_contextOpen b \<and> bus_devices b = []"

lemma CloseContext_closed: "context_tracked b \<Longrightarrow> context_closed (CloseContext b)"
  by (auto simp: CloseContext_def context_closed_def context_tracked_def Let_def ZeroOutputs_def)

lemma CloseContext_fields [simp]:
  "bus_outputCommands (CloseContext b) = bus_outputCommands b"
  "length (bus_outputSizes (CloseContext b)) = length (bus_outputSizes b)"
  "bus_configuration (CloseContext b) = bus_configuration b"
  by (simp_all add: CloseContext_def Let_def ZeroOutputs_def)

lemma initialize_reset_fields [simp]:
  "bus_outputCommands (initialize_reset b) = bus_outputCommands b"
  "length (bus_outputSizes (initialize_reset b)) = length (bus_outputSizes b)"
  "bus_contextAttempted (initialize_reset b)" "bus_devices (initialize_reset b) = []"
  "bus_configuration (initialize_reset b) = bus_configuration b"
  by (simp_all add: initialize_reset_def Let_def)

lemma initialize_map_Some:
  assumes "initialize_map sr b = Some b'"
    and "length (sr_devices sr) < EC_MAXSLAVE \<Longrightarrow> length (sr_devices sr) < length (bus_outputSizes b)"
  shows "bus_contextOpen b'" and "bus_devices b' = sr_devices sr" and "bus_io b' = bus_io b"
    and "bus_outputCommands b' = bus_outputCommands b" and "bus_expectedWorkingCounter b' > 0"
    and "\<forall>sd \<in> set (sr_devices sr). subdevice_checked (bus_io b) sd"
    and "0 < length (sr_devices sr)" and "length (sr_devices sr) < EC_MAXSLAVE"
    and "bus_contextAttempted b' = bus_contextAttempted b"
proof -
  let ?cfg = "bus_configuration b"
  obtain ts verified where
    top: "ValidateTopology (if_expectedSubDevices ?cfg) (if_allowUnverifiedTopology ?cfg) (bus_io b)
            (sr_devices sr) (bus_outputSizes b) (bus_outputBits b) = Inr (ts, verified)"
    and b': "b' = b\<lparr>bus_contextOpen := True, bus_devices := sr_devices sr,
        bus_outputSizes := ts_outputSizes ts, bus_outputBits := ts_outputBits ts,
        bus_outputTopologyVerified := verified,
        bus_expectedWorkingCounter := uint (sr_outputsWKC sr) * 2 + uint (sr_inputsWKC sr)\<rparr>"
    and wkc: "uint (sr_outputsWKC sr) * 2 + uint (sr_inputsWKC sr) > 0"
    and count: "0 < length (sr_devices sr)" "length (sr_devices sr) < EC_MAXSLAVE"
    using assms(1) unfolding initialize_map_def Let_def
    by (auto split: sum.splits bind_splits)
  show "0 < length (sr_devices sr)" "length (sr_devices sr) < EC_MAXSLAVE" by (fact count)+
  show "bus_contextOpen b'" "bus_devices b' = sr_devices sr" "bus_io b' = bus_io b"
    "bus_outputCommands b' = bus_outputCommands b" "bus_contextAttempted b' = bus_contextAttempted b"
    "bus_expectedWorkingCounter b' > 0"
    using wkc by (simp_all add: b')
  have "validate_subdevices (if_expectedSubDevices ?cfg) (if_allowUnverifiedTopology ?cfg) (bus_io b) 1
      (sr_devices sr) \<lparr>ts_outputCapable = False, ts_totalInputChunks = 0, ts_outputSizes = bus_outputSizes b,
        ts_outputBits = bus_outputBits b\<rparr> = Inr ts"
    using top by (auto simp: ValidateTopology_def split: if_split_asm sum.splits)
  from validate_subdevices_Inr [OF this] count(2) assms(2)
  show "\<forall>sd \<in> set (sr_devices sr). subdevice_checked (bus_io b) sd" by simp
qed

text \<open>A bus whose context is open on checked SubDevices with all outputs clear.\<close>

definition bus_ready :: "OutputCommand set \<Rightarrow> SubDevice list \<Rightarrow> EthercatBus \<Rightarrow> bool" where
  "bus_ready Q devices b \<longleftrightarrow>
     bus_devices b = devices \<and> (\<forall>sd \<in> set devices. subdevice_checked (bus_io b) sd)
     \<and> bus_contextAttempted b \<and> bus_expectedWorkingCounter b > 0 \<and> worker_ok Q b"

lemma subdevice_checked_shape:
  assumes "io_shape io' = io_shape io"
  shows "subdevice_checked io' sd = subdevice_checked io sd"
  unfolding subdevice_checked_def using PointerRange_shape [OF assms] device_ok_shape [OF assms] by simp

lemma exchange_zero_ready:
  assumes "bus_ready Q devices b" and "exchange_ok devices (sr_exchange sr n)"
  shows "bus_ready Q devices (exchange_zero sr n b) \<and> outputs_clear (exchange_zero sr n b)"
proof -
  have ok: "worker_ok Q b" and dev: "bus_devices b = devices" using assms(1) by (simp_all add: bus_ready_def)
  note z = ZeroOutputs_ok [OF ok]
  let ?io = "bus_io (ZeroOutputs b)"
  have "\<forall>sd \<in> set devices. device_ok (bus_io b) sd" using ok dev by (simp add: worker_ok_def)
  from zero_outputs_bits [OF this] ok dev have s1: "io_shape ?io = io_shape (bus_io b)"
    by (simp add: ZeroOutputs_def worker_ok_def)
  have s2: "io_shape (sr_exchange sr n ?io) = io_shape ?io" using assms(2) by (simp add: exchange_ok_def)
  have base: "io_base (sr_exchange sr n ?io) = io_base ?io" using s2 by (simp add: io_shape_def)
  have keep: "bus_contextAttempted (ZeroOutputs b) = bus_contextAttempted b"
    "bus_expectedWorkingCounter (ZeroOutputs b) = bus_expectedWorkingCounter b"
    by (simp_all add: ZeroOutputs_def)
  have "worker_ok Q (exchange_zero sr n b)"
    using z(1) device_ok_shape [OF s2] by (simp add: exchange_zero_def worker_ok_def Let_def)
  moreover have "outputs_clear (exchange_zero sr n b)"
    using z(2) assms(2) dev by (simp add: exchange_zero_def outputs_clear_def Let_def base exchange_ok_def)
  ultimately show ?thesis
    using assms(1) subdevice_checked_shape [OF s1] subdevice_checked_shape [OF s2] keep
    by (simp add: bus_ready_def exchange_zero_def Let_def)
qed

lemma reach_operational_ready:
  assumes "bus_ready Q devices b" and "outputs_clear b" and "\<forall>n. exchange_ok devices (sr_exchange sr n)"
    and "reach_operational sr attempts b = (ok, b')"
  shows "bus_ready Q devices b' \<and> outputs_clear b'"
  using assms
proof (induction attempts arbitrary: b)
  case (Cons a attempts)
  have "bus_ready Q devices (exchange_zero sr (Suc a) b) \<and> outputs_clear (exchange_zero sr (Suc a) b)"
    using Cons.prems by (intro exchange_zero_ready) simp_all
  with Cons show ?case by (auto simp: Let_def split: if_split_asm)
qed simp

lemma initialize_clock_Some:
  assumes "initialize_clock sr b = Some b'"
  shows "bus_ready Q devices b' = bus_ready Q devices b" and "worker_fields b' = worker_fields b"
  using assms by (auto simp: initialize_clock_def bus_ready_def worker_ok_def worker_fields_def
      split: if_split_asm bind_splits)

lemma initialize_ready:
  assumes "queue_ok (bus_outputCommands b)" and "set (queue_contents (bus_outputCommands b)) \<subseteq> Q"
    and "length (sr_devices sr) < EC_MAXSLAVE \<Longrightarrow> length (sr_devices sr) < length (bus_outputSizes b)"
    and "\<forall>n. exchange_ok (sr_devices sr) (sr_exchange sr n)"
    and "Initialize sr b = (ok, b')"
  shows "(ok \<longrightarrow> bus_state b' = BusOperational \<and> bus_ready Q (sr_devices sr) b' \<and> outputs_clear b'
            \<and> 0 < length (sr_devices sr) \<and> unat (bus_subDeviceCount b') = length (sr_devices sr))
    \<and> (\<not> ok \<longrightarrow> context_closed b')"
proof -
  let ?r = "initialize_reset b"
  have closed: "context_closed (CloseContext ?r)" by (rule CloseContext_closed) (simp add: context_tracked_def)
  show ?thesis
  proof (cases "initialize_map sr ?r \<bind> initialize_clock sr")
    case None
    with assms(5) closed show ?thesis by (auto simp: Initialize_def Let_def)
  next
    case (Some b2)
    then obtain b1 where m: "initialize_map sr ?r = Some b1" and c: "initialize_clock sr b1 = Some b2"
      by (auto split: bind_splits)
    note map = initialize_map_Some [OF m]
    have r1: "bus_ready Q (sr_devices sr) b1"
      using map assms(1,2,3) by (simp add: bus_ready_def worker_ok_def subdevice_checked_def)
    then have "bus_ready Q (sr_devices sr) (b2\<lparr>bus_state := BusSafeOperational\<rparr>)"
      using initialize_clock_Some(1) [OF c] by (simp add: bus_ready_def worker_ok_def)
    then have r3: "bus_ready Q (sr_devices sr) (exchange_zero sr 0 (b2\<lparr>bus_state := BusSafeOperational\<rparr>))
        \<and> outputs_clear (exchange_zero sr 0 (b2\<lparr>bus_state := BusSafeOperational\<rparr>))"
      using assms(4) by (intro exchange_zero_ready) simp_all
    obtain op b4 where four: "reach_operational sr [0..<10]
        (exchange_zero sr 0 (b2\<lparr>bus_state := BusSafeOperational\<rparr>)) = (op, b4)" by fastforce
    have r4: "bus_ready Q (sr_devices sr) b4 \<and> outputs_clear b4"
      using reach_operational_ready [OF _ _ assms(4) four] r3 by blast
    have result: "(ok, b') = (if \<not> op then (False, CloseContext b4)
        else (True, b4\<lparr>bus_subDeviceCount := of_nat (length (bus_devices b4)), bus_faults := 0,
               bus_state := BusOperational\<rparr>))"
      using assms(5) Some four by (simp add: Initialize_def Let_def del: upt_conv_Cons)
    have "length (sr_devices sr) < 2 ^ 16" using map(8) by (simp add: EC_MAXSLAVE_def assms(3))
    then have "unat (of_nat (length (sr_devices sr)) :: u16) = length (sr_devices sr)"
      by (simp add: unsigned_of_nat take_bit_nat_eq_self)
    moreover have "context_closed (CloseContext b4)"
      by (rule CloseContext_closed) (use r4 in \<open>simp add: bus_ready_def context_tracked_def\<close>)
    ultimately show ?thesis
      using result r4 map(7) assms(3)
      by (auto simp: bus_ready_def outputs_clear_def worker_ok_def split: if_split_asm)
  qed
qed

text \<open>
  C6: a bus becomes operational only in a safe state, and a failed start leaves nothing behind. When
  initialisation succeeds, the master found between 1 and 199 SubDevices, all of them passed the
  topology check against the IO map, a non-zero working counter is expected and every output bit is
  zero. The size table is assumed to cover every admissible number of SubDevices. When it fails at any step, the context is closed, no SubDevice is addressable, every
  published size is zero and outputs are not permitted. The master is assumed to write only inputs.
\<close>

theorem initialize_sound:
  assumes "queue_ok (bus_outputCommands b)"
    and "length (sr_devices sr) < EC_MAXSLAVE \<Longrightarrow> length (sr_devices sr) < length (bus_outputSizes b)"
    and "\<forall>n. exchange_ok (sr_devices sr) (sr_exchange sr n)"
    and "Initialize sr b = (ok, b')"
  shows "(ok \<longrightarrow> bus_state b' = BusOperational \<and> bus_devices b' = sr_devices sr
            \<and> 0 < length (bus_devices b') \<and> unat (bus_subDeviceCount b') = length (bus_devices b')
            \<and> (\<forall>sd \<in> set (bus_devices b'). subdevice_checked (bus_io b') sd)
            \<and> bus_expectedWorkingCounter b' > 0 \<and> outputs_clear b')
    \<and> (\<not> ok \<longrightarrow> context_closed b')"
  using initialize_ready [OF assms(1) subset_refl assms(2-4)] by (auto simp: bus_ready_def)

definition example_reply :: SoemReply where
  "example_reply =
     \<lparr>sr_init = 1, sr_discovered = 1, sr_devices = [example_subdevice], sr_mapped = 3, sr_outputsWKC = 1,
      sr_inputsWKC = 1, sr_groupOutputs = Some 16, sr_groupObytes = 2, sr_groupInputs = Some 18,
      sr_groupIbytes = 1, sr_configdc = False, sr_groupHasdc = False, sr_exchange = (\<lambda>n io. io),
      sr_operational = (\<lambda>n. n = 1)\<rparr>"

definition example_start :: EthercatBus where
  "example_start =
     example_bus\<lparr>bus_state := BusStarting, bus_contextOpen := False, bus_contextAttempted := False,
       bus_devices := [], bus_outputSizes := [0, 0], bus_outputBits := [0, 0]\<rparr>"

theorem initialize_sound_witness:
  "\<exists>b'. Initialize example_reply example_start = (True, b') \<and> bus_state b' = BusOperational
     \<and> outputs_clear b' \<and> bus_expectedWorkingCounter b' > 0"
proof -
  obtain ok b' where run: "Initialize example_reply example_start = (ok, b')" by fastforce
  have "fst (Initialize example_reply example_start)" by code_simp
  with run have ok: ok by simp
  have "queue_ok (bus_outputCommands example_start)" by code_simp
  moreover have "length (sr_devices example_reply) < length (bus_outputSizes example_start)"
    by (simp add: example_start_def example_reply_def)
  moreover have "\<forall>n. exchange_ok (sr_devices example_reply) (sr_exchange example_reply n)"
    by (simp add: example_reply_def exchange_ok_def)
  ultimately show ?thesis using initialize_sound [OF _ _ _ run] run ok by simp
qed

end
