(* ===== verification/Bus_Safety.thy ===== *)
theory Bus_Safety
  imports Bus_Run
begin

text \<open>
  Properties of whole runs of the worker: the origin of output bits over any number of cycles, the
  safety barrier that gates a new controller, the per-SubDevice freshness watchdog, and the coherence
  of published inputs.
\<close>

section \<open>Many cycles\<close>

text \<open>
  C3: over the whole operational phase of a bus, outputs belong to the epoch the worker has observed.
  Start from any successful initialisation and run any number of cycles, with arbitrary stores by other
  threads and arbitrary results of the master and the clocks, ending however they end. Every output
  bit set in the IO map was set by a command that was really queued and that carries the observed epoch.
\<close>

theorem outputs_attributable_over_run:
  assumes "queue_ok (bus_outputCommands b)" and "set (queue_contents (bus_outputCommands b)) \<subseteq> Q"
    and "length (sr_devices sr) < EC_MAXSLAVE \<Longrightarrow> length (sr_devices sr) < length (bus_outputSizes b)"
    and "\<forall>n. exchange_ok (sr_devices sr) (sr_exchange sr n)"
    and "Initialize sr b = (True, b')"
    and "\<forall>e \<in> set es. env_ok Q (sr_devices sr) e \<and> epochs_advance e"
    and "RunCyclic start es b' = c"
  shows "\<forall>sd \<in> set (bus_devices c). \<forall>j \<in> device_bits (io_base (bus_io c)) sd.
           io_bit (bus_io c) j \<longrightarrow>
             bit_from Q (bus_observedSafetyEpoch c) (bus_devices c) (io_base (bus_io c)) j"
proof -
  have ready: "bus_ready Q (sr_devices sr) b' \<and> outputs_clear b'"
    using initialize_ready [OF assms(1-5)] by blast
  then have first: "attributable Q b'"
    using epoch_image_clear [of b' Q] by (simp add: attributable_def worker_inv_def bus_ready_def)
  have dev: "\<forall>e \<in> set es. env_ok Q (bus_devices b') e \<and> epochs_advance e"
    using ready assms(6) by (simp add: bus_ready_def)
  have "attributable Q c"
  proof (cases start)
    case None
    then have "c = clock_fault b'" using assms(7) by (simp add: RunCyclic_def)
    with first show ?thesis using attributable_fields [OF clock_fault_fields] by simp
  next
    case (Some t)
    with assms(7) run_cycles_attributable [OF first dev] show ?thesis
      by (auto simp: RunCyclic_def)
  qed
  then show ?thesis by (simp add: attributable_def worker_inv_def epoch_image_def)
qed

definition example_operational :: EthercatBus where
  "example_operational =
     example_bus\<lparr>bus_outputsPermitted := False, bus_outputsWerePermitted := False,
       bus_lastOutputCommandUs := [0, 0], bus_io := \<lparr>io_base = 16, io_bytes = [0, 0, 0, 0]\<rparr>\<rparr>"

definition example_permitted :: EthercatBus where
  "example_permitted = example_operational\<lparr>bus_outputsPermitted := True\<rparr>"

definition example_driven :: EthercatBus where
  "example_driven =
     example_bus\<lparr>bus_lastOutputCommandUs := [0, 1000000],
       bus_outputCommands := \<lparr>q_values = [example_command, example_command], q_read = 1, q_write = 1\<rparr>,
       bus_io := \<lparr>io_base = 16, io_bytes = [0x55, 0x05, 0, 0]\<rparr>\<rparr>"

definition example_permit :: CycleEnv where
  "example_permit = example_env\<lparr>env_stores := (\<lambda>n. if n = 9 then [StorePermitted True] else [])\<rparr>"

definition example_locals :: CycleLocals where
  "example_locals =
     \<lparr>loc_next = \<lparr>tv_sec = 1, tv_nsec = 5000000\<rparr>, loc_observedReset = 0, loc_misses = 0,
      loc_observedInputPeriod = 0, loc_nextInputPublication = 0\<rparr>"

lemma example_initialized: "Initialize example_reply example_start = (True, example_operational)"
  by code_simp

lemma example_cycle:
  "RunCyclic (Some \<lparr>tv_sec = 1, tv_nsec = 0\<rparr>) [example_permit] example_operational =
     example_driven\<lparr>bus_cycleSequence := 42\<rparr>"
proof -
  have steps: "interfere (env_stores example_permit 9) example_operational = example_permitted"
    "cycle_begin \<lparr>tv_sec = 1, tv_nsec = 5000000\<rparr> example_locals example_permitted =
       (example_locals, example_permitted)"
    "cycle_outputs example_permit example_permitted = (False, example_driven)"
    "cycle_exchange example_permit False example_driven = (3, example_driven\<lparr>bus_cycleSequence := 42\<rparr>)"
    "snd (snd (cycle_finish example_permit True 0 example_locals (example_driven\<lparr>bus_cycleSequence := 42\<rparr>))) =
       example_driven\<lparr>bus_cycleSequence := 42\<rparr>"
    by code_simp+
  have fields: "bus_running example_permitted" "bus_linkUp example_permitted"
    "bus_state example_permitted = BusOperational" "bus_expectedWorkingCounter example_driven = 3"
    "\<not> bus_dcConfigured example_driven" "env_sleepResult example_permit = 0"
    "env_wake example_permit = Some \<lparr>tv_sec = 1, tv_nsec = 5000000\<rparr>" "loc_misses example_locals = 0"
    by (simp_all add: example_permitted_def example_operational_def example_driven_def example_bus_def
        example_permit_def example_env_def example_locals_def)
  have same: "example_locals\<lparr>loc_misses := 0\<rparr> = example_locals" by (simp add: example_locals_def)
  obtain go loc where finish: "cycle_finish example_permit True 0 example_locals
      (example_driven\<lparr>bus_cycleSequence := 42\<rparr>) = (go, loc, example_driven\<lparr>bus_cycleSequence := 42\<rparr>)"
    using steps(5) by (metis prod.collapse)
  have body: "cycle_body example_permit example_locals example_permitted =
      (go, loc, example_driven\<lparr>bus_cycleSequence := 42\<rparr>)"
    by (simp add: cycle_body_def steps(2-4) fields same finish)
  have "\<lparr>loc_next = AddToTimespec \<lparr>tv_sec = 1, tv_nsec = 0\<rparr> (bus_cyclePeriod example_operational),
      loc_observedReset = bus_resetCounterSequence example_operational, loc_misses = 0,
      loc_observedInputPeriod = 0, loc_nextInputPublication = 0\<rparr> = example_locals" by code_simp
  then show ?thesis by (simp add: RunCyclic_def steps(1) fields body split: bool.split)
qed

theorem outputs_attributable_over_run_witness:
  "Initialize example_reply example_start = (True, example_operational)
   \<and> RunCyclic (Some \<lparr>tv_sec = 1, tv_nsec = 0\<rparr>) [example_permit] example_operational =
       example_driven\<lparr>bus_cycleSequence := 42\<rparr>
   \<and> io_bit (bus_io example_driven) 2 \<and> bit_from {example_command} 7 [example_subdevice] 16 2"
proof -
  have queue: "queue_ok (bus_outputCommands example_start)" by code_simp
  have contents: "set (queue_contents (bus_outputCommands example_start)) \<subseteq> {example_command}" by code_simp
  have size: "length (sr_devices example_reply) < length (bus_outputSizes example_start)"
    by (simp add: example_start_def example_reply_def)
  have exchange: "\<forall>n. exchange_ok (sr_devices example_reply) (sr_exchange example_reply n)"
    by (simp add: example_reply_def exchange_ok_def)
  have "concat (map (env_stores example_permit) [0..<Suc n]) = []" if "n < 9" for n
    using that by (auto simp: example_permit_def)
  then have seen: "seen example_permit n b = b" if "n < 9" for n b
    using that unfolding seen_def by (simp only: interfere_def fold_simps id_apply)
  have permit: "env_stores example_permit n = (if n = 9 then [StorePermitted True] else [])"
    "env_receive example_permit io = (3, io)" for n io by (simp_all add: example_permit_def example_env_def)
  have env: "\<forall>e \<in> set [example_permit]. env_ok {example_command} (sr_devices example_reply) e \<and> epochs_advance e"
    by (auto simp: env_ok_def epochs_advance_def seen exchange_ok_def pushes_def permit)
  have fields: "bus_observedSafetyEpoch example_driven = 7" "bus_devices example_driven = [example_subdevice]"
    "io_base (bus_io example_driven) = 16"
    by (simp_all add: example_driven_def example_bus_def)
  have bit: "io_bit (bus_io example_driven) 2" by code_simp
  have "2 \<in> device_bits 16 example_subdevice"
    by (simp add: device_bits_def example_subdevice_def io_offset_def)
  with outputs_attributable_over_run [OF queue contents size exchange example_initialized env example_cycle]
  have "bit_from {example_command} 7 [example_subdevice] 16 2" using bit by (simp add: fields)
  with bit example_initialized example_cycle show ?thesis by blast
qed

section \<open>The safety barrier\<close>

definition barrier_fields :: "EthercatBus \<Rightarrow> u64 \<times> int" where
  "barrier_fields b = (bus_safetyEpochApplied b, bus_expectedWorkingCounter b)"

lemma barrier_store: "barrier_fields (shared_store st b) = barrier_fields b"
  by (cases st) (simp_all add: barrier_fields_def bus_ResetCounters_def QueueOutput_def split_beta Let_def)

lemma barrier_interfere [simp]: "barrier_fields (interfere stores b) = barrier_fields b"
  unfolding interfere_def by (induction stores arbitrary: b) (simp_all add: barrier_store)

lemma barrier_ZeroOutputs [simp]: "barrier_fields (ZeroOutputs b) = barrier_fields b"
  by (simp add: ZeroOutputs_def barrier_fields_def)

lemma barrier_force_zero [simp]: "barrier_fields (force_zero b) = barrier_fields b"
  using barrier_ZeroOutputs [of b] by (simp add: force_zero_def barrier_fields_def)

lemma barrier_apply_command [simp]: "barrier_fields (apply_command epoch permitted now c b) = barrier_fields b"
  by (simp add: apply_command_def Let_def barrier_fields_def split: option.split)

lemma barrier_apply_commands [simp]: "barrier_fields (apply_commands n epoch permitted now b) = barrier_fields b"
proof (induction n arbitrary: b)
  case (Suc n)
  have "barrier_fields (b\<lparr>bus_outputCommands := q\<rparr>) = barrier_fields b" for q
    by (simp add: barrier_fields_def)
  with Suc show ?case by (simp split: prod.split option.split)
qed simp

lemma barrier_begin_permitted [simp]: "barrier_fields (begin_permitted now b) = barrier_fields b"
  using barrier_ZeroOutputs [of b] by (simp add: begin_permitted_def barrier_fields_def Let_def)

lemma barrier_ApplyOutputCommands [simp]: "barrier_fields (ApplyOutputCommands s1 s2 now b) = barrier_fields b"
  by (simp add: ApplyOutputCommands_def Let_def)

lemma barrier_enforce: "barrier_fields (fst (enforce_freshness now i bn)) = barrier_fields (fst bn)"
  by (cases bn) (simp add: enforce_freshness_def Let_def barrier_fields_def)

lemma barrier_enforce_fold: "barrier_fields (fst (fold (enforce_freshness now) is bn)) = barrier_fields (fst bn)"
  by (induction "is" arbitrary: bn) (simp_all add: barrier_enforce)

lemma barrier_Freshness [simp]: "barrier_fields (EnforcePerSubDeviceFreshness now b) = barrier_fields b"
proof -
  obtain b' n' where f: "fold (enforce_freshness now) [1..<Suc (length (bus_devices b))] (b, 0) = (b', n')"
    by fastforce
  have "barrier_fields b' = barrier_fields b"
    using barrier_enforce_fold [of now "[1..<Suc (length (bus_devices b))]" "(b, 0)"] f by simp
  then show ?thesis
    unfolding EnforcePerSubDeviceFreshness_def f by (simp add: barrier_fields_def)
qed

lemma barrier_observed [simp]: "barrier_fields (b\<lparr>bus_observedSafetyEpoch := x\<rparr>) = barrier_fields b"
  by (simp add: barrier_fields_def)

lemma barrier_cycle_outputs: "barrier_fields (snd (cycle_outputs e b)) = barrier_fields b"
  by (simp add: cycle_outputs_def cycle_command_phase_def cycle_recheck_phase_def Let_def split_beta)

text \<open>
  C5: the barrier a new controller waits for is real. In any cycle, whatever other threads store
  meanwhile, the applied epoch only changes when the image transmitted in this very cycle
  had every output bit clear, the exchange was sent and answered by all SubDevices, and the epoch
  recorded as applied is the one in force at the last check before transmission.
\<close>

theorem safety_barrier_sound:
  assumes "worker_inv Q (bus_observedSafetyEpoch b) b" and "\<forall>n. pushes (env_stores e n) \<subseteq> Q"
    and "epochs_advance e"
    and "cycle_outputs e b = (barrier, b1)" and "cycle_exchange e barrier b1 = (workingCounter, b2)"
    and "bus_safetyEpochApplied b2 \<noteq> bus_safetyEpochApplied b"
  shows "outputs_clear b1 \<and> env_sent e > 0 \<and> workingCounter \<ge> bus_expectedWorkingCounter b
    \<and> bus_safetyEpochApplied b2 = bus_safetyEpoch (seen e 5 b)"
proof -
  have advance: "bus_safetyEpoch (seen e 5 b) = bus_safetyEpoch (seen e 0 b) \<longrightarrow>
      bus_safetyEpoch (seen e 1 b) = bus_safetyEpoch (seen e 0 b)"
    using assms(3) by (simp add: epochs_advance_def)
  note inv = cycle_outputs_inv [OF assms(1,2) advance assms(4)]
  have before: "bus_safetyEpochApplied b1 = bus_safetyEpochApplied b"
    "bus_expectedWorkingCounter b1 = bus_expectedWorkingCounter b"
    using barrier_cycle_outputs [of e b] assms(4) by (simp_all add: barrier_fields_def)
  define b1' where "b1' = (if env_sent e > 0 then b1\<lparr>bus_io := snd (env_receive e (bus_io b1))\<rparr> else b1)"
  define b1i where "b1i = interfere (env_stores e 8) b1'"
  have same: "bus_safetyEpochApplied b1i = bus_safetyEpochApplied b"
    "bus_expectedWorkingCounter b1i = bus_expectedWorkingCounter b"
    "bus_observedSafetyEpoch b1i = bus_observedSafetyEpoch b1"
    using barrier_interfere [of "env_stores e 8" b1'] before
    by (simp_all add: b1i_def b1'_def barrier_fields_def split: if_splits)
  have result: "workingCounter = (if env_sent e > 0 then fst (env_receive e (bus_io b1)) else - 1)"
    "bus_safetyEpochApplied b2 =
      (if barrier \<and> env_sent e > 0 \<and> workingCounter \<ge> bus_expectedWorkingCounter b1i
          \<and> bus_safetyEpoch b1i = bus_observedSafetyEpoch b1i
       then bus_observedSafetyEpoch b1i else bus_safetyEpochApplied b1i)"
    using assms(5) by (auto simp: cycle_exchange_def Let_def split_beta b1i_def b1'_def)
  then show ?thesis using assms(6) same inv(3,4) by (auto split: if_split_asm)
qed

definition example_takeover :: CycleEnv where
  "example_takeover = example_env\<lparr>env_stores := (\<lambda>n. if n = 0 then [StoreEpoch 8] else [])\<rparr>"

theorem safety_barrier_sound_witness:
  "\<exists>b1 b2. cycle_outputs example_takeover example_bus = (True, b1)
     \<and> cycle_exchange example_takeover True b1 = (3, b2)
     \<and> outputs_clear b1 \<and> bus_safetyEpochApplied example_bus = 7 \<and> bus_safetyEpochApplied b2 = 8"
proof -
  obtain barrier b1 where outputs: "cycle_outputs example_takeover example_bus = (barrier, b1)" by fastforce
  obtain wkc b2 where exchange: "cycle_exchange example_takeover barrier b1 = (wkc, b2)" by fastforce
  have "(let (barrier, b1) = cycle_outputs example_takeover example_bus;
             (wkc, b2) = cycle_exchange example_takeover barrier b1
         in (barrier, wkc, bus_safetyEpochApplied b2)) = (True, 3, 8)" by code_simp
  then have result: "barrier" "wkc = 3" "bus_safetyEpochApplied b2 = 8"
    using outputs exchange by simp_all
  have fields: "bus_observedSafetyEpoch example_bus = 7" "bus_safetyEpochApplied example_bus = 7"
    by (simp_all add: example_bus_def)
  have inv: "worker_inv {example_command} (bus_observedSafetyEpoch example_bus) example_bus"
    using example_worker_inv by (simp add: fields)
  have pushes: "\<forall>n. pushes (env_stores example_takeover n) \<subseteq> {example_command}"
    by (auto simp: example_takeover_def pushes_def)
  have "concat (map (env_stores example_takeover) [0..<Suc n]) = [StoreEpoch 8]" for n
    by (induction n) (simp_all add: example_takeover_def)
  then have seen: "seen example_takeover n b = shared_store (StoreEpoch 8) b" for n b
    unfolding seen_def by (simp only: interfere_def fold_simps)
  have advance: "epochs_advance example_takeover" by (simp add: epochs_advance_def seen)
  have "bus_safetyEpochApplied b2 \<noteq> bus_safetyEpochApplied example_bus" by (simp add: result fields)
  then have "outputs_clear b1"
    using safety_barrier_sound [OF inv pushes advance outputs exchange] by blast
  with outputs exchange result fields show ?thesis by auto
qed

section \<open>Freshness of output commands\<close>

definition stale_at :: "u64 \<Rightarrow> EthercatBus \<Rightarrow> nat \<Rightarrow> bool" where
  "stale_at now b i \<longleftrightarrow>
     (let sd = bus_devices b ! (i - 1); last = bus_lastOutputCommandUs b ! i
      in sd_Obits sd \<noteq> 0 \<and> sd_outputs sd \<noteq> None
         \<and> (last = 0 \<or> now < last \<or> now - last > command_timeout_us b))"

lemma enforce_freshness_bits:
  assumes "worker_ok Q b" and "1 \<le> i" and "i \<le> length (bus_devices b)"
    and "enforce_freshness now i (b, n) = (b', n')"
  shows "io_bit (bus_io b') j \<longleftrightarrow> io_bit (bus_io b) j
      \<and> (stale_at now b i \<longrightarrow> j \<notin> device_bits (io_base (bus_io b)) (bus_devices b ! (i - 1)))"
    and "stale_at now b' k = stale_at now b k" and "io_base (bus_io b') = io_base (bus_io b)"
proof -
  let ?sd = "bus_devices b ! (i - 1)"
  have dev: "device_ok (bus_io b) ?sd" using assms(1,2,3) by (simp add: worker_ok_def)
  note z = zero_device_bits [OF dev]
  have io: "bus_io b' = (if stale_at now b i then zero_device ?sd (bus_io b) else bus_io b)"
    and same: "bus_devices b' = bus_devices b" "bus_lastOutputCommandUs b' = bus_lastOutputCommandUs b"
      "bus_outputCommandTimeout b' = bus_outputCommandTimeout b"
    using assms(4) by (auto simp: enforce_freshness_def stale_at_def Let_def image_length_zero split: if_split_asm)
  show "io_bit (bus_io b') j \<longleftrightarrow> io_bit (bus_io b) j
      \<and> (stale_at now b i \<longrightarrow> j \<notin> device_bits (io_base (bus_io b)) ?sd)"
    using z by (simp add: io)
  show "stale_at now b' k = stale_at now b k" by (simp add: stale_at_def same command_timeout_us_def)
  show "io_base (bus_io b') = io_base (bus_io b)" using z by (simp add: io io_shape_def)
qed

lemma freshness_fold_bits:
  assumes "worker_ok Q b" and "\<forall>i \<in> set is. 1 \<le> i \<and> i \<le> length (bus_devices b)"
    and "fold (enforce_freshness now) is (b, n) = (b', n')"
  shows "io_bit (bus_io b') j \<longleftrightarrow> io_bit (bus_io b) j
      \<and> (\<forall>i \<in> set is. stale_at now b i \<longrightarrow> j \<notin> device_bits (io_base (bus_io b)) (bus_devices b ! (i - 1)))"
  using assms
proof (induction "is" arbitrary: b n)
  case (Cons i "is")
  obtain b1 n1 where one: "enforce_freshness now i (b, n) = (b1, n1)" by fastforce
  have i: "1 \<le> i" "0 < i" "i \<le> length (bus_devices b)" using Cons.prems(2) by auto
  note bits = enforce_freshness_bits [OF Cons.prems(1) i(1,3) one]
  note inv = enforce_freshness_inv [OF Cons.prems(1) i(2,3) one]
  have rest: "fold (enforce_freshness now) is (b1, n1) = (b', n')" using Cons.prems(3) one by simp
  have "io_bit (bus_io b') j \<longleftrightarrow> io_bit (bus_io b1) j
      \<and> (\<forall>i \<in> set is. stale_at now b1 i \<longrightarrow> j \<notin> device_bits (io_base (bus_io b1)) (bus_devices b1 ! (i - 1)))"
    using Cons.IH [OF _ _ rest] inv Cons.prems(2) by simp
  with bits inv show ?case by auto
qed simp

text \<open>
  C7: the freshness watchdog acts on exactly the stale SubDevices. While outputs are permitted, after the
  check an output bit is set if and only if it was set before and belongs to no SubDevice whose last
  accepted command is missing, from the future or older than the command timeout.
\<close>

theorem freshness_exact:
  assumes "worker_ok Q b" and "bus_outputsPermitted b"
  shows "io_bit (bus_io (EnforcePerSubDeviceFreshness now b)) j \<longleftrightarrow>
    io_bit (bus_io b) j
    \<and> (\<forall>i. 1 \<le> i \<and> i \<le> length (bus_devices b) \<and> stale_at now b i \<longrightarrow>
          j \<notin> device_bits (io_base (bus_io b)) (bus_devices b ! (i - 1)))"
proof -
  obtain b' n' where f: "fold (enforce_freshness now) [1..<Suc (length (bus_devices b))] (b, 0) = (b', n')"
    by fastforce
  have range: "\<forall>i \<in> set [1..<Suc (length (bus_devices b))]. 1 \<le> i \<and> i \<le> length (bus_devices b)" by auto
  have "bus_io (EnforcePerSubDeviceFreshness now b) = bus_io b'"
    unfolding EnforcePerSubDeviceFreshness_def f using assms(2) by simp
  with freshness_fold_bits [OF assms(1) range f, of j] show ?thesis by auto
qed

theorem freshness_exact_witness:
  "io_bit (bus_io example_driven) 2 \<and> io_bit (bus_io (EnforcePerSubDeviceFreshness 1100000 example_driven)) 2
   \<and> \<not> io_bit (bus_io (EnforcePerSubDeviceFreshness 1100001 example_driven)) 2"
proof -
  have "queue_contents (bus_outputCommands example_driven) = []"
    and device: "device_ok (bus_io example_driven) example_subdevice" by code_simp+
  then have ok: "worker_ok {example_command} example_driven"
    by (simp add: worker_ok_def) (simp add: example_driven_def example_bus_def queue_ok_def)
  have permitted: "bus_outputsPermitted example_driven" and devices: "bus_devices example_driven = [example_subdevice]"
    by (simp_all add: example_driven_def example_bus_def)
  have bit: "io_bit (bus_io example_driven) 2" by code_simp
  have stale: "\<not> stale_at 1100000 example_driven 1" "stale_at 1100001 example_driven 1" by code_simp+
  have own: "2 \<in> device_bits (io_base (bus_io example_driven)) example_subdevice"
    by (simp add: device_bits_def example_driven_def example_subdevice_def io_offset_def)
  have one: "(1 \<le> i \<and> i \<le> 1) \<longleftrightarrow> i = 1" for i :: nat by auto
  show ?thesis
    using freshness_exact [OF ok permitted, of 1100000 2] freshness_exact [OF ok permitted, of 1100001 2]
      bit stale own by (auto simp: devices one)
qed

end
