(* ===== verification/Mini_Json.thy ===== *)
theory Mini_Json
  imports Bus_Info "HOL-Library.Char_ord"
begin

text \<open>
  The JSON reader of \<^verbatim>\<open>mini_json.hpp\<close>. The parser state, an offset into the text and a node
  count, is the remaining text and a number; every \<^verbatim>\<open>throw\<close> is a value of \<open>JsonError\<close>.
  The reader keeps of a number its lexeme; the binary floating-point value is only checked to be finite,
  by a conversion that is the parameter \<open>finite_number\<close>. An object is the list of its members in
  order of appearance, with distinct keys.
\<close>

section \<open>Results\<close>

definition andThen :: "'e + 'a \<Rightarrow> ('a \<Rightarrow> 'e + 'b) \<Rightarrow> 'e + 'b" where
  "andThen m f = (case m of Inl e \<Rightarrow> Inl e | Inr x \<Rightarrow> f x)"

lemma andThen_simps [simp]: "andThen (Inl e) f = Inl e" "andThen (Inr x) f = f x"
  by (simp_all add: andThen_def)

lemma andThen_cong [fundef_cong]:
  "m = m' \<Longrightarrow> (\<And>x. m' = Inr x \<Longrightarrow> f x = g x) \<Longrightarrow> andThen m f = andThen m' g"
  by (cases m') simp_all

lemma andThen_Inr_iff: "andThen m f = Inr y \<longleftrightarrow> (\<exists>x. m = Inr x \<and> f x = Inr y)"
  by (cases m) simp_all

section \<open>Values, limits and errors\<close>

datatype Json =
    JNull
  | JObject "(string \<times> Json) list"
  | JArray "Json list"
  | JString string
  | JBool bool
  | JNumber string

record Limits =
  lim_maximumBytes :: nat
  lim_maximumDepth :: nat
  lim_maximumNodes :: nat
  lim_maximumStringBytes :: nat

datatype JsonError =
    InputTooLarge | InvalidLimits | TrailingData | NestingLimit | NodeLimit | UnexpectedEnd
  | UnexpectedToken | KeyNotString | DuplicateKey | ObjectSeparator | ArraySeparator
  | MalformedUtf8 | ControlCharacter | UnsupportedEscape | UnterminatedString | StringLimit
  | InvalidUnicodeEscape | InvalidSurrogatePair | UnpairedLowSurrogate
  | InvalidNumber | LeadingZero | InvalidFraction | InvalidExponent | NonFiniteNumber
  | InvalidLiteral | UnexpectedCharacter
  | NotAnInteger | IntegerSyntax | IntegerRange | FieldNotString | FieldNotBoolean | FieldNotInteger
  | FieldIntegerRange

section \<open>Characters\<close>

definition IsDigit :: "char \<Rightarrow> bool" where
  "IsDigit c \<longleftrightarrow> CHR ''0'' \<le> c \<and> c \<le> CHR ''9''"

definition IsJsonWhitespace :: "char \<Rightarrow> bool" where
  "IsJsonWhitespace c \<longleftrightarrow> c = CHR '' '' \<or> c = CHR 0x09 \<or> c = CHR 0x0D \<or> c = CHR 0x0A"

definition skipWhitespace :: "string \<Rightarrow> string" where
  "skipWhitespace s = dropWhile IsJsonWhitespace s"

fun get_char :: "string \<Rightarrow> JsonError + (char \<times> string)" where
  "get_char [] = Inl UnexpectedEnd"
| "get_char (c # s) = Inr (c, s)"

definition expect :: "char \<Rightarrow> string \<Rightarrow> JsonError + string" where
  "expect expected s =
     andThen (get_char s) (\<lambda>(c, s). if c \<noteq> expected then Inl UnexpectedCharacter else Inr s)"

fun consumeLiteral :: "string \<Rightarrow> string \<Rightarrow> JsonError + string" where
  "consumeLiteral [] s = Inr s"
| "consumeLiteral (expected # literal) s =
     andThen (get_char s)
       (\<lambda>(c, s). if c \<noteq> expected then Inl InvalidLiteral else consumeLiteral literal s)"

section \<open>Strings\<close>

fun json_utf8 :: "bytes \<Rightarrow> bool" where
  "json_utf8 [] = True"
| "json_utf8 (first # rest) =
     (if first \<le> 0x7f then json_utf8 rest
      else case Utf8Lead first of
             None \<Rightarrow> False
           | Some (continuations, lead) \<Rightarrow>
               if length (first # rest) \<le> continuations then False
               else case Utf8Continue (take continuations rest) lead of
                      None \<Rightarrow> False
                    | Some codePoint \<Rightarrow>
                        if Utf8Forbidden continuations codePoint then False
                        else json_utf8 (drop continuations rest))"

definition appendByte :: "Limits \<Rightarrow> string \<Rightarrow> char \<Rightarrow> JsonError + string" where
  "appendByte lim v b = (if length v \<ge> lim_maximumStringBytes lim then Inl StringLimit else Inr (v @ [b]))"

definition hex_digit :: "char \<Rightarrow> u16 option" where
  "hex_digit c =
     (if CHR ''0'' \<le> c \<and> c \<le> CHR ''9'' then Some (of_char c - of_char CHR ''0'')
      else if CHR ''a'' \<le> c \<and> c \<le> CHR ''f'' then Some (of_char c - of_char CHR ''a'' + 10)
      else if CHR ''A'' \<le> c \<and> c \<le> CHR ''F'' then Some (of_char c - of_char CHR ''A'' + 10)
      else None)"

fun code_unit :: "nat \<Rightarrow> u16 \<Rightarrow> string \<Rightarrow> JsonError + (u16 \<times> string)" where
  "code_unit 0 v s = Inr (v, s)"
| "code_unit (Suc n) v s =
     andThen (get_char s)
       (\<lambda>(c, s). case hex_digit c of
                   None \<Rightarrow> Inl InvalidUnicodeEscape
                 | Some d \<Rightarrow> code_unit n (push_bit 4 v + d) s)"

definition parseUnicodeCodeUnit :: "string \<Rightarrow> JsonError + (u16 \<times> string)" where
  "parseUnicodeCodeUnit s = code_unit 4 0 s"

definition encode_code_point :: "u32 \<Rightarrow> bytes" where
  "encode_code_point codePoint =
     (if codePoint \<le> 0x7F then [ucast codePoint]
      else if codePoint \<le> 0x7FF
      then [ucast (0xC0 OR drop_bit 6 codePoint), ucast (0x80 OR (codePoint AND 0x3F))]
      else if codePoint \<le> 0xFFFF
      then [ucast (0xE0 OR drop_bit 12 codePoint), ucast (0x80 OR (drop_bit 6 codePoint AND 0x3F)),
            ucast (0x80 OR (codePoint AND 0x3F))]
      else [ucast (0xF0 OR drop_bit 18 codePoint), ucast (0x80 OR (drop_bit 12 codePoint AND 0x3F)),
            ucast (0x80 OR (drop_bit 6 codePoint AND 0x3F)), ucast (0x80 OR (codePoint AND 0x3F))])"

definition unicode_code_point :: "string \<Rightarrow> JsonError + (u32 \<times> string)" where
  "unicode_code_point s =
     andThen (parseUnicodeCodeUnit s) (\<lambda>(unit1, s).
       let codePoint = ucast unit1 :: u32
       in if codePoint \<ge> 0xD800 \<and> codePoint \<le> 0xDBFF
          then andThen (get_char s) (\<lambda>(c, s).
                 if c \<noteq> CHR 0x5C then Inl InvalidSurrogatePair
                 else andThen (get_char s) (\<lambda>(c, s).
                   if c \<noteq> CHR ''u'' then Inl InvalidSurrogatePair
                   else andThen (parseUnicodeCodeUnit s) (\<lambda>(unit2, s).
                     let low = ucast unit2 :: u32
                     in if low < 0xDC00 \<or> low > 0xDFFF then Inl InvalidSurrogatePair
                        else Inr (0x10000 + push_bit 10 (codePoint - 0xD800) + (low - 0xDC00), s))))
          else if codePoint \<ge> 0xDC00 \<and> codePoint \<le> 0xDFFF then Inl UnpairedLowSurrogate
          else Inr (codePoint, s))"

definition appendUnicodeEscape :: "Limits \<Rightarrow> string \<Rightarrow> string \<Rightarrow> JsonError + (string \<times> string)" where
  "appendUnicodeEscape lim v s =
     andThen (unicode_code_point s) (\<lambda>(codePoint, s).
       let encoded = bytes_string (encode_code_point codePoint)
       in if length encoded > lim_maximumStringBytes lim
             \<or> length v > lim_maximumStringBytes lim - length encoded
          then Inl StringLimit
          else Inr (v @ encoded, s))"

text \<open>The characters after a backslash, other than a code unit, and what they stand for.\<close>

definition simple_escape :: "char \<Rightarrow> char option" where
  "simple_escape c =
     map_of [(CHR 0x22, CHR 0x22), (CHR 0x5C, CHR 0x5C), (CHR 0x2F, CHR 0x2F), (CHR ''b'', CHR 0x08),
             (CHR ''f'', CHR 0x0C), (CHR ''n'', CHR 0x0A), (CHR ''r'', CHR 0x0D), (CHR ''t'', CHR 0x09)] c"

definition parse_escape :: "Limits \<Rightarrow> string \<Rightarrow> string \<Rightarrow> JsonError + (string \<times> string)" where
  "parse_escape lim v s =
     andThen (get_char s) (\<lambda>(escaped, s).
       case simple_escape escaped of
         Some c \<Rightarrow> andThen (appendByte lim v c) (\<lambda>v. Inr (v, s))
       | None \<Rightarrow> if escaped = CHR ''u'' then appendUnicodeEscape lim v s else Inl UnsupportedEscape)"

lemma get_char_shorter: "get_char s = Inr (c, s') \<Longrightarrow> length s' < length s"
  by (cases s) auto

lemma code_unit_shorter: "code_unit n v s = Inr (u, s') \<Longrightarrow> length s' \<le> length s"
  by (induction n v s rule: code_unit.induct)
    (fastforce simp: andThen_Inr_iff dest: get_char_shorter split: option.split_asm)+

lemma unicode_code_point_shorter: "unicode_code_point s = Inr (c, s') \<Longrightarrow> length s' \<le> length s"
  by (fastforce simp: unicode_code_point_def andThen_Inr_iff Let_def parseUnicodeCodeUnit_def
      dest!: get_char_shorter code_unit_shorter split: if_split_asm)

lemma parse_escape_shorter: "parse_escape lim v s = Inr (v', s') \<Longrightarrow> length s' < length s"
  by (fastforce simp: parse_escape_def appendUnicodeEscape_def appendByte_def andThen_Inr_iff Let_def
      dest!: get_char_shorter unicode_code_point_shorter split: option.split_asm if_split_asm)

function string_loop :: "Limits \<Rightarrow> string \<Rightarrow> string \<Rightarrow> JsonError + (string \<times> string)" where
  "string_loop lim [] v = Inl UnterminatedString"
| "string_loop lim (ch # s) v =
     (if ch = CHR 0x22 then (if json_utf8 (string_bytes v) then Inr (v, s) else Inl MalformedUtf8)
      else if (of_char ch :: u8) < 0x20 then Inl ControlCharacter
      else if ch \<noteq> CHR 0x5C then andThen (appendByte lim v ch) (\<lambda>v. string_loop lim s v)
      else andThen (parse_escape lim v s) (\<lambda>(v, s). string_loop lim s v))"
  by pat_completeness auto
termination
  by (relation "measure (\<lambda>(lim, s, v). length s)") (auto dest: parse_escape_shorter)

definition parseString :: "Limits \<Rightarrow> string \<Rightarrow> JsonError + (string \<times> string)" where
  "parseString lim s = andThen (expect CHR 0x22 s) (\<lambda>s. string_loop lim s [])"

section \<open>Numbers\<close>

definition skip_digits :: "string \<Rightarrow> string" where
  "skip_digits s = dropWhile IsDigit s"

definition number_integer :: "string \<Rightarrow> JsonError + string" where
  "number_integer s =
     (if s = [] \<or> \<not> IsDigit (hd s) then Inl InvalidNumber
      else if hd s = CHR ''0''
      then (if tl s \<noteq> [] \<and> IsDigit (hd (tl s)) then Inl LeadingZero else Inr (tl s))
      else Inr (skip_digits s))"

definition number_fraction :: "string \<Rightarrow> JsonError + string" where
  "number_fraction s =
     (if s \<noteq> [] \<and> hd s = CHR ''.''
      then (if tl s = [] \<or> \<not> IsDigit (hd (tl s)) then Inl InvalidFraction else Inr (skip_digits (tl s)))
      else Inr s)"

definition skip_sign :: "string \<Rightarrow> string" where
  "skip_sign s = (if s \<noteq> [] \<and> (hd s = CHR ''+'' \<or> hd s = CHR ''-'') then tl s else s)"

definition number_exponent :: "string \<Rightarrow> JsonError + string" where
  "number_exponent s =
     (if s \<noteq> [] \<and> (hd s = CHR ''e'' \<or> hd s = CHR ''E'')
      then (let s = skip_sign (tl s)
            in if s = [] \<or> \<not> IsDigit (hd s) then Inl InvalidExponent else Inr (skip_digits s))
      else Inr s)"

definition parseNumber :: "(string \<Rightarrow> bool) \<Rightarrow> string \<Rightarrow> JsonError + (string \<times> string)" where
  "parseNumber finite_number s =
     andThen (number_integer (if hd s = CHR ''-'' then tl s else s)) (\<lambda>r.
       andThen (number_fraction r) (\<lambda>r.
         andThen (number_exponent r) (\<lambda>r.
           let lexeme = take (length s - length r) s
           in if finite_number lexeme then Inr (lexeme, r) else Inl NonFiniteNumber)))"

section \<open>Values\<close>

definition obj_find :: "string \<Rightarrow> (string \<times> Json) list \<Rightarrow> Json option" where
  "obj_find key obj = map_of obj key"

text \<open>Insertion of a member, refused when the key is present.\<close>

definition obj_emplace :: "string \<Rightarrow> Json \<Rightarrow> (string \<times> Json) list \<Rightarrow> (string \<times> Json) list option" where
  "obj_emplace key v obj = (if obj_find key obj = None then Some (obj @ [(key, v)]) else None)"

lemma skipWhitespace_shorter: "length (skipWhitespace s) \<le> length s"
  by (simp add: skipWhitespace_def length_dropWhile_le)

lemma skip_digits_shorter: "length (skip_digits s) \<le> length s"
  by (simp add: skip_digits_def length_dropWhile_le)

lemma expect_Inr_iff: "expect c s = Inr s' \<longleftrightarrow> s = c # s'"
  by (cases s) (auto simp: expect_def)

lemma get_char_Inr_iff: "get_char s = Inr (c, s') \<longleftrightarrow> s = c # s'"
  by (cases s) auto

lemma string_loop_shorter: "string_loop lim s v = Inr (v', s') \<Longrightarrow> length s' < length s"
proof (induction s arbitrary: v rule: length_induct)
  case (1 s)
  have IH: "length s' < n" if "string_loop lim t w = Inr (v', s')" "length t < length s" "length t \<le> n" for t w n
    using 1(1) that by fastforce
  from 1(2) show ?case
    by (cases s) (auto simp: andThen_Inr_iff elim!: IH dest!: parse_escape_shorter split: if_split_asm)
qed

lemma parseString_shorter: "parseString lim s = Inr (v, s') \<Longrightarrow> length s' < length s"
  by (fastforce simp: parseString_def andThen_Inr_iff expect_Inr_iff dest: string_loop_shorter)

lemma consumeLiteral_Inr_iff: "consumeLiteral literal s = Inr s' \<longleftrightarrow> s = literal @ s'"
proof (induction literal arbitrary: s)
  case (Cons c literal)
  then show ?case by (cases s) auto
qed auto

lemma number_parts_shorter:
  "number_integer s = Inr r \<Longrightarrow> length r \<le> length s"
  "number_fraction s = Inr r \<Longrightarrow> length r \<le> length s"
  "number_exponent s = Inr r \<Longrightarrow> length r \<le> length s"
proof -
  have skip: "length (skip_digits (tl s)) \<le> length s" "length (skip_digits (tl (tl s))) \<le> length s" for s
    using skip_digits_shorter [of "tl s"] skip_digits_shorter [of "tl (tl s)"] by simp_all
  show "number_integer s = Inr r \<Longrightarrow> length r \<le> length s"
    by (auto simp: number_integer_def skip_digits_shorter split: if_split_asm)
  show "number_fraction s = Inr r \<Longrightarrow> length r \<le> length s"
    by (auto simp: number_fraction_def skip split: if_split_asm)
  show "number_exponent s = Inr r \<Longrightarrow> length r \<le> length s"
    by (auto simp: number_exponent_def skip_sign_def Let_def skip split: if_split_asm)
qed

lemma parseNumber_shorter: "parseNumber fin s = Inr (l, r) \<Longrightarrow> length r \<le> length s"
  by (fastforce simp: parseNumber_def andThen_Inr_iff Let_def dest!: number_parts_shorter split: if_split_asm)

lemmas shorter = skipWhitespace_shorter parseString_shorter parseNumber_shorter

text \<open>
  The shape of a successful turn of each loop, for any functions in place of the recursive calls.
\<close>

lemma object_turn:
  assumes "(let s = skipWhitespace s
      in if s = [] \<or> hd s \<noteq> CHR 0x22 then Inl KeyNotString
         else andThen (parseString lim s) (\<lambda>(key, s).
           andThen (expect CHR '':'' (skipWhitespace s)) (\<lambda>s.
             andThen (pv s) (\<lambda>(v, s, nodes).
               case obj_emplace key v obj of
                 None \<Rightarrow> Inl DuplicateKey
               | Some obj \<Rightarrow>
                   andThen (get_char (skipWhitespace s)) (\<lambda>(separator, s).
                     if separator = CHR 0x7D then Inr (JObject obj, s, nodes)
                     else if separator \<noteq> CHR '','' then Inl ObjectSeparator
                     else loop obj s nodes))))) = Inr (v', s', nodes' :: nat)"
  obtains key s1 s2 w s3 n3 obj' where
    "\<not> (skipWhitespace s = [] \<or> hd (skipWhitespace s) \<noteq> CHR 0x22)"
    "parseString lim (skipWhitespace s) = Inr (key, s1)"
    "expect CHR '':'' (skipWhitespace s1) = Inr s2" "pv s2 = Inr (w, s3, n3)" "obj_emplace key w obj = Some obj'"
    "get_char (skipWhitespace s3) = Inr (CHR 0x7D, s') \<and> v' = JObject obj' \<and> nodes' = n3
     \<or> (\<exists>t. get_char (skipWhitespace s3) = Inr (CHR '','', t) \<and> loop obj' t n3 = Inr (v', s', nodes'))"
proof -
  have 0: "\<not> (skipWhitespace s = [] \<or> hd (skipWhitespace s) \<noteq> CHR 0x22)"
    using assms by (auto simp: Let_def split: if_split_asm)
  obtain key s1 where 1: "parseString lim (skipWhitespace s) = Inr (key, s1)"
    using assms 0 by (cases "parseString lim (skipWhitespace s)") (auto simp: Let_def)
  obtain s2 where 2: "expect CHR '':'' (skipWhitespace s1) = Inr s2"
    using assms 0 1 by (cases "expect CHR '':'' (skipWhitespace s1)") (auto simp: Let_def)
  obtain w s3 n3 where 3: "pv s2 = Inr (w, s3, n3)"
    using assms 0 1 2 by (cases "pv s2") (auto simp: Let_def)
  obtain obj' where 4: "obj_emplace key w obj = Some obj'"
    using assms 0 1 2 3 by (cases "obj_emplace key w obj") (auto simp: Let_def)
  obtain c t where 5: "get_char (skipWhitespace s3) = Inr (c, t)"
    using assms 0 1 2 3 4 by (cases "get_char (skipWhitespace s3)") (auto simp: Let_def)
  show thesis
    using assms 0 1 2 3 4 5 by (intro that [OF 0 1 2 3 4]) (auto simp: Let_def split: if_split_asm)
qed

lemma array_turn:
  assumes "andThen m (\<lambda>(v, s, nodes).
       andThen (get_char (skipWhitespace s)) (\<lambda>(separator, s).
         if separator = CHR 0x5D then Inr (JArray (arr @ [v]), s, nodes)
         else if separator \<noteq> CHR '','' then Inl ArraySeparator
         else loop v s nodes)) = Inr (v', s', nodes' :: nat)"
  obtains w s3 n3 where "m = Inr (w, s3, n3)"
    "get_char (skipWhitespace s3) = Inr (CHR 0x5D, s') \<and> v' = JArray (arr @ [w]) \<and> nodes' = n3
     \<or> (\<exists>t. get_char (skipWhitespace s3) = Inr (CHR '','', t) \<and> loop w t n3 = Inr (v', s', nodes'))"
proof -
  obtain w s3 n3 where 1: "m = Inr (w, s3, n3)" using assms by (cases m) auto
  obtain c t where 2: "get_char (skipWhitespace s3) = Inr (c, t)"
    using assms 1 by (cases "get_char (skipWhitespace s3)") auto
  show thesis using assms 1 2 by (intro that [OF 1]) (auto split: if_split_asm)
qed

lemma separator_shorter: "get_char (skipWhitespace s) = Inr (c, t) \<Longrightarrow> length t < length s"
  using skipWhitespace_shorter [of s] by (simp add: get_char_Inr_iff)

type_synonym parsed = "JsonError + (Json \<times> string \<times> nat)"

function parseValue :: "(string \<Rightarrow> bool) \<Rightarrow> Limits \<Rightarrow> nat \<Rightarrow> string \<Rightarrow> nat \<Rightarrow> parsed"
  and parseObject :: "(string \<Rightarrow> bool) \<Rightarrow> Limits \<Rightarrow> nat \<Rightarrow> string \<Rightarrow> nat \<Rightarrow> parsed"
  and object_loop :: "(string \<Rightarrow> bool) \<Rightarrow> Limits \<Rightarrow> nat \<Rightarrow> (string \<times> Json) list \<Rightarrow> string \<Rightarrow> nat \<Rightarrow> parsed"
  and parseArray :: "(string \<Rightarrow> bool) \<Rightarrow> Limits \<Rightarrow> nat \<Rightarrow> string \<Rightarrow> nat \<Rightarrow> parsed"
  and array_loop :: "(string \<Rightarrow> bool) \<Rightarrow> Limits \<Rightarrow> nat \<Rightarrow> Json list \<Rightarrow> string \<Rightarrow> nat \<Rightarrow> parsed" where
  "parseValue fin lim depth s nodes =
     (if depth > lim_maximumDepth lim then Inl NestingLimit
      else if nodes + 1 > lim_maximumNodes lim then Inl NodeLimit
      else let nodes = nodes + 1; s = skipWhitespace s
           in if s = [] then Inl UnexpectedEnd
              else if hd s = CHR 0x7B then parseObject fin lim depth s nodes
              else if hd s = CHR 0x5B then parseArray fin lim depth s nodes
              else if hd s = CHR 0x22 then andThen (parseString lim s) (\<lambda>(v, s). Inr (JString v, s, nodes))
              else if hd s = CHR ''t'' then andThen (consumeLiteral ''true'' s) (\<lambda>s. Inr (JBool True, s, nodes))
              else if hd s = CHR ''f'' then andThen (consumeLiteral ''false'' s) (\<lambda>s. Inr (JBool False, s, nodes))
              else if hd s = CHR ''n'' then andThen (consumeLiteral ''null'' s) (\<lambda>s. Inr (JNull, s, nodes))
              else if hd s = CHR ''-'' \<or> IsDigit (hd s)
              then andThen (parseNumber fin s) (\<lambda>(lexeme, s). Inr (JNumber lexeme, s, nodes))
              else Inl UnexpectedToken)"
| "parseObject fin lim depth s nodes =
     andThen (expect CHR 0x7B s) (\<lambda>s.
       let s = skipWhitespace s
       in if s \<noteq> [] \<and> hd s = CHR 0x7D then Inr (JObject [], tl s, nodes)
          else object_loop fin lim depth [] s nodes)"
| "object_loop fin lim depth obj s nodes =
     (let s = skipWhitespace s
      in if s = [] \<or> hd s \<noteq> CHR 0x22 then Inl KeyNotString
         else andThen (parseString lim s) (\<lambda>(key, s).
           andThen (expect CHR '':'' (skipWhitespace s)) (\<lambda>s.
             andThen (parseValue fin lim (depth + 1) s nodes) (\<lambda>(v, s, nodes).
               case obj_emplace key v obj of
                 None \<Rightarrow> Inl DuplicateKey
               | Some obj \<Rightarrow>
                   andThen (get_char (skipWhitespace s)) (\<lambda>(separator, s).
                     if separator = CHR 0x7D then Inr (JObject obj, s, nodes)
                     else if separator \<noteq> CHR '','' then Inl ObjectSeparator
                     else object_loop fin lim depth obj s nodes)))))"
| "parseArray fin lim depth s nodes =
     andThen (expect CHR 0x5B s) (\<lambda>s.
       let s = skipWhitespace s
       in if s \<noteq> [] \<and> hd s = CHR 0x5D then Inr (JArray [], tl s, nodes)
          else array_loop fin lim depth [] s nodes)"
| "array_loop fin lim depth arr s nodes =
     andThen (parseValue fin lim (depth + 1) s nodes) (\<lambda>(v, s, nodes).
       andThen (get_char (skipWhitespace s)) (\<lambda>(separator, s).
         if separator = CHR 0x5D then Inr (JArray (arr @ [v]), s, nodes)
         else if separator \<noteq> CHR '','' then Inl ArraySeparator
         else array_loop fin lim depth (arr @ [v]) s nodes))"
  by pat_completeness auto
termination
proof -
  have shorter:
    "parseValue_parseObject_object_loop_parseArray_array_loop_dom (Inl (Inl (fin, lim, depth, s, nodes))) \<Longrightarrow>
       parseValue fin lim depth s nodes = Inr (v, s', nodes') \<Longrightarrow> length s' \<le> length s"
    "parseValue_parseObject_object_loop_parseArray_array_loop_dom (Inl (Inr (fin, lim, depth, s, nodes))) \<Longrightarrow>
       parseObject fin lim depth s nodes = Inr (v, s', nodes') \<Longrightarrow> length s' \<le> length s"
    "parseValue_parseObject_object_loop_parseArray_array_loop_dom (Inr (Inl (fin, lim, depth, obj, s, nodes))) \<Longrightarrow>
       object_loop fin lim depth obj s nodes = Inr (v, s', nodes') \<Longrightarrow> length s' \<le> length s"
    "parseValue_parseObject_object_loop_parseArray_array_loop_dom (Inr (Inr (Inl (fin, lim, depth, s, nodes)))) \<Longrightarrow>
       parseArray fin lim depth s nodes = Inr (v, s', nodes') \<Longrightarrow> length s' \<le> length s"
    "parseValue_parseObject_object_loop_parseArray_array_loop_dom (Inr (Inr (Inr (fin, lim, depth, arr, s, nodes)))) \<Longrightarrow>
       array_loop fin lim depth arr s nodes = Inr (v, s', nodes') \<Longrightarrow> length s' \<le> length s"
    for fin lim depth s nodes v s' nodes' obj arr
  proof (induction fin lim depth s nodes and fin lim depth s nodes and fin lim depth obj s nodes
      and fin lim depth s nodes and fin lim depth arr s nodes
      arbitrary: v s' nodes' and v s' nodes' and v s' nodes' and v s' nodes' and v s' nodes'
      rule: parseValue_parseObject_object_loop_parseArray_array_loop.pinduct)
    case (1 fin lim depth s nodes)
    have IH: "length s' \<le> length (skipWhitespace s)"
      if "parseObject fin lim depth (skipWhitespace s) (nodes + 1) = Inr (v, s', nodes')
          \<or> parseArray fin lim depth (skipWhitespace s) (nodes + 1) = Inr (v, s', nodes')"
        "\<not> lim_maximumDepth lim < depth" "\<not> lim_maximumNodes lim < nodes + 1" "skipWhitespace s \<noteq> []"
        "hd (skipWhitespace s) = CHR 0x7B \<and> parseObject fin lim depth (skipWhitespace s) (nodes + 1) = Inr (v, s', nodes')
         \<or> hd (skipWhitespace s) = CHR 0x5B \<and> parseArray fin lim depth (skipWhitespace s) (nodes + 1) = Inr (v, s', nodes')"
      using that 1(2) [OF that(2,3) refl refl that(4)] 1(3) [OF that(2,3) refl refl that(4)] by auto
    from 1(4) have "length s' \<le> length (skipWhitespace s)"
      using IH by (auto simp: parseValue.psimps [OF 1(1)] Let_def andThen_Inr_iff consumeLiteral_Inr_iff
          simp del: consumeLiteral.simps dest: parseString_shorter parseNumber_shorter split: if_split_asm)
    then show ?case using skipWhitespace_shorter [of s] by linarith
  next
    case (2 fin lim depth s nodes)
    from 2(3) show ?case
      using 2(2) skipWhitespace_shorter [of "tl s"]
      by (fastforce simp: parseObject.psimps [OF 2(1)] Let_def andThen_Inr_iff expect_Inr_iff split: if_split_asm)
  next
    case (3 fin lim depth obj s nodes)
    show ?case
    proof (rule object_turn [OF 3(4) [unfolded object_loop.psimps [OF 3(1)]]], goal_cases)
      case (1 key s1 s2 w s3 n3 obj')
      have "length s3 \<le> length s2" using 3(2) [OF refl 1(1,2) refl 1(3,4)] .
      moreover have "length s2 < length s"
        using parseString_shorter [OF 1(2)] 1(3) skipWhitespace_shorter [of s] skipWhitespace_shorter [of s1]
        by (simp add: expect_Inr_iff)
      moreover have "length s' \<le> length s3"
        using 1(6) 3(3) [OF refl 1(1,2) refl 1(3,4) refl refl 1(5) _ refl] separator_shorter [of s3] by fastforce
      ultimately show ?thesis by linarith
    qed
  next
    case (4 fin lim depth s nodes)
    from 4(3) show ?case
      using 4(2) skipWhitespace_shorter [of "tl s"]
      by (fastforce simp: parseArray.psimps [OF 4(1)] Let_def andThen_Inr_iff expect_Inr_iff split: if_split_asm)
  next
    case (5 fin lim depth arr s nodes)
    show ?case
    proof (rule array_turn [OF 5(4) [unfolded array_loop.psimps [OF 5(1)]]], goal_cases)
      case (1 w s3 n3)
      have "length s3 \<le> length s" using 5(2) [OF 1(1)] .
      moreover have "length s' \<le> length s3"
        using 1(2) 5(3) [OF 1(1) refl refl _ refl] separator_shorter [of s3] by fastforce
      ultimately show ?thesis by linarith
    qed
  qed
  show ?thesis
  proof (relation "measure (case_sum
      (case_sum (\<lambda>(fin, lim, depth, s, nodes). 3 * length s + 1) (\<lambda>(fin, lim, depth, s, nodes). 3 * length s))
      (case_sum (\<lambda>(fin, lim, depth, obj, s, nodes). 3 * length s)
        (case_sum (\<lambda>(fin, lim, depth, s, nodes). 3 * length s) (\<lambda>(fin, lim, depth, arr, s, nodes). 3 * length s + 2))))",
      goal_cases)
    case (2 fin lim depth s nodes x xa)
    then show ?case using skipWhitespace_shorter [of s] by simp
  next
    case (3 fin lim depth s nodes x xa)
    then show ?case using skipWhitespace_shorter [of s] by simp
  next
    case (4 fin lim depth s nodes x xa)
    then show ?case using skipWhitespace_shorter [of x] by (simp add: expect_Inr_iff)
  next
    case (5 fin lim depth obj s nodes x xa xb y xc)
    then show ?case
      using skipWhitespace_shorter [of s] skipWhitespace_shorter [of y] parseString_shorter [of lim x xb y]
      by (simp add: expect_Inr_iff)
  next
    case (6 fin lim depth obj s nodes x xa xb y xc xd xe ya xf yb x2 xg xh yc)
    then show ?case
      using skipWhitespace_shorter [of s] skipWhitespace_shorter [of y] separator_shorter [of xf xh yc]
        parseString_shorter [of lim x xb y] shorter(1) [of fin lim "depth + 1" xc nodes xe xf yb]
      by (auto simp: expect_Inr_iff)
  next
    case (7 fin lim depth s nodes x xa)
    then show ?case using skipWhitespace_shorter [of x] by (simp add: expect_Inr_iff)
  next
    case (9 fin lim depth arr s nodes x xa y xb ya xc xd yb)
    then show ?case
      using separator_shorter [of xb xd yb] shorter(1) [of fin lim "depth + 1" s nodes xa xb ya] by auto
  qed simp_all
qed

definition json_limits :: Limits where
  "json_limits = \<lparr>lim_maximumBytes = 1024 * 1024, lim_maximumDepth = 64, lim_maximumNodes = 16384,
                  lim_maximumStringBytes = 65536\<rparr>"

definition Parse :: "(string \<Rightarrow> bool) \<Rightarrow> Limits \<Rightarrow> string \<Rightarrow> JsonError + Json" where
  "Parse fin lim txt =
     (if length txt > lim_maximumBytes lim then Inl InputTooLarge
      else if lim_maximumDepth lim = 0 \<or> lim_maximumNodes lim = 0 \<or> lim_maximumStringBytes lim = 0
      then Inl InvalidLimits
      else andThen (parseValue fin lim 0 txt 0) (\<lambda>(result, s, nodes).
             if skipWhitespace s \<noteq> [] then Inl TrailingData else Inr result))"

section \<open>Accessors\<close>

text \<open>\<^verbatim>\<open>std::from_chars\<close> on the whole lexeme, base ten, signed 64 bits.\<close>

definition digits_value :: "string \<Rightarrow> int" where
  "digits_value ds = foldl (\<lambda>v c. 10 * v + (of_char c - of_char CHR ''0'')) 0 ds"

definition from_chars_int64 :: "string \<Rightarrow> int option" where
  "from_chars_int64 lexeme =
     (let negative = (lexeme \<noteq> [] \<and> hd lexeme = CHR ''-'');
          ds = (if negative then tl lexeme else lexeme);
          v = (if negative then - digits_value ds else digits_value ds)
      in if ds = [] \<or> \<not> list_all IsDigit ds \<or> v < - (2 ^ 63) \<or> v \<ge> 2 ^ 63 then None else Some v)"

fun json_integer :: "Json \<Rightarrow> JsonError + int" where
  "json_integer (JNumber lexeme) =
     (if lexeme = [] \<or> list_ex (\<lambda>c. c \<in> set ''.eE'') lexeme then Inl IntegerSyntax
      else case from_chars_int64 lexeme of None \<Rightarrow> Inl IntegerRange | Some v \<Rightarrow> Inr v)"
| "json_integer j = Inl NotAnInteger"

fun json_find :: "string \<Rightarrow> Json \<Rightarrow> Json option" where
  "json_find key (JObject obj) = obj_find key obj"
| "json_find key j = None"

definition stringValue :: "string \<Rightarrow> string \<Rightarrow> Json \<Rightarrow> JsonError + string" where
  "stringValue key fallback j =
     (case json_find key j of
        None \<Rightarrow> Inr fallback
      | Some (JString v) \<Rightarrow> Inr v
      | Some other \<Rightarrow> Inl FieldNotString)"

definition boolValue :: "string \<Rightarrow> bool \<Rightarrow> Json \<Rightarrow> JsonError + bool" where
  "boolValue key fallback j =
     (case json_find key j of
        None \<Rightarrow> Inr fallback
      | Some (JBool v) \<Rightarrow> Inr v
      | Some other \<Rightarrow> Inl FieldNotBoolean)"

definition integerValue :: "string \<Rightarrow> int \<Rightarrow> Json \<Rightarrow> JsonError + int" where
  "integerValue key fallback j =
     (case json_find key j of
        None \<Rightarrow> Inr fallback
      | Some (JNumber lexeme) \<Rightarrow>
          (case json_integer (JNumber lexeme) of Inl e \<Rightarrow> Inl FieldIntegerRange | Inr v \<Rightarrow> Inr v)
      | Some other \<Rightarrow> Inl FieldNotInteger)"

end
