(* ===== verification/Json_Grammar.thy ===== *)
theory Json_Grammar
  imports Mini_Json
begin

text \<open>
  A grammar of JSON texts and the proof that the parser of \<^verbatim>\<open>mini_json.hpp\<close> accepts exactly
  the texts of the grammar that respect its limits, and returns the value the grammar assigns. The
  grammar follows RFC 8259; escapes of code points above the basic plane are surrogate pairs and denote
  the UTF-8 encoding of their code point. Strings must be valid UTF-8 and keys of an object distinct.
\<close>

section \<open>The grammar\<close>

abbreviation blank :: "string \<Rightarrow> bool" where
  "blank w \<equiv> list_all IsJsonWhitespace w"

definition hex_value :: "char \<Rightarrow> nat option" where
  "hex_value c = map_of (zip ''0123456789abcdefABCDEF'' ([0..<16] @ [10..<16])) c"

definition four_hex :: "string \<Rightarrow> nat \<Rightarrow> bool" where
  "four_hex h n \<longleftrightarrow>
     (\<exists>a b c d x y z w. h = [a, b, c, d] \<and> hex_value a = Some x \<and> hex_value b = Some y
        \<and> hex_value c = Some z \<and> hex_value d = Some w \<and> n = 4096 * x + 256 * y + 16 * z + w)"

text \<open>The raw characters between quotation marks and the bytes they denote.\<close>

inductive string_chars :: "string \<Rightarrow> string \<Rightarrow> bool" where
  empty: "string_chars [] []"
| plain: "(of_char c :: u8) \<ge> 0x20 \<Longrightarrow> c \<noteq> CHR 0x22 \<Longrightarrow> c \<noteq> CHR 0x5C \<Longrightarrow> string_chars t v \<Longrightarrow>
    string_chars (c # t) (c # v)"
| escape: "simple_escape e = Some c \<Longrightarrow> string_chars t v \<Longrightarrow>
    string_chars (CHR 0x5C # e # t) (c # v)"
| unicode: "four_hex h n \<Longrightarrow> \<not> (0xD800 \<le> n \<and> n \<le> 0xDFFF) \<Longrightarrow> string_chars t v \<Longrightarrow>
    string_chars (CHR 0x5C # CHR ''u'' # h @ t) (bytes_string (utf8_encode (of_nat n)) @ v)"
| surrogates: "four_hex h n \<Longrightarrow> 0xD800 \<le> n \<Longrightarrow> n \<le> 0xDBFF \<Longrightarrow>
    four_hex h' m \<Longrightarrow> 0xDC00 \<le> m \<Longrightarrow> m \<le> 0xDFFF \<Longrightarrow> string_chars t v \<Longrightarrow>
    string_chars (CHR 0x5C # CHR ''u'' # h @ CHR 0x5C # CHR ''u'' # h' @ t)
      (bytes_string (utf8_encode (of_nat (0x10000 + 1024 * (n - 0xD800) + (m - 0xDC00)))) @ v)"

definition string_text :: "Limits \<Rightarrow> string \<Rightarrow> string \<Rightarrow> bool" where
  "string_text lim t v \<longleftrightarrow>
     (\<exists>raw. t = CHR 0x22 # raw @ [CHR 0x22] \<and> string_chars raw v
        \<and> length v \<le> lim_maximumStringBytes lim \<and> json_utf8 (string_bytes v))"

definition integer_text :: "string \<Rightarrow> bool" where
  "integer_text t \<longleftrightarrow> t = ''0'' \<or> t \<noteq> [] \<and> list_all IsDigit t \<and> hd t \<noteq> CHR ''0''"

definition fraction_text :: "string \<Rightarrow> bool" where
  "fraction_text t \<longleftrightarrow> t = [] \<or> (\<exists>ds. t = CHR ''.'' # ds \<and> ds \<noteq> [] \<and> list_all IsDigit ds)"

definition exponent_text :: "string \<Rightarrow> bool" where
  "exponent_text t \<longleftrightarrow>
     t = [] \<or> (\<exists>e sign ds. t = e # sign @ ds \<and> e \<in> {CHR ''e'', CHR ''E''} \<and> sign \<in> {[], ''+'', ''-''}
                  \<and> ds \<noteq> [] \<and> list_all IsDigit ds)"

definition number_text :: "string \<Rightarrow> bool" where
  "number_text t \<longleftrightarrow>
     (\<exists>sign i f e. t = sign @ i @ f @ e \<and> sign \<in> {[], ''-''} \<and> integer_text i \<and> fraction_text f \<and> exponent_text e)"

text \<open>
  A text, the number of values in it and the value it denotes, at a nesting depth. Blanks around a value
  belong to its context.
\<close>

inductive value_text :: "(string \<Rightarrow> bool) \<Rightarrow> Limits \<Rightarrow> nat \<Rightarrow> nat \<Rightarrow> string \<Rightarrow> Json \<Rightarrow> bool"
  and elements_text :: "(string \<Rightarrow> bool) \<Rightarrow> Limits \<Rightarrow> nat \<Rightarrow> nat \<Rightarrow> string \<Rightarrow> Json list \<Rightarrow> bool"
  and members_text :: "(string \<Rightarrow> bool) \<Rightarrow> Limits \<Rightarrow> nat \<Rightarrow> nat \<Rightarrow> string \<Rightarrow> (string \<times> Json) list \<Rightarrow> bool"
  for fin lim where
  null: "d \<le> lim_maximumDepth lim \<Longrightarrow> value_text fin lim d 1 ''null'' JNull"
| true: "d \<le> lim_maximumDepth lim \<Longrightarrow> value_text fin lim d 1 ''true'' (JBool True)"
| false: "d \<le> lim_maximumDepth lim \<Longrightarrow> value_text fin lim d 1 ''false'' (JBool False)"
| number: "d \<le> lim_maximumDepth lim \<Longrightarrow> number_text t \<Longrightarrow> fin t \<Longrightarrow> value_text fin lim d 1 t (JNumber t)"
| string: "d \<le> lim_maximumDepth lim \<Longrightarrow> string_text lim t v \<Longrightarrow> value_text fin lim d 1 t (JString v)"
| no_elements: "d \<le> lim_maximumDepth lim \<Longrightarrow> blank w \<Longrightarrow>
    value_text fin lim d 1 (CHR 0x5B # w @ [CHR 0x5D]) (JArray [])"
| elements: "d \<le> lim_maximumDepth lim \<Longrightarrow> elements_text fin lim (d + 1) n t js \<Longrightarrow>
    value_text fin lim d (n + 1) (CHR 0x5B # t @ [CHR 0x5D]) (JArray js)"
| no_members: "d \<le> lim_maximumDepth lim \<Longrightarrow> blank w \<Longrightarrow>
    value_text fin lim d 1 (CHR 0x7B # w @ [CHR 0x7D]) (JObject [])"
| members: "d \<le> lim_maximumDepth lim \<Longrightarrow> members_text fin lim (d + 1) n t kvs \<Longrightarrow>
    value_text fin lim d (n + 1) (CHR 0x7B # t @ [CHR 0x7D]) (JObject kvs)"
| element: "blank a \<Longrightarrow> value_text fin lim d n t j \<Longrightarrow> blank b \<Longrightarrow>
    elements_text fin lim d n (a @ t @ b) [j]"
| more_elements: "blank a \<Longrightarrow> value_text fin lim d n t j \<Longrightarrow> blank b \<Longrightarrow> elements_text fin lim d m t' js \<Longrightarrow>
    elements_text fin lim d (n + m) (a @ t @ b @ CHR '','' # t') (j # js)"
| member: "blank a \<Longrightarrow> string_text lim kt k \<Longrightarrow> blank b \<Longrightarrow> blank c \<Longrightarrow> value_text fin lim d n t j \<Longrightarrow> blank e \<Longrightarrow>
    members_text fin lim d n (a @ kt @ b @ CHR '':'' # c @ t @ e) [(k, j)]"
| more_members: "blank a \<Longrightarrow> string_text lim kt k \<Longrightarrow> blank b \<Longrightarrow> blank c \<Longrightarrow> value_text fin lim d n t j \<Longrightarrow> blank e \<Longrightarrow>
    members_text fin lim d m t' kvs \<Longrightarrow> k \<notin> fst ` set kvs \<Longrightarrow>
    members_text fin lim d (n + m) (a @ kt @ b @ CHR '':'' # c @ t @ e @ CHR '','' # t') ((k, j) # kvs)"

section \<open>Strings: the loop and the grammar\<close>

lemma hex_digit_value: "hex_digit c = map_option of_nat (hex_value c)"
proof -
  have "\<forall>c. hex_digit c = map_option of_nat (hex_value c)" by code_simp
  then show ?thesis by blast
qed

lemma hex_value_less: "hex_value c = Some n \<Longrightarrow> n < 16"
  by (auto simp: hex_value_def upt_rec numeral_eq_Suc split: if_split_asm)

lemma four_hex_less: "four_hex h n \<Longrightarrow> n < 65536"
  by (auto simp: four_hex_def dest!: hex_value_less)

lemma code_unit_steps: "parseUnicodeCodeUnit s = code_unit (Suc (Suc (Suc (Suc 0)))) 0 s"
  by (simp add: parseUnicodeCodeUnit_def numeral_eq_Suc)

lemma code_unit_iff:
  "parseUnicodeCodeUnit s = Inr (u, r) \<longleftrightarrow> (\<exists>h n. s = h @ r \<and> four_hex h n \<and> u = of_nat n)"
proof
  assume "parseUnicodeCodeUnit s = Inr (u, r)"
  then obtain a b c d x y z w where
    "s = [a, b, c, d] @ r" "hex_value a = Some x" "hex_value b = Some y" "hex_value c = Some z" "hex_value d = Some w"
    "u = push_bit 4 (push_bit 4 (push_bit 4 (push_bit 4 0 + of_nat x) + of_nat y) + of_nat z) + of_nat w"
    by (auto simp: code_unit_steps andThen_Inr_iff get_char_Inr_iff hex_digit_value
        split: option.split_asm)
  then show "\<exists>h n. s = h @ r \<and> four_hex h n \<and> u = of_nat n"
    by (intro exI [of _ "[a, b, c, d]"] exI [of _ "4096 * x + 256 * y + 16 * z + w"])
      (simp add: four_hex_def push_bit_eq_mult algebra_simps)
next
  assume "\<exists>h n. s = h @ r \<and> four_hex h n \<and> u = of_nat n"
  then show "parseUnicodeCodeUnit s = Inr (u, r)"
    by (auto simp: four_hex_def code_unit_steps hex_digit_value push_bit_eq_mult algebra_simps)
qed

lemma encode_code_point_reference: "encode_code_point c = utf8_encode c"
proof -
  have le: "c \<le> 0x7F \<longleftrightarrow> c < 0x80" "c \<le> 0x7FF \<longleftrightarrow> c < 0x800" "c \<le> 0xFFFF \<longleftrightarrow> c < 0x10000"
    by (auto simp: word_le_nat_alt word_less_nat_alt)
  have "ucast (x OR y) = (ucast x OR ucast y :: u8)" for x y :: u32 by (simp add: bit_eq_iff bit_simps)
  then show ?thesis by (simp add: encode_code_point_def utf8_encode_def utf8_tail_def le)
qed

lemma code_unit_word:
  assumes "n < 65536"
  shows "ucast (of_nat n :: u16) = (of_nat n :: u32)" and "unat (of_nat n :: u32) = n"
proof -
  show "unat (of_nat n :: u32) = n" using assms by (simp add: unat_of_nat)
  then show "ucast (of_nat n :: u16) = (of_nat n :: u32)"
    using assms by (intro word_unat_eq_iff [THEN iffD2]) (simp add: unsigned_ucast_eq unat_of_nat take_bit_eq_mod)
qed

lemma surrogate_join:
  assumes "0xD800 \<le> n" and "n < 65536" and "0xDC00 \<le> m" and "m < 65536"
  shows "0x10000 + push_bit 10 (of_nat n - 0xD800) + (of_nat m - 0xDC00)
       = (of_nat (0x10000 + 1024 * (n - 0xD800) + (m - 0xDC00)) :: u32)"
  using assms by (simp add: push_bit_eq_mult of_nat_diff algebra_simps)

lemma unicode_code_point_sound:
  assumes "unicode_code_point s = Inr (c, r)"
  obtains h n where "s = h @ r" "four_hex h n" "\<not> (0xD800 \<le> n \<and> n \<le> 0xDFFF)" "c = of_nat n"
  | h n h' m where "s = h @ CHR 0x5C # CHR ''u'' # h' @ r" "four_hex h n" "0xD800 \<le> n" "n \<le> 0xDBFF"
      "four_hex h' m" "0xDC00 \<le> m" "m \<le> 0xDFFF" "c = of_nat (0x10000 + 1024 * (n - 0xD800) + (m - 0xDC00))"
proof -
  obtain u s1 where "parseUnicodeCodeUnit s = Inr (u, s1)"
    using assms by (cases "parseUnicodeCodeUnit s") (auto simp: unicode_code_point_def)
  then obtain h n where first: "s = h @ s1" "four_hex h n" "u = of_nat n" and unit: "parseUnicodeCodeUnit s = Inr (of_nat n, s1)"
    by (auto simp: code_unit_iff)
  note n = four_hex_less [OF first(2)]
  note w = code_unit_word [OF n]
  show thesis
  proof (cases "0xD800 \<le> n \<and> n \<le> 0xDBFF")
    case True
    then have "0xD800 \<le> (of_nat n :: u32) \<and> (of_nat n :: u32) \<le> 0xDBFF" by (simp add: word_le_nat_alt w)
    then obtain h' m where second: "s1 = CHR 0x5C # CHR ''u'' # h' @ r" "four_hex h' m"
      and low: "\<not> (of_nat m < (0xDC00 :: u32) \<or> of_nat m > (0xDFFF :: u32))"
      and c: "c = 0x10000 + push_bit 10 (of_nat n - 0xD800) + (of_nat m - 0xDC00)"
      using assms
      by (auto simp: unicode_code_point_def unit w Let_def andThen_Inr_iff get_char_Inr_iff code_unit_iff
          code_unit_word four_hex_less split: if_split_asm)
    note m = four_hex_less [OF second(2)]
    have m': "0xDC00 \<le> m" "m \<le> 0xDFFF" using low by (auto simp: word_less_nat_alt code_unit_word [OF m])
    show thesis
      using that(2) [OF _ first(2) _ _ second(2) m'] first(1) second(1) True c surrogate_join [of n m] n m m' by simp
  next
    case False
    then have "\<not> (0xD800 \<le> n \<and> n \<le> 0xDFFF) \<and> c = of_nat n \<and> r = s1"
      using assms unfolding unicode_code_point_def unit
      by (auto simp: w Let_def word_le_nat_alt split: if_split_asm)
    with that(1) [OF _ first(2)] first(1) show thesis by blast
  qed
qed

lemma unicode_code_point_complete:
  "four_hex h n \<Longrightarrow> \<not> (0xD800 \<le> n \<and> n \<le> 0xDFFF) \<Longrightarrow> unicode_code_point (h @ r) = Inr (of_nat n, r)"
  "four_hex h n \<Longrightarrow> 0xD800 \<le> n \<Longrightarrow> n \<le> 0xDBFF \<Longrightarrow> four_hex h' m \<Longrightarrow> 0xDC00 \<le> m \<Longrightarrow> m \<le> 0xDFFF \<Longrightarrow>
     unicode_code_point (h @ CHR 0x5C # CHR ''u'' # h' @ r) =
       Inr (of_nat (0x10000 + 1024 * (n - 0xD800) + (m - 0xDC00)), r)"
proof -
  assume h: "four_hex h n"
  note n = four_hex_less [OF h]
  note w = code_unit_word [OF n]
  have unit: "parseUnicodeCodeUnit (h @ t) = Inr (of_nat n, t)" for t using h by (auto simp: code_unit_iff)
  show "\<not> (0xD800 \<le> n \<and> n \<le> 0xDFFF) \<Longrightarrow> unicode_code_point (h @ r) = Inr (of_nat n, r)"
    by (auto simp: unicode_code_point_def unit Let_def word_le_nat_alt w)
  assume range: "0xD800 \<le> n" "n \<le> 0xDBFF" and h': "four_hex h' m" and low: "0xDC00 \<le> m" "m \<le> 0xDFFF"
  note m = four_hex_less [OF h']
  have unit': "parseUnicodeCodeUnit (h' @ t) = Inr (of_nat m, t)" for t using h' by (auto simp: code_unit_iff)
  show "unicode_code_point (h @ CHR 0x5C # CHR ''u'' # h' @ r) =
       Inr (of_nat (0x10000 + 1024 * (n - 0xD800) + (m - 0xDC00)), r)"
    using range low surrogate_join [OF range(1) n low(1) m]
    by (simp add: unicode_code_point_def unit unit' Let_def word_le_nat_alt word_less_nat_alt w code_unit_word [OF m])
qed

lemma parse_escape_unicode:
  assumes "unicode_code_point s = Inr (c, t)"
    and "length (v @ bytes_string (utf8_encode c)) \<le> lim_maximumStringBytes lim"
  shows "parse_escape lim v (CHR ''u'' # s) = Inr (v @ bytes_string (utf8_encode c), t)"
proof -
  have "simple_escape CHR ''u'' = None" by code_simp
  with assms show ?thesis
    by (auto simp: parse_escape_def appendUnicodeEscape_def encode_code_point_reference Let_def)
qed

lemma parse_escape_sound:
  assumes "parse_escape lim v s = Inr (v', t)"
  obtains e c where "s = e # t" "simple_escape e = Some c" "v' = v @ [c]" "length v' \<le> lim_maximumStringBytes lim"
  | c s1 where "s = CHR ''u'' # s1" "unicode_code_point s1 = Inr (c, t)" "v' = v @ bytes_string (utf8_encode c)"
      "length v' \<le> lim_maximumStringBytes lim"
proof -
  obtain e s1 where s: "s = e # s1" using assms by (cases s) (auto simp: parse_escape_def)
  show thesis
  proof (cases "simple_escape e")
    case None
    with assms s show thesis
      by (auto simp: parse_escape_def appendUnicodeEscape_def encode_code_point_reference andThen_Inr_iff Let_def
          split: if_split_asm intro: that(2))
  next
    case (Some c)
    with assms s show thesis
      by (auto simp: parse_escape_def appendByte_def andThen_Inr_iff split: if_split_asm intro: that(1))
  qed
qed

lemma string_loop_sound:
  assumes "string_loop lim s acc = Inr (v, r)" and "length acc \<le> lim_maximumStringBytes lim"
  shows "\<exists>raw w. s = raw @ CHR 0x22 # r \<and> string_chars raw w \<and> v = acc @ w
      \<and> length v \<le> lim_maximumStringBytes lim \<and> json_utf8 (string_bytes v)"
  using assms
proof (induction s arbitrary: acc rule: length_induct)
  case (1 s)
  have IH: thesis
    if "string_loop lim t acc' = Inr (v, r)" "length acc' \<le> lim_maximumStringBytes lim" "length t < length s"
      "\<And>raw w. t = raw @ CHR 0x22 # r \<Longrightarrow> string_chars raw w \<Longrightarrow> v = acc' @ w \<Longrightarrow>
        length v \<le> lim_maximumStringBytes lim \<Longrightarrow> json_utf8 (string_bytes v) \<Longrightarrow> thesis" for t acc' thesis
    using 1(1) that by blast
  obtain ch t where s: "s = ch # t" using 1(2) by (cases s) auto
  consider (close) "ch = CHR 0x22" "v = acc" "r = t" "json_utf8 (string_bytes acc)"
    | (plain) "ch \<noteq> CHR 0x22" "\<not> (of_char ch :: u8) < 0x20" "ch \<noteq> CHR 0x5C"
        "length acc < lim_maximumStringBytes lim" "string_loop lim t (acc @ [ch]) = Inr (v, r)"
    | (escape) acc' t' where "ch = CHR 0x5C" "parse_escape lim acc t = Inr (acc', t')" "string_loop lim t' acc' = Inr (v, r)"
    using 1(2) s by (auto simp: appendByte_def andThen_Inr_iff split: if_split_asm)
  then show ?case
  proof cases
    case close
    with s 1(3) show ?thesis by (intro exI [of _ "[]"]) (auto intro: string_chars.empty)
  next
    case plain
    show ?thesis
    proof (rule IH [OF plain(5)])
      fix raw w assume "t = raw @ CHR 0x22 # r" "string_chars raw w" "v = (acc @ [ch]) @ w"
        "length v \<le> lim_maximumStringBytes lim" "json_utf8 (string_bytes v)"
      with plain s show ?thesis
        by (intro exI [of _ "ch # raw"] exI [of _ "ch # w"]) (auto intro: string_chars.plain)
    qed (use plain s in simp_all)
  next
    case escape
    have less: "length t' < length s" using parse_escape_shorter [OF escape(2)] s by simp
    show ?thesis
      using escape(2)
    proof (cases rule: parse_escape_sound)
      case (1 e c)
      show ?thesis
      proof (rule IH [OF escape(3) 1(4) less])
        fix raw w assume "t' = raw @ CHR 0x22 # r" "string_chars raw w" "v = acc' @ w"
          "length v \<le> lim_maximumStringBytes lim" "json_utf8 (string_bytes v)"
        with 1 s escape(1) show ?thesis
          by (intro exI [of _ "CHR 0x5C # e # raw"] exI [of _ "c # w"]) (auto intro: string_chars.escape)
      qed
    next
      case (2 c s1)
      show ?thesis
      proof (rule IH [OF escape(3) 2(4) less])
        fix raw w assume w: "t' = raw @ CHR 0x22 # r" "string_chars raw w" "v = acc' @ w"
          "length v \<le> lim_maximumStringBytes lim" "json_utf8 (string_bytes v)"
        have "\<exists>front. t = front @ t' \<and> string_chars (CHR 0x5C # front @ raw) (bytes_string (utf8_encode c) @ w)"
          using 2(2)
        proof (cases rule: unicode_code_point_sound)
          case (1 h n)
          with string_chars.unicode [OF 1(2,3) w(2)] 2(1) show ?thesis
            by (intro exI [of _ "CHR ''u'' # h"]) simp
        next
          case (2 h n h' m)
          with string_chars.surrogates [OF 2(2-7) w(2)] \<open>t = CHR ''u'' # s1\<close> show ?thesis
            by (intro exI [of _ "CHR ''u'' # h @ CHR 0x5C # CHR ''u'' # h'"]) (simp del: of_nat_add of_nat_mult)
        qed
        then obtain front where "t = front @ t'" "string_chars (CHR 0x5C # front @ raw) (bytes_string (utf8_encode c) @ w)"
          by blast
        with w 2(3) s escape(1) show ?thesis
          by (intro exI [of _ "CHR 0x5C # front @ raw"] exI [of _ "bytes_string (utf8_encode c) @ w"]) simp
      qed
    qed
  qed
qed

lemma string_loop_complete:
  assumes "string_chars raw w" and "length (acc @ w) \<le> lim_maximumStringBytes lim" and "json_utf8 (string_bytes (acc @ w))"
  shows "string_loop lim (raw @ CHR 0x22 # r) acc = Inr (acc @ w, r)"
  using assms
proof (induction arbitrary: acc)
  case empty
  then show ?case by simp
next
  case (plain c t v)
  then show ?case by (simp add: appendByte_def)
next
  case (escape e c t v)
  then show ?case by (simp add: parse_escape_def appendByte_def)
next
  case (unicode h n t v)
  have "parse_escape lim acc (CHR ''u'' # h @ t @ CHR 0x22 # r) =
      Inr (acc @ bytes_string (utf8_encode (of_nat n)), t @ CHR 0x22 # r)"
    using unicode.prems(1) by (intro parse_escape_unicode unicode_code_point_complete(1) unicode.hyps(1,2)) simp
  with unicode.IH [of "acc @ bytes_string (utf8_encode (of_nat n))"] unicode.prems show ?case by simp
next
  case (surrogates h n h' m t v)
  define c where "c = (of_nat (0x10000 + 1024 * (n - 0xD800) + (m - 0xDC00)) :: u32)"
  have "unicode_code_point (h @ CHR 0x5C # CHR ''u'' # h' @ t @ CHR 0x22 # r) = Inr (c, t @ CHR 0x22 # r)"
    unfolding c_def using surrogates.hyps by (intro unicode_code_point_complete(2))
  then have "parse_escape lim acc (CHR ''u'' # h @ CHR 0x5C # CHR ''u'' # h' @ t @ CHR 0x22 # r) =
      Inr (acc @ bytes_string (utf8_encode c), t @ CHR 0x22 # r)"
    using surrogates.prems(1) unfolding c_def [symmetric] by (intro parse_escape_unicode) simp_all
  with surrogates.IH [of "acc @ bytes_string (utf8_encode c)"] surrogates.prems show ?case
    unfolding c_def [symmetric] by simp
qed

lemma parseString_iff:
  "parseString lim s = Inr (v, r) \<longleftrightarrow> (\<exists>t. s = t @ r \<and> string_text lim t v)"
proof
  assume "parseString lim s = Inr (v, r)"
  then obtain s1 where "s = CHR 0x22 # s1" "string_loop lim s1 [] = Inr (v, r)"
    by (auto simp: parseString_def andThen_Inr_iff expect_Inr_iff)
  with string_loop_sound [of lim s1 "[]" v r] show "\<exists>t. s = t @ r \<and> string_text lim t v"
    by (auto simp: string_text_def)
next
  assume "\<exists>t. s = t @ r \<and> string_text lim t v"
  with string_loop_complete [of _ v "[]" lim r] show "parseString lim s = Inr (v, r)"
    by (auto simp: string_text_def parseString_def expect_def)
qed

section \<open>Numbers: the scanner and the grammar\<close>

definition ends_digits :: "string \<Rightarrow> bool" where
  "ends_digits r \<longleftrightarrow> r = [] \<or> \<not> IsDigit (hd r)"

lemma skip_digits_append: "list_all IsDigit ds \<Longrightarrow> ends_digits r \<Longrightarrow> skip_digits (ds @ r) = r"
  by (cases r) (auto simp: skip_digits_def ends_digits_def list_all_iff dropWhile_append)

lemma skip_digits_split:
  assumes "s \<noteq> []" and "IsDigit (hd s)"
  obtains ds where "s = ds @ skip_digits s" "ds \<noteq> []" "list_all IsDigit ds" "hd ds = hd s"
proof -
  have "s = takeWhile IsDigit s @ skip_digits s" by (simp add: skip_digits_def)
  moreover have "takeWhile IsDigit s \<noteq> []" "hd (takeWhile IsDigit s) = hd s" using assms by (cases s; simp)+
  moreover have "list_all IsDigit (takeWhile IsDigit s)" by (auto simp: list_all_iff dest: set_takeWhileD)
  ultimately show thesis using that by blast
qed

lemma number_integer_sound: "number_integer s = Inr r \<Longrightarrow> \<exists>t. s = t @ r \<and> integer_text t"
proof -
  assume run: "number_integer s = Inr r"
  then have start: "s \<noteq> []" "IsDigit (hd s)" by (auto simp: number_integer_def split: if_split_asm)
  show ?thesis
  proof (cases "hd s = CHR ''0''")
    case True
    with run start show ?thesis
      by (intro exI [of _ "''0''"]) (cases s; auto simp: number_integer_def integer_text_def split: if_split_asm)
  next
    case False
    with run start have "r = skip_digits s" by (simp add: number_integer_def)
    with skip_digits_split [OF start] False show ?thesis unfolding integer_text_def by metis
  qed
qed

lemma number_fraction_sound: "number_fraction s = Inr r \<Longrightarrow> \<exists>t. s = t @ r \<and> fraction_text t"
proof (cases "s \<noteq> [] \<and> hd s = CHR ''.''")
  case True
  assume "number_fraction s = Inr r"
  with True have r: "tl s \<noteq> []" "IsDigit (hd (tl s))" "r = skip_digits (tl s)"
    by (auto simp: number_fraction_def split: if_split_asm)
  obtain ds where ds: "tl s = ds @ r" "ds \<noteq> []" "list_all IsDigit ds"
    using skip_digits_split [OF r(1,2)] r(3) by metis
  with True have "s = (CHR ''.'' # ds) @ r" by (cases s) simp_all
  with ds show ?thesis unfolding fraction_text_def by blast
qed (auto simp: number_fraction_def fraction_text_def)

lemma skip_sign_split:
  obtains sign where "s = sign @ skip_sign s" "sign \<in> {[], ''+'', ''-''}"
proof (cases "s \<noteq> [] \<and> (hd s = CHR ''+'' \<or> hd s = CHR ''-'')")
  case True
  then show thesis by (intro that [of "[hd s]"]) (auto simp: skip_sign_def)
next
  case False
  then show thesis by (intro that [of "[]"]) (auto simp: skip_sign_def)
qed

lemma number_exponent_sound: "number_exponent s = Inr r \<Longrightarrow> \<exists>t. s = t @ r \<and> exponent_text t"
proof (cases "s \<noteq> [] \<and> (hd s = CHR ''e'' \<or> hd s = CHR ''E'')")
  case True
  assume "number_exponent s = Inr r"
  with True have r: "skip_sign (tl s) \<noteq> []" "IsDigit (hd (skip_sign (tl s)))" "r = skip_digits (skip_sign (tl s))"
    by (auto simp: number_exponent_def Let_def split: if_split_asm)
  obtain ds where ds: "skip_sign (tl s) = ds @ r" "ds \<noteq> []" "list_all IsDigit ds"
    using skip_digits_split [OF r(1,2)] r(3) by metis
  obtain sign where sign: "tl s = sign @ skip_sign (tl s)" "sign \<in> {[], ''+'', ''-''}" by (rule skip_sign_split)
  have "s = (hd s # sign @ ds) @ r" using True sign(1) ds(1) by (cases s) simp_all
  with True sign(2) ds show ?thesis unfolding exponent_text_def by blast
qed (auto simp: number_exponent_def exponent_text_def)

lemma number_integer_complete: "integer_text t \<Longrightarrow> ends_digits r \<Longrightarrow> number_integer (t @ r) = Inr r"
proof (cases "t = ''0''")
  case False
  assume "integer_text t" "ends_digits r"
  with False have "t \<noteq> []" "hd t \<noteq> CHR ''0''" "list_all IsDigit t" by (auto simp: integer_text_def)
  with \<open>ends_digits r\<close> show ?thesis by (cases t) (auto simp: number_integer_def skip_digits_append simp flip: append_Cons)
qed (auto simp: number_integer_def ends_digits_def IsDigit_def)

lemma number_fraction_complete:
  "fraction_text t \<Longrightarrow> ends_digits r \<Longrightarrow> r = [] \<or> hd r \<noteq> CHR ''.'' \<Longrightarrow> number_fraction (t @ r) = Inr r"
proof (cases "t = []")
  case False
  assume "fraction_text t" "ends_digits r"
  with False obtain ds where "t = CHR ''.'' # ds" "ds \<noteq> []" "list_all IsDigit ds" by (auto simp: fraction_text_def)
  with \<open>ends_digits r\<close> show ?thesis by (cases ds) (auto simp: number_fraction_def skip_digits_append simp flip: append_Cons)
qed (auto simp: number_fraction_def)

lemma number_exponent_complete:
  "exponent_text t \<Longrightarrow> ends_digits r \<Longrightarrow> r = [] \<or> hd r \<notin> {CHR ''e'', CHR ''E''} \<Longrightarrow> number_exponent (t @ r) = Inr r"
proof (cases "t = []")
  case False
  assume "exponent_text t" "ends_digits r"
  with False obtain e sign ds where t: "t = e # sign @ ds" "e \<in> {CHR ''e'', CHR ''E''}" "sign \<in> {[], ''+'', ''-''}"
    "ds \<noteq> []" "list_all IsDigit ds" by (auto simp: exponent_text_def)
  then have "skip_sign (sign @ ds @ r) = ds @ r" by (cases ds) (auto simp: skip_sign_def IsDigit_def)
  with t \<open>ends_digits r\<close> show ?thesis by (cases ds) (auto simp: number_exponent_def skip_digits_append simp flip: append_Cons)
qed (auto simp: number_exponent_def)

lemma parseNumber_sound:
  assumes "parseNumber fin s = Inr (t, r)" and "s \<noteq> []"
  shows "s = t @ r \<and> number_text t \<and> fin t"
proof -
  define s1 where "s1 = (if hd s = CHR ''-'' then tl s else s)"
  obtain r1 r2 where steps: "number_integer s1 = Inr r1" "number_fraction r1 = Inr r2" "number_exponent r2 = Inr r"
    and t: "t = take (length s - length r) s" "fin t"
    using assms(1) by (auto simp: parseNumber_def s1_def [symmetric] andThen_Inr_iff Let_def split: if_split_asm)
  obtain i f e where parts: "s1 = i @ f @ e @ r" "integer_text i" "fraction_text f" "exponent_text e"
    using number_integer_sound [OF steps(1)] number_fraction_sound [OF steps(2)] number_exponent_sound [OF steps(3)]
    by blast
  have "\<exists>sign. s = sign @ s1 \<and> sign \<in> {[], ''-''}"
    using assms(2) by (cases s) (simp_all add: s1_def)
  then obtain sign where "s = sign @ s1" "sign \<in> {[], ''-''}" by blast
  with parts t show ?thesis by (auto simp: number_text_def)
qed

lemma parseNumber_complete:
  assumes "number_text t" and "fin t" and "ends_digits r" and "r = [] \<or> hd r \<notin> {CHR ''.'', CHR ''e'', CHR ''E''}"
  shows "parseNumber fin (t @ r) = Inr (t, r)"
proof -
  obtain sign i f e where t: "t = sign @ i @ f @ e" "sign \<in> {[], ''-''}" "integer_text i" "fraction_text f" "exponent_text e"
    using assms(1) by (auto simp: number_text_def)
  have ends: "ends_digits (e @ r)" "e @ r = [] \<or> hd (e @ r) \<noteq> CHR ''.''" "ends_digits (f @ e @ r)"
    using t(4,5) assms(3,4) by (auto simp: exponent_text_def fraction_text_def ends_digits_def IsDigit_def)
  have "hd i \<noteq> CHR ''-''" "i \<noteq> []" using t(3) by (cases i; auto simp: integer_text_def IsDigit_def)+
  then have "(if hd (t @ r) = CHR ''-'' then tl (t @ r) else t @ r) = i @ f @ e @ r" using t(1,2) by auto
  then show ?thesis
    using number_integer_complete [OF t(3) ends(3)] number_fraction_complete [OF t(4) ends(1,2)]
      number_exponent_complete [OF t(5) assms(3)] assms(2,4)
    by (auto simp: parseNumber_def)
qed

section \<open>Values: the parser and the grammar\<close>

lemma skipWhitespace_split: obtains w where "s = w @ skipWhitespace s" "blank w"
proof (rule that)
  show "s = takeWhile IsJsonWhitespace s @ skipWhitespace s" by (simp add: skipWhitespace_def)
  show "blank (takeWhile IsJsonWhitespace s)" by (auto simp: list_all_iff dest: set_takeWhileD)
qed

lemma skipWhitespace_append: "blank w \<Longrightarrow> skipWhitespace (w @ s) = skipWhitespace s"
  by (simp add: skipWhitespace_def list_all_iff dropWhile_append1 dropWhile_append)

lemma skipWhitespace_stop: "s = [] \<or> \<not> IsJsonWhitespace (hd s) \<Longrightarrow> skipWhitespace s = s"
  by (cases s) (simp_all add: skipWhitespace_def)

lemma skipWhitespace_idem: "skipWhitespace (skipWhitespace s) = skipWhitespace s"
  unfolding skipWhitespace_def by (cases "dropWhile IsJsonWhitespace s") (simp_all add: dropWhile_eq_Cons_conv)

lemma parseValue_skip: "parseValue fin lim d (skipWhitespace s) n = parseValue fin lim d s n"
  by (simp add: parseValue.simps [of fin lim d] skipWhitespace_idem)

lemma loops_skip:
  "array_loop fin lim d arr (skipWhitespace s) n = array_loop fin lim d arr s n"
  "object_loop fin lim d obj (skipWhitespace s) n = object_loop fin lim d obj s n"
  by (simp_all add: array_loop.simps [of fin lim d arr] object_loop.simps [of fin lim d obj] parseValue_skip
      skipWhitespace_idem)

text \<open>Blanks in front of a list of elements or members belong to the first of them.\<close>

lemma elements_blank:
  assumes "elements_text fin lim d n t js" and "blank w"
  shows "elements_text fin lim d n (w @ t) js"
  using assms(1)
proof (rule elements_text.cases)
  fix a d' n' t' j b
  assume "d = d'" "n = n'" "t = a @ t' @ b" "js = [j]" "blank a" "value_text fin lim d' n' t' j" "blank b"
  with assms(2) element [of "w @ a"] show ?thesis by simp
next
  fix a d' n' t' j b m t'' js'
  assume "d = d'" "n = n' + m" "t = a @ t' @ b @ CHR '','' # t''" "js = j # js'" "blank a"
    "value_text fin lim d' n' t' j" "blank b" "elements_text fin lim d' m t'' js'"
  with assms(2) more_elements [of "w @ a"] show ?thesis by simp
qed

lemma members_blank:
  assumes "members_text fin lim d n t kvs" and "blank w"
  shows "members_text fin lim d n (w @ t) kvs"
  using assms(1)
proof (rule members_text.cases)
  fix a kt k b c d' n' t' j e
  assume "d = d'" "n = n'" "t = a @ kt @ b @ CHR '':'' # c @ t' @ e" "kvs = [(k, j)]" "blank a" "string_text lim kt k"
    "blank b" "blank c" "value_text fin lim d' n' t' j" "blank e"
  with assms(2) member [of "w @ a"] show ?thesis by simp
next
  fix a kt k b c d' n' t' j e m t'' kvs'
  assume "d = d'" "n = n' + m" "t = a @ kt @ b @ CHR '':'' # c @ t' @ e @ CHR '','' # t''" "kvs = (k, j) # kvs'" "blank a"
    "string_text lim kt k" "blank b" "blank c" "value_text fin lim d' n' t' j" "blank e"
    "members_text fin lim d' m t'' kvs'" "k \<notin> fst ` set kvs'"
  with assms(2) more_members [of "w @ a"] show ?thesis by simp
qed

lemma obj_emplace_Some_iff: "obj_emplace k v obj = Some obj' \<longleftrightarrow> k \<notin> fst ` set obj \<and> obj' = obj @ [(k, v)]"
  by (auto simp: obj_emplace_def obj_find_def map_of_eq_None_iff)

lemma parse_sound:
  "parseValue fin lim d s n = Inr (v, r, n') \<Longrightarrow>
     \<exists>a t k. s = a @ t @ r \<and> blank a \<and> value_text fin lim d k t v \<and> n' = n + k \<and> n' \<le> lim_maximumNodes lim"
  "parseObject fin lim d s n = Inr (v, r, n') \<Longrightarrow> d \<le> lim_maximumDepth lim \<Longrightarrow> n \<le> lim_maximumNodes lim \<Longrightarrow>
     \<exists>t k. s = t @ r \<and> value_text fin lim d (k + 1) t v \<and> n' = n + k \<and> n' \<le> lim_maximumNodes lim"
  "object_loop fin lim d obj s n = Inr (v, r, n') \<Longrightarrow>
     \<exists>t k kvs. s = t @ CHR 0x7D # r \<and> members_text fin lim (d + 1) k t kvs \<and> v = JObject (obj @ kvs)
       \<and> fst ` set kvs \<inter> fst ` set obj = {} \<and> n' = n + k \<and> n' \<le> lim_maximumNodes lim"
  "parseArray fin lim d s n = Inr (v, r, n') \<Longrightarrow> d \<le> lim_maximumDepth lim \<Longrightarrow> n \<le> lim_maximumNodes lim \<Longrightarrow>
     \<exists>t k. s = t @ r \<and> value_text fin lim d (k + 1) t v \<and> n' = n + k \<and> n' \<le> lim_maximumNodes lim"
  "array_loop fin lim d arr s n = Inr (v, r, n') \<Longrightarrow>
     \<exists>t k js. s = t @ CHR 0x5D # r \<and> elements_text fin lim (d + 1) k t js \<and> v = JArray (arr @ js)
       \<and> n' = n + k \<and> n' \<le> lim_maximumNodes lim"
proof (induction fin lim d s n and fin lim d s n and fin lim d obj s n and fin lim d s n and fin lim d arr s n
    arbitrary: v r n' and v r n' and v r n' and v r n' and v r n'
    rule: parseValue_parseObject_object_loop_parseArray_array_loop.induct)
  case (1 fin lim depth s nodes)
  obtain a where a: "s = a @ skipWhitespace s" "blank a" by (rule skipWhitespace_split)
  have ok: "depth \<le> lim_maximumDepth lim" "nodes + 1 \<le> lim_maximumNodes lim" "skipWhitespace s \<noteq> []"
    using 1(3) by (auto simp: Let_def split: if_split_asm)
  note text_rules = value_text_elements_text_members_text.intros(1-5) [OF ok(1), unfolded One_nat_def]
  have "\<exists>t k. skipWhitespace s = t @ r \<and> value_text fin lim depth (k + 1) t v \<and> n' = nodes + 1 + k
      \<and> n' \<le> lim_maximumNodes lim"
  proof (cases "hd (skipWhitespace s) = CHR 0x7B \<or> hd (skipWhitespace s) = CHR 0x5B")
    case True
    then have "parseObject fin lim depth (skipWhitespace s) (nodes + 1) = Inr (v, r, n') \<and> hd (skipWhitespace s) = CHR 0x7B
        \<or> parseArray fin lim depth (skipWhitespace s) (nodes + 1) = Inr (v, r, n') \<and> hd (skipWhitespace s) = CHR 0x5B"
      using 1(3) ok by (auto simp: Let_def split: if_split_asm)
    with ok show ?thesis
      using 1(1) [OF _ _ refl refl ok(3)] 1(2) [OF _ _ refl refl ok(3)] by auto
  next
    case False
    with 1(3) ok have "\<exists>t. skipWhitespace s = t @ r \<and> value_text fin lim depth 1 t v" and "n' = nodes + 1"
      by (auto simp: Let_def andThen_Inr_iff consumeLiteral_Inr_iff parseString_iff intro: text_rules
          dest: parseNumber_sound simp del: consumeLiteral.simps split: if_split_asm)
    with ok(2) show ?thesis by auto
  qed
  then obtain t k where "skipWhitespace s = t @ r" "value_text fin lim depth (k + 1) t v" "n' = nodes + (k + 1)"
    "n' \<le> lim_maximumNodes lim" by auto
  with a show ?case by metis
next
  case (2 fin lim depth s nodes)
  then obtain s1 where s: "s = CHR 0x7B # s1" by (auto simp: andThen_Inr_iff expect_Inr_iff)
  obtain w where w: "s1 = w @ skipWhitespace s1" "blank w" by (rule skipWhitespace_split)
  show ?case
  proof (cases "skipWhitespace s1 \<noteq> [] \<and> hd (skipWhitespace s1) = CHR 0x7D")
    case True
    with 2(2) s have "v = JObject []" "r = tl (skipWhitespace s1)" "n' = nodes" by (simp_all add: expect_def)
    with True have "s = (CHR 0x7B # w @ [CHR 0x7D]) @ r" using w(1) s by (cases "skipWhitespace s1") auto
    with no_members [OF 2(3) w(2)] \<open>v = JObject []\<close> \<open>n' = nodes\<close> 2(4) show ?thesis by (intro exI [of _ 0] exI conjI) simp_all
  next
    case False
    with 2(2) s have run: "object_loop fin lim depth [] (skipWhitespace s1) nodes = Inr (v, r, n')"
      by (auto simp: expect_def split: if_split_asm)
    from 2(1) [OF _ refl False run] s obtain t k kvs where
      loop: "skipWhitespace s1 = t @ CHR 0x7D # r" "members_text fin lim (depth + 1) k t kvs" "v = JObject kvs"
        "n' = nodes + k" "n' \<le> lim_maximumNodes lim" by (auto simp: expect_def)
    have "s = (CHR 0x7B # (w @ t) @ [CHR 0x7D]) @ r" using w(1) loop(1) s by simp
    with members [OF 2(3) members_blank [OF loop(2) w(2)]] loop(3-5) show ?thesis by blast
  qed
next
  case (3 fin lim depth obj s nodes)
  show ?case
  proof (rule object_turn [OF 3(3) [unfolded object_loop.simps [of fin lim depth obj s]]], goal_cases)
    case (1 key s1 s2 w s3 n3 obj')
    obtain a where a: "s = a @ skipWhitespace s" "blank a" by (rule skipWhitespace_split)
    obtain b where b: "s1 = b @ skipWhitespace s1" "blank b" by (rule skipWhitespace_split)
    obtain e where e: "s3 = e @ skipWhitespace s3" "blank e" by (rule skipWhitespace_split)
    obtain kt where kt: "skipWhitespace s = kt @ s1" "string_text lim kt key" using 1(2) by (auto simp: parseString_iff)
    obtain c t k where vl: "s2 = c @ t @ s3" "blank c" "value_text fin lim (depth + 1) k t w" "n3 = nodes + k"
      "n3 \<le> lim_maximumNodes lim" using 3(1) [OF refl 1(1,2) refl 1(3,4)] by blast
    have new: "key \<notin> fst ` set obj" "obj' = obj @ [(key, w)]" using 1(5) by (simp_all add: obj_emplace_Some_iff)
    have whole: "s = a @ kt @ b @ CHR '':'' # c @ t @ e @ skipWhitespace s3"
      using a(1) b(1) e(1) kt(1) vl(1) 1(3) by (simp add: expect_Inr_iff)
    show ?thesis
      using 1(6)
    proof
      assume last: "get_char (skipWhitespace s3) = Inr (CHR 0x7D, r) \<and> v = JObject obj' \<and> n' = n3"
      with member [OF a(2) kt(2) b(2) vl(2,3) e(2)] whole new vl(4,5) show ?thesis
        by (intro exI [of _ "a @ kt @ b @ CHR '':'' # c @ t @ e"] exI [of _ k] exI [of _ "[(key, w)]"])
          (auto simp: get_char_Inr_iff)
    next
      assume "\<exists>t. get_char (skipWhitespace s3) = Inr (CHR '','', t) \<and> object_loop fin lim depth obj' t n3 = Inr (v, r, n')"
      then obtain s4 where s4: "get_char (skipWhitespace s3) = Inr (CHR '','', s4)"
        "object_loop fin lim depth obj' s4 n3 = Inr (v, r, n')" by blast
      obtain t' m kvs where rest: "s4 = t' @ CHR 0x7D # r" "members_text fin lim (depth + 1) m t' kvs"
        "v = JObject (obj' @ kvs)" "fst ` set kvs \<inter> fst ` set obj' = {}" "n' = n3 + m" "n' \<le> lim_maximumNodes lim"
        using 3(2) [OF refl 1(1,2) refl 1(3,4) refl refl 1(5) s4(1) refl _ _ s4(2)] by auto
      have "key \<notin> fst ` set kvs" using rest(4) new(2) by auto
      with more_members [OF a(2) kt(2) b(2) vl(2,3) e(2) rest(2)] whole new vl(4) rest s4(1) show ?thesis
        by (intro exI [of _ "a @ kt @ b @ CHR '':'' # c @ t @ e @ CHR '','' # t'"] exI [of _ "k + m"]
            exI [of _ "(key, w) # kvs"]) (auto simp: get_char_Inr_iff)
    qed
  qed
next
  case (4 fin lim depth s nodes)
  then obtain s1 where s: "s = CHR 0x5B # s1" by (auto simp: andThen_Inr_iff expect_Inr_iff)
  obtain w where w: "s1 = w @ skipWhitespace s1" "blank w" by (rule skipWhitespace_split)
  show ?case
  proof (cases "skipWhitespace s1 \<noteq> [] \<and> hd (skipWhitespace s1) = CHR 0x5D")
    case True
    with 4(2) s have "v = JArray []" "r = tl (skipWhitespace s1)" "n' = nodes" by (simp_all add: expect_def)
    with True have "s = (CHR 0x5B # w @ [CHR 0x5D]) @ r" using w(1) s by (cases "skipWhitespace s1") auto
    with no_elements [OF 4(3) w(2)] \<open>v = JArray []\<close> \<open>n' = nodes\<close> 4(4) show ?thesis by (intro exI [of _ 0] exI conjI) simp_all
  next
    case False
    with 4(2) s have run: "array_loop fin lim depth [] (skipWhitespace s1) nodes = Inr (v, r, n')"
      by (auto simp: expect_def split: if_split_asm)
    from 4(1) [OF _ refl False run] s obtain t k js where
      loop: "skipWhitespace s1 = t @ CHR 0x5D # r" "elements_text fin lim (depth + 1) k t js" "v = JArray js"
        "n' = nodes + k" "n' \<le> lim_maximumNodes lim" by (auto simp: expect_def)
    have "s = (CHR 0x5B # (w @ t) @ [CHR 0x5D]) @ r" using w(1) loop(1) s by simp
    with elements [OF 4(3) elements_blank [OF loop(2) w(2)]] loop(3-5) show ?thesis by blast
  qed
next
  case (5 fin lim depth arr s nodes)
  show ?case
  proof (rule array_turn [OF 5(3) [unfolded array_loop.simps [of fin lim depth arr s]]], goal_cases)
    case (1 w s3 n3)
    obtain b where b: "s3 = b @ skipWhitespace s3" "blank b" by (rule skipWhitespace_split)
    obtain a t k where vl: "s = a @ t @ s3" "blank a" "value_text fin lim (depth + 1) k t w" "n3 = nodes + k"
      "n3 \<le> lim_maximumNodes lim" using 5(1) [OF 1(1)] by blast
    have whole: "s = a @ t @ b @ skipWhitespace s3" using b(1) vl(1) by simp
    show ?thesis
      using 1(2)
    proof
      assume "get_char (skipWhitespace s3) = Inr (CHR 0x5D, r) \<and> v = JArray (arr @ [w]) \<and> n' = n3"
      with element [OF vl(2,3) b(2)] whole vl(4,5) show ?thesis
        by (intro exI [of _ "a @ t @ b"] exI [of _ k] exI [of _ "[w]"]) (auto simp: get_char_Inr_iff)
    next
      assume "\<exists>t. get_char (skipWhitespace s3) = Inr (CHR '','', t) \<and> array_loop fin lim depth (arr @ [w]) t n3 = Inr (v, r, n')"
      then obtain s4 where s4: "get_char (skipWhitespace s3) = Inr (CHR '','', s4)"
        "array_loop fin lim depth (arr @ [w]) s4 n3 = Inr (v, r, n')" by blast
      obtain t' m js where rest: "s4 = t' @ CHR 0x5D # r" "elements_text fin lim (depth + 1) m t' js"
        "v = JArray ((arr @ [w]) @ js)" "n' = n3 + m" "n' \<le> lim_maximumNodes lim"
        using 5(2) [OF 1(1) refl refl s4(1) refl _ _ s4(2)] by auto
      with more_elements [OF vl(2,3) b(2) rest(2)] whole vl(4) s4(1) show ?thesis
        by (intro exI [of _ "a @ t @ b @ CHR '','' # t'"] exI [of _ "k + m"] exI [of _ "w # js"])
          (auto simp: get_char_Inr_iff)
    qed
  qed
qed

text \<open>What may follow a value in a text of the grammar.\<close>

definition follows :: "string \<Rightarrow> bool" where
  "follows r \<longleftrightarrow> r = [] \<or> IsJsonWhitespace (hd r) \<or> hd r \<in> {CHR '','', CHR 0x5D, CHR 0x7D}"

lemma follows_number: "follows r \<Longrightarrow> ends_digits r \<and> (r = [] \<or> hd r \<notin> {CHR ''.'', CHR ''e'', CHR ''E''})"
  by (auto simp: follows_def ends_digits_def IsJsonWhitespace_def IsDigit_def)

lemma follows_blank: "blank b \<Longrightarrow> c \<in> {CHR '','', CHR 0x5D, CHR 0x7D} \<Longrightarrow> follows (b @ c # r)"
  by (cases b) (auto simp: follows_def)

lemma separator_after_blank:
  "blank b \<Longrightarrow> c \<in> {CHR '','', CHR 0x5D, CHR 0x7D, CHR '':''} \<Longrightarrow> skipWhitespace (b @ c # r) = c # r"
  by (auto simp: skipWhitespace_append skipWhitespace_stop IsJsonWhitespace_def)

definition starts_value :: "char \<Rightarrow> bool" where
  "starts_value c \<longleftrightarrow> c \<in> {CHR 0x7B, CHR 0x5B, CHR 0x22, CHR ''t'', CHR ''f'', CHR ''n'', CHR ''-''} \<or> IsDigit c"

lemma number_start: "number_text t \<Longrightarrow> t \<noteq> [] \<and> (hd t = CHR ''-'' \<or> IsDigit (hd t))"
proof -
  assume "number_text t"
  then obtain sign i f e where t: "t = sign @ i @ f @ e" "sign \<in> {[], ''-''}" "integer_text i"
    by (auto simp: number_text_def)
  have "i \<noteq> [] \<and> IsDigit (hd i)" using t(3) by (cases i) (auto simp: integer_text_def IsDigit_def)
  with t show ?thesis by auto
qed

lemma string_start: "string_text lim t v \<Longrightarrow> t \<noteq> [] \<and> hd t = CHR 0x22"
  by (auto simp: string_text_def)

lemma value_start: "value_text fin lim d n t j \<Longrightarrow> t \<noteq> [] \<and> starts_value (hd t)"
  by (erule value_text.cases) (auto simp: starts_value_def dest: number_start string_start)

lemma starts_not_blank:
  "starts_value c \<Longrightarrow> \<not> IsJsonWhitespace c" "starts_value c \<Longrightarrow> c \<noteq> CHR 0x5D" "starts_value c \<Longrightarrow> c \<noteq> CHR 0x7D"
  by (auto simp: starts_value_def IsJsonWhitespace_def IsDigit_def)

lemma value_after_blank:
  assumes "value_text fin lim d n t j" and "blank a"
  shows "skipWhitespace (a @ t @ r) = t @ r"
proof -
  have "t @ r \<noteq> []" "\<not> IsJsonWhitespace (hd (t @ r))" using value_start [OF assms(1)] by (auto dest: starts_not_blank)
  then show ?thesis using assms(2) by (simp add: skipWhitespace_append skipWhitespace_stop)
qed

lemma elements_first:
  "elements_text fin lim d n t js \<Longrightarrow> skipWhitespace (t @ r) \<noteq> [] \<and> hd (skipWhitespace (t @ r)) \<noteq> CHR 0x5D"
proof (erule elements_text.cases)
  fix a d' n' t' j b
  assume "t = a @ t' @ b" "blank a" "value_text fin lim d' n' t' j"
  then show ?thesis using value_after_blank [of fin lim d' n' t' j a "b @ r"] value_start [of fin lim d' n' t' j]
    by (auto dest: starts_not_blank)
next
  fix a d' n' t' j b m t'' js'
  assume "t = a @ t' @ b @ CHR '','' # t''" "blank a" "value_text fin lim d' n' t' j"
  then show ?thesis
    using value_after_blank [of fin lim d' n' t' j a "b @ CHR '','' # t'' @ r"] value_start [of fin lim d' n' t' j]
    by (auto dest: starts_not_blank)
qed

lemma string_after_blank: "string_text lim t v \<Longrightarrow> blank a \<Longrightarrow> skipWhitespace (a @ t @ r) = t @ r"
  by (auto simp: string_text_def skipWhitespace_append skipWhitespace_stop IsJsonWhitespace_def)

lemma members_first:
  "members_text fin lim d n t kvs \<Longrightarrow> skipWhitespace (t @ r) \<noteq> [] \<and> hd (skipWhitespace (t @ r)) = CHR 0x22"
proof (erule members_text.cases)
  fix a kt k b c d' n' t' j e
  assume "t = a @ kt @ b @ CHR '':'' # c @ t' @ e" "blank a" "string_text lim kt k"
  then show ?thesis using string_after_blank [of lim kt k a "b @ CHR '':'' # c @ t' @ e @ r"] string_start [of lim kt k] by auto
next
  fix a kt k b c d' n' t' j e m t'' kvs'
  assume "t = a @ kt @ b @ CHR '':'' # c @ t' @ e @ CHR '','' # t''" "blank a" "string_text lim kt k"
  then show ?thesis
    using string_after_blank [of lim kt k a "b @ CHR '':'' # c @ t' @ e @ CHR '','' # t'' @ r"] string_start [of lim kt k]
    by auto
qed

text \<open>One turn of each loop on a text of the grammar.\<close>

lemma array_turn_complete:
  assumes "parseValue fin lim (d + 1) s n = Inr (j, b @ c # r, n')" and "blank b" and "c \<in> {CHR 0x5D, CHR '',''}"
  shows "array_loop fin lim d arr s n =
    (if c = CHR 0x5D then Inr (JArray (arr @ [j]), r, n') else array_loop fin lim d (arr @ [j]) r n')"
  using assms by (auto simp: array_loop.simps [of fin lim d arr s] separator_after_blank)

lemma object_turn_complete:
  assumes "blank a" and "string_text lim kt k" and "blank b"
    and "parseValue fin lim (d + 1) s n = Inr (j, e @ c # r, n')" and "blank e" and "c \<in> {CHR 0x7D, CHR '',''}"
    and "k \<notin> fst ` set obj"
  shows "object_loop fin lim d obj (a @ kt @ b @ CHR '':'' # s) n =
    (if c = CHR 0x7D then Inr (JObject (obj @ [(k, j)]), r, n') else object_loop fin lim d (obj @ [(k, j)]) r n')"
proof -
  have "parseString lim (kt @ b @ CHR '':'' # s) = Inr (k, b @ CHR '':'' # s)" using assms(2) by (auto simp: parseString_iff)
  moreover have "obj_emplace k j obj = Some (obj @ [(k, j)])" using assms(7) by (simp add: obj_emplace_Some_iff)
  ultimately show ?thesis
    using assms string_start [OF assms(2)]
    by (auto simp: object_loop.simps [of fin lim d obj "a @ kt @ b @ CHR '':'' # s"] string_after_blank separator_after_blank
        expect_def)
qed

lemma digit_plain:
  "IsDigit c \<Longrightarrow> c \<noteq> CHR 0x7B \<and> c \<noteq> CHR 0x5B \<and> c \<noteq> CHR 0x22 \<and> c \<noteq> CHR ''t'' \<and> c \<noteq> CHR ''f'' \<and> c \<noteq> CHR ''n''"
  by (auto simp: IsDigit_def)

lemma skip_to: "blank a \<Longrightarrow> \<not> IsJsonWhitespace c \<Longrightarrow> skipWhitespace (a @ c # s) = c # s"
  by (simp add: skipWhitespace_append skipWhitespace_stop)

lemma not_blank:
  "\<not> IsJsonWhitespace CHR ''n''" "\<not> IsJsonWhitespace CHR ''t''" "\<not> IsJsonWhitespace CHR ''f''"
  "\<not> IsJsonWhitespace CHR 0x5B" "\<not> IsJsonWhitespace CHR 0x5D" "\<not> IsJsonWhitespace CHR 0x7B"
  "\<not> IsJsonWhitespace CHR 0x7D"
  by (simp_all add: IsJsonWhitespace_def)

lemma parse_complete:
  "value_text fin lim d k t j \<Longrightarrow> blank a \<Longrightarrow> follows r \<Longrightarrow> n + k \<le> lim_maximumNodes lim \<Longrightarrow>
     parseValue fin lim d (a @ t @ r) n = Inr (j, r, n + k)"
  "elements_text fin lim d k t js \<Longrightarrow> d = d' + 1 \<Longrightarrow> n + k \<le> lim_maximumNodes lim \<Longrightarrow>
     array_loop fin lim d' arr (t @ CHR 0x5D # r) n = Inr (JArray (arr @ js), r, n + k)"
  "members_text fin lim d k t kvs \<Longrightarrow> d = d' + 1 \<Longrightarrow> n + k \<le> lim_maximumNodes lim \<Longrightarrow>
     fst ` set kvs \<inter> fst ` set obj = {} \<Longrightarrow>
     object_loop fin lim d' obj (t @ CHR 0x7D # r) n = Inr (JObject (obj @ kvs), r, n + k)"
proof (induction arbitrary: a r n and d' arr r n and d' obj r n rule: value_text_elements_text_members_text.inducts)
  case (null d)
  then show ?case
    by (simp add: parseValue.simps [of fin lim d] skip_to not_blank)
next
  case (true d)
  then show ?case
    by (simp add: parseValue.simps [of fin lim d] skip_to not_blank)
next
  case (false d)
  then show ?case
    by (simp add: parseValue.simps [of fin lim d] skip_to not_blank)
next
  case (number d t)
  have "parseNumber fin (t @ r) = Inr (t, r)"
    using number follows_number [of r] by (intro parseNumber_complete) auto
  moreover have "value_text fin lim d 1 t (JNumber t)" using number by (intro value_text_elements_text_members_text.number)
  ultimately show ?case
    using number number_start [of t]
    by (auto simp: parseValue.simps [of fin lim d] value_after_blank Let_def dest: digit_plain)
next
  case (string d t v)
  have "parseString lim (t @ r) = Inr (v, r)" using string by (auto simp: parseString_iff)
  with string string_start [of lim t v] show ?case
    by (auto simp: parseValue.simps [of fin lim d] string_after_blank)
next
  case (no_elements d w)
  then show ?case
    by (simp add: parseValue.simps [of fin lim d] skip_to not_blank
        parseArray.simps expect_def)
next
  case (elements d m t js)
  have first: "elements_text fin lim (d + 1) m t js" by (rule elements)
  have "array_loop fin lim d [] (t @ CHR 0x5D # r) (n + 1) = Inr (JArray ([] @ js), r, n + 1 + m)"
    by (rule elements) (use elements.prems in simp_all)
  then have "array_loop fin lim d [] (skipWhitespace (t @ CHR 0x5D # r)) (n + 1) = Inr (JArray js, r, n + 1 + m)"
    by (simp only: loops_skip append_Nil)
  with elements elements_first [OF first, of "CHR 0x5D # r"] show ?case
    by (simp add: parseValue.simps [of fin lim d] skip_to not_blank parseArray.simps expect_def)
next
  case (no_members d w)
  then show ?case
    by (simp add: parseValue.simps [of fin lim d] skip_to not_blank
        parseObject.simps expect_def)
next
  case (members d m t kvs)
  have first: "members_text fin lim (d + 1) m t kvs" by (rule members)
  have "object_loop fin lim d [] (t @ CHR 0x7D # r) (n + 1) = Inr (JObject ([] @ kvs), r, n + 1 + m)"
    by (rule members) (use members.prems in simp_all)
  then have "object_loop fin lim d [] (skipWhitespace (t @ CHR 0x7D # r)) (n + 1) = Inr (JObject kvs, r, n + 1 + m)"
    by (simp only: loops_skip append_Nil)
  with members members_first [OF first, of "CHR 0x7D # r"] show ?case
    by (simp add: parseValue.simps [of fin lim d] skip_to not_blank parseObject.simps expect_def)
next
  case (element w d m t j b)
  have "parseValue fin lim d (w @ t @ b @ CHR 0x5D # r) n = Inr (j, b @ CHR 0x5D # r, n + m)"
    by (rule element) (use element in \<open>simp_all add: follows_blank\<close>)
  with array_turn_complete [of fin lim d' _ n j b "CHR 0x5D" r "n + m" arr] element show ?case
    by (simp del: array_loop.simps)
next
  case (more_elements w d m t j b m' t' js)
  let ?rest = "t' @ CHR 0x5D # r"
  have "parseValue fin lim d (w @ t @ b @ CHR '','' # ?rest) n = Inr (j, b @ CHR '','' # ?rest, n + m)"
    by (rule more_elements) (use more_elements in \<open>simp_all add: follows_blank\<close>)
  moreover have "array_loop fin lim d' (arr @ [j]) ?rest (n + m) = Inr (JArray ((arr @ [j]) @ js), r, n + m + m')"
    by (rule more_elements) (use more_elements.prems in simp_all)
  moreover have "blank b" by (rule more_elements)
  ultimately show ?case
    using array_turn_complete [of fin lim d' _ n j b "CHR '',''" ?rest "n + m" arr] more_elements.prems
    by (simp del: array_loop.simps add: add.assoc)
next
  case (member w kt k b c d m t j e)
  have "parseValue fin lim d (c @ t @ e @ CHR 0x7D # r) n = Inr (j, e @ CHR 0x7D # r, n + m)"
    by (rule member) (use member in \<open>simp_all add: follows_blank\<close>)
  with object_turn_complete [of w lim kt k b fin d' "c @ t @ e @ CHR 0x7D # r" n j e "CHR 0x7D" r "n + m" obj] member
  show ?case by (simp del: object_loop.simps)
next
  case (more_members w kt k b c d m t j e m' t' kvs)
  let ?rest = "t' @ CHR 0x7D # r"
  have "parseValue fin lim d (c @ t @ e @ CHR '','' # ?rest) n = Inr (j, e @ CHR '','' # ?rest, n + m)"
    by (rule more_members) (use more_members in \<open>simp_all add: follows_blank\<close>)
  moreover have "object_loop fin lim d' (obj @ [(k, j)]) ?rest (n + m) = Inr (JObject ((obj @ [(k, j)]) @ kvs), r, n + m + m')"
    by (rule more_members) (use more_members in auto)
  moreover have "blank w" "string_text lim kt k" "blank b" "blank e" "k \<notin> fst ` set obj"
    using more_members by auto
  ultimately show ?case
    using object_turn_complete [of w lim kt k b fin d' "c @ t @ e @ CHR '','' # ?rest" n j e "CHR '',''" ?rest "n + m" obj]
      more_members.prems
    by (simp del: object_loop.simps add: add.assoc)
qed

text \<open>
  C24: the parser implements the grammar. For all limits and every text it returns a value exactly when the
  limits are usable, the text is within its size and, up to blanks around it, is a text of the grammar
  for that value with at most the permitted number of values, nesting depth and string size.
\<close>

theorem json_parser_exact:
  "Parse fin lim txt = Inr j \<longleftrightarrow>
     length txt \<le> lim_maximumBytes lim \<and> 0 < lim_maximumDepth lim \<and> 0 < lim_maximumNodes lim
     \<and> 0 < lim_maximumStringBytes lim
     \<and> (\<exists>a t b n. txt = a @ t @ b \<and> blank a \<and> blank b \<and> value_text fin lim 0 n t j \<and> n \<le> lim_maximumNodes lim)"
  (is "_ \<longleftrightarrow> ?bytes \<and> ?depth \<and> ?nodes \<and> ?strings \<and> ?text")
proof (cases "?bytes \<and> ?depth \<and> ?nodes \<and> ?strings")
  case True
  have blanks: "skipWhitespace s = [] \<longleftrightarrow> blank s" for s by (simp add: skipWhitespace_def list_all_iff dropWhile_eq_Nil_conv)
  have "Parse fin lim txt = Inr j \<longleftrightarrow> (\<exists>s n. parseValue fin lim 0 txt 0 = Inr (j, s, n) \<and> blank s)"
    using True by (auto simp: Parse_def andThen_Inr_iff blanks simp del: parseValue.simps)
  also have "\<dots> \<longleftrightarrow> ?text"
  proof
    assume "\<exists>s n. parseValue fin lim 0 txt 0 = Inr (j, s, n) \<and> blank s"
    with parse_sound(1) [of fin lim 0 "txt" 0 j] show ?text by fastforce
  next
    assume ?text
    then obtain a t b n where t: "txt = a @ t @ b" "blank a" "blank b" "value_text fin lim 0 n t j" "n \<le> lim_maximumNodes lim"
      by blast
    have "follows b" using t(3) by (cases b) (simp_all add: follows_def)
    with parse_complete(1) [OF t(4,2), of b 0] t show "\<exists>s n. parseValue fin lim 0 txt 0 = Inr (j, s, n) \<and> blank s" by auto
  qed
  finally show ?thesis using True by blast
qed (auto simp: Parse_def)

end
