(* ===== verification/Step_Monad.thy ===== *)
theory Step_Monad
  imports Ecsc_Prelude "HOL-Library.State_Monad"
begin

text \<open>
  The state monad in which the methods of the daemon object are written: reading and updating a part
  of the object, running an operation of a component on its field, conditionals without an else branch
  and loops over a list. \<open>triple\<close> is partial-correctness-free: every computation here returns, so
  the postcondition holds of a result that exists. \<open>keeps\<close> is preservation of an invariant.
\<close>

section \<open>Statements\<close>

abbreviation return :: "'a \<Rightarrow> ('s, 'a) state" where
  "return \<equiv> State_Monad.return"

definition asks :: "('s \<Rightarrow> 'a) \<Rightarrow> ('s, 'a) state" where
  "asks f = State (\<lambda>s. (f s, s))"

definition modify :: "('s \<Rightarrow> 's) \<Rightarrow> ('s, unit) state" where
  "modify f = State (\<lambda>s. ((), f s))"

definition whenever :: "bool \<Rightarrow> ('s, unit) state \<Rightarrow> ('s, unit) state" where
  "whenever b m = (if b then m else return ())"

definition ignore :: "('s, 'a) state \<Rightarrow> ('s, unit) state" where
  "ignore m = do { m; return () }"

primrec for_each :: "'a list \<Rightarrow> ('a \<Rightarrow> ('s, unit) state) \<Rightarrow> ('s, unit) state" where
  "for_each [] body = return ()"
| "for_each (x # xs) body = do { body x; for_each xs body }"

lemma run_statements [simp]:
  "run_state (asks f) s = (f s, s)"
  "run_state (modify g) s = ((), g s)"
  "run_state (whenever b m) s = (if b then run_state m s else ((), s))"
  "run_state (ignore k) s = ((), snd (run_state k s))"
  by (simp_all add: asks_def modify_def whenever_def ignore_def split_beta)

section \<open>Assertions\<close>

definition triple :: "('s \<Rightarrow> bool) \<Rightarrow> ('s, 'a) state \<Rightarrow> ('a \<Rightarrow> 's \<Rightarrow> bool) \<Rightarrow> bool" where
  "triple P m Q \<longleftrightarrow> (\<forall>s. P s \<longrightarrow> Q (fst (run_state m s)) (snd (run_state m s)))"

abbreviation keeps :: "('s \<Rightarrow> bool) \<Rightarrow> ('s, 'a) state \<Rightarrow> bool" where
  "keeps I m \<equiv> triple I m (\<lambda>_. I)"

named_theorems triple_rules \<open>one rule for each statement\<close>

lemma tripleI: "(\<And>s. P s \<Longrightarrow> Q (fst (run_state m s)) (snd (run_state m s))) \<Longrightarrow> triple P m Q"
  by (simp add: triple_def)

lemma tripleD: "triple P m Q \<Longrightarrow> P s \<Longrightarrow> Q (fst (run_state m s)) (snd (run_state m s))"
  by (simp add: triple_def)

lemma triple_weaken:
  "triple P m Q \<Longrightarrow> (\<And>s. P' s \<Longrightarrow> P s) \<Longrightarrow> (\<And>r s. Q r s \<Longrightarrow> Q' r s) \<Longrightarrow> triple P' m Q'"
  by (simp add: triple_def)

lemma triple_return: "(\<And>s. P s \<Longrightarrow> Q x s) \<Longrightarrow> triple P (return x) Q"
  by (simp add: triple_def)

lemma triple_bind:
  "triple P m R \<Longrightarrow> (\<And>r. triple (R r) (f r) Q) \<Longrightarrow> triple P (m \<bind> f) Q"
  by (simp add: triple_def split_beta)

lemma triple_asks: "(\<And>s. P s \<Longrightarrow> Q (f s) s) \<Longrightarrow> triple P (asks f) Q"
  by (simp add: triple_def)

lemma triple_modify: "(\<And>s. P s \<Longrightarrow> Q () (f s)) \<Longrightarrow> triple P (modify f) Q"
  by (simp add: triple_def)

lemma triple_if:
  "(b \<Longrightarrow> triple P m Q) \<Longrightarrow> (\<not> b \<Longrightarrow> triple P n Q) \<Longrightarrow> triple P (if b then m else n) Q"
  by simp

lemma keeps_return [triple_rules]: "keeps I (return x)"
  by (simp add: triple_def)

lemma keeps_asks [triple_rules]: "keeps I (asks f)"
  by (simp add: triple_def)

lemma keeps_bind [triple_rules]: "keeps I m \<Longrightarrow> (\<And>r. keeps I (f r)) \<Longrightarrow> keeps I (m \<bind> f)"
  by (rule triple_bind)

lemma keeps_whenever [triple_rules]: "(b \<Longrightarrow> keeps I m) \<Longrightarrow> keeps I (whenever b m)"
  by (simp add: triple_def)

lemma keeps_ignore [triple_rules]: "keeps I m \<Longrightarrow> keeps I (ignore m)"
  by (simp add: triple_def)

lemma keeps_if [triple_rules]:
  "(b \<Longrightarrow> keeps I m) \<Longrightarrow> (\<not> b \<Longrightarrow> keeps I n) \<Longrightarrow> keeps I (if b then m else n)"
  by simp

lemma keeps_for_each [triple_rules]: "(\<And>x. x \<in> set xs \<Longrightarrow> keeps I (body x)) \<Longrightarrow> keeps I (for_each xs body)"
  by (induction xs) (auto intro: triple_rules)

lemma keeps_case_option [triple_rules]:
  "keeps I m \<Longrightarrow> (\<And>x. v = Some x \<Longrightarrow> keeps I (f x)) \<Longrightarrow> keeps I (case v of None \<Rightarrow> m | Some x \<Rightarrow> f x)"
  by (cases v) simp_all

text \<open>Two loop bodies that agree where an invariant holds give the same loop there.\<close>

lemma for_each_agree:
  assumes "\<And>x s. I s \<Longrightarrow> run_state (f x) s = run_state (g x) s" and "\<And>x. keeps I (g x)" and "I s"
  shows "run_state (for_each xs f) s = run_state (for_each xs g) s"
  using assms(3)
proof (induction xs arbitrary: s)
  case (Cons x xs)
  from tripleD [OF assms(2) Cons.prems] have "I (snd (run_state (g x) s))" .
  with Cons show ?case by (simp add: assms(1) split_beta)
qed simp

end
