(* ===== verification/Daemon_Config.thy ===== *)
theory Daemon_Config
  imports Mini_Json Bus_State
begin

text \<open>
  Reading the daemon configuration, \<^verbatim>\<open>LoadConfigText\<close> of \<^verbatim>\<open>main.cpp\<close>, from the parsed
  JSON document to the checked \<^verbatim>\<open>DaemonConfig\<close>. Each \<^verbatim>\<open>throw\<close> is a value of
  \<open>ConfigError\<close>. The theorem collects what every accepted configuration guarantees to the rest of
  the daemon.
\<close>

section \<open>Data\<close>

datatype ConfigError =
    JsonFault JsonError | FileUnreadable | FileTooLarge
  | RootNotObject | ContextNotObject | UnknownField | Nt4Unsupported
  | CyclePeriodRange | HeartbeatRange | OutputTimeoutRange | OutputTimeoutTooShort
  | LogDirectoryFixed | LogCountRange | FreeSpaceRange | PriorityRange | CpuRange
  | ControllerGroupInvalid | PeerIdsNotArray | PeerIdInvalid
  | MappingsMissing | TooManyBuses | MappingNotObject | LogicalNameInvalid | InterfaceNameInvalid
  | RestrictedInterface | DuplicateName | IoMapRange | ClockShiftRange
  | LockNotObject | LockFault LockError | FieldEmpty | FieldMissing | Uint32Range
  | TopologyNotArray | ExpectedNotObject | OutputBytesTooLarge

record DaemonConfig =
  cfg_interfaces :: "InterfaceConfig list"
  cfg_allowRestrictedInterfaces :: bool
  cfg_cyclePeriod :: int
  cfg_heartbeatTimeout :: int
  cfg_outputCommandTimeout :: int
  cfg_logDirectory :: string
  cfg_logCountLimit :: nat
  cfg_freeSpaceThresholdBytes :: u64
  cfg_realtime :: RealtimeConfig
  cfg_controllerUids :: "u32 list"
  cfg_controllerGids :: "u32 list"
  cfg_controllerGroup :: string

definition kDefaultLogDirectory :: string where
  "kDefaultLogDirectory = ''/var/log/ec-systemcore''"

definition kMinimumCyclePeriodUs :: int where
  "kMinimumCyclePeriodUs = 5000"

definition kMaximumCyclePeriodUs :: int where
  "kMaximumCyclePeriodUs = 1000000"

definition kMaximumBuses :: nat where
  "kMaximumBuses = 8"

definition kMaximumConfigurationBytes :: nat where
  "kMaximumConfigurationBytes = 1024 * 1024"

definition IFNAMSIZ :: nat where
  "IFNAMSIZ = 16"

definition DaemonConfig_default :: DaemonConfig where
  "DaemonConfig_default =
     \<lparr>cfg_interfaces = [], cfg_allowRestrictedInterfaces = False, cfg_cyclePeriod = 5000,
      cfg_heartbeatTimeout = 250, cfg_outputCommandTimeout = 100, cfg_logDirectory = kDefaultLogDirectory,
      cfg_logCountLimit = 10, cfg_freeSpaceThresholdBytes = 50 * 1024 * 1024,
      cfg_realtime = \<lparr>requestMemoryLock = True, requestFifo = True, fifoPriority = 55, cpuAffinity = None\<rparr>,
      cfg_controllerUids = [0], cfg_controllerGids = [], cfg_controllerGroup = ''ec-systemcore-controller''\<rparr>"

section \<open>Small helpers\<close>

definition MonotonicMicros :: "timespec option \<Rightarrow> u64" where
  "MonotonicMicros now =
     (case now of
        None \<Rightarrow> 0
      | Some t \<Rightarrow> if tv_sec t < 0 \<or> tv_nsec t < 0 then 0
                  else word_of_int (tv_sec t) * 1000000 + word_of_int (tv_nsec t sdiv 1000))"

text \<open>The random value when the kernel delivers all eight bytes, otherwise a mix of boot time, process and address.\<close>

definition InitialEpoch :: "u64 option \<Rightarrow> timespec \<Rightarrow> u64 \<Rightarrow> u64 \<Rightarrow> u64" where
  "InitialEpoch random bootTime pid addr =
     (let randomValue =
            (case random of
               Some v \<Rightarrow> v
             | None \<Rightarrow> push_bit 32 (word_of_int (tv_sec bootTime)) XOR word_of_int (tv_nsec bootTime)
                        XOR push_bit 16 pid XOR addr)
      in if randomValue = 0 then 1 else randomValue)"

definition name_char :: "char \<Rightarrow> bool" where
  "name_char c \<longleftrightarrow> isalnum c \<or> c = CHR ''_'' \<or> c = CHR ''-''"

definition IsValidLogicalName :: "string \<Rightarrow> bool" where
  "IsValidLogicalName name \<longleftrightarrow> name \<noteq> [] \<and> length name \<le> 32 \<and> list_all name_char name"

definition IsValidInterfaceName :: "string \<Rightarrow> bool" where
  "IsValidInterfaceName name \<longleftrightarrow>
     name \<noteq> [] \<and> length name < IFNAMSIZ
     \<and> list_all (\<lambda>c. name_char c \<or> c = CHR ''.'' \<or> c = CHR '':'') name"

definition IsRestrictedInterface :: "string \<Rightarrow> bool" where
  "IsRestrictedInterface name \<longleftrightarrow> name = ''eth0'' \<or> name = ''wlan0'' \<or> name = ''usb0''"

fun read_blocks :: "nat \<Rightarrow> string \<Rightarrow> string list \<Rightarrow> ConfigError + string" where
  "read_blocks maximumBytes result [] = Inr result"
| "read_blocks maximumBytes result (block # blocks) =
     (if block = [] then Inr result
      else if length block > maximumBytes - min (length result) maximumBytes then Inl FileTooLarge
      else read_blocks maximumBytes (result @ block) blocks)"

text \<open>A file as the blocks its stream delivers: none when it cannot be opened; the flag tells a read failure.\<close>

definition ReadBoundedFile :: "(string list \<times> bool) option \<Rightarrow> nat \<Rightarrow> ConfigError + string" where
  "ReadBoundedFile stream maximumBytes =
     (case stream of
        None \<Rightarrow> Inl FileUnreadable
      | Some (blocks, failed) \<Rightarrow>
          andThen (read_blocks maximumBytes [] blocks) (\<lambda>result. if failed then Inl FileUnreadable else Inr result))"

section \<open>Access to fields\<close>

definition ensure :: "bool \<Rightarrow> 'e \<Rightarrow> 'e + unit" where
  "ensure b e = (if b then Inr () else Inl e)"

definition lift :: "JsonError + 'a \<Rightarrow> ConfigError + 'a" where
  "lift r = (case r of Inl e \<Rightarrow> Inl (JsonFault e) | Inr x \<Rightarrow> Inr x)"

definition CheckedUint32 :: "Json \<Rightarrow> string \<Rightarrow> u32 option \<Rightarrow> ConfigError + u32" where
  "CheckedUint32 object key fallback =
     (case json_find key object of
        None \<Rightarrow> (case fallback of Some v \<Rightarrow> Inr v | None \<Rightarrow> Inl FieldMissing)
      | Some _ \<Rightarrow>
          andThen (lift (integerValue key 0 object)) (\<lambda>integer.
            if integer < 0 \<or> integer > 2 ^ 32 - 1 then Inl Uint32Range else Inr (word_of_int integer)))"

definition RejectUnknownKeys :: "Json \<Rightarrow> string list \<Rightarrow> ConfigError + unit" where
  "RejectUnknownKeys object accepted =
     (case object of
        JObject members \<Rightarrow> ensure (list_all (\<lambda>(key, v). key \<in> set accepted) members) UnknownField
      | _ \<Rightarrow> Inl ContextNotObject)"

definition OptionalString :: "Json \<Rightarrow> string \<Rightarrow> ConfigError + string option" where
  "OptionalString object key =
     (case json_find key object of
        None \<Rightarrow> Inr None
      | Some (JString v) \<Rightarrow> if v = [] then Inl FieldEmpty else Inr (Some v)
      | Some other \<Rightarrow> Inl (JsonFault FieldNotString))"

section \<open>Interface mappings\<close>

definition parse_lock :: "Json \<Rightarrow> ConfigError + AdapterIdentityLock" where
  "parse_lock lock =
     andThen (case lock of JObject _ \<Rightarrow> Inr () | _ \<Rightarrow> Inl LockNotObject) (\<lambda>_.
     andThen (RejectUnknownKeys lock [''id_path'', ''permanent_mac'', ''usb_serial'', ''usb_vendor_id'',
                                      ''usb_product_id'']) (\<lambda>_.
     andThen (lift (stringValue ''id_path'' [] lock)) (\<lambda>idPath.
     andThen (OptionalString lock ''permanent_mac'') (\<lambda>mac.
     andThen (OptionalString lock ''usb_serial'') (\<lambda>serial.
     andThen (OptionalString lock ''usb_vendor_id'') (\<lambda>vendor.
     andThen (OptionalString lock ''usb_product_id'') (\<lambda>product.
       let parsed = \<lparr>lock_idPath = idPath, lock_permanentMac = mac, lock_usbSerial = serial,
                     lock_usbVendorId = vendor, lock_usbProductId = product\<rparr>
       in case ValidateAdapterLock parsed of
            Some e \<Rightarrow> Inl (LockFault e)
          | None \<Rightarrow> Inr (parsed\<lparr>lock_permanentMac := Option.bind mac NormalizeMac,
                                lock_usbVendorId := Option.bind vendor NormalizeUsbId,
                                lock_usbProductId := Option.bind product NormalizeUsbId\<rparr>))))))))"

definition optional_uint32 :: "Json \<Rightarrow> string \<Rightarrow> ConfigError + u32 option" where
  "optional_uint32 object key =
     (if json_find key object = None then Inr None
      else andThen (CheckedUint32 object key None) (\<lambda>v. Inr (Some v)))"

definition parse_expected :: "Json \<Rightarrow> ConfigError + ExpectedSubDevice" where
  "parse_expected expected =
     andThen (case expected of JObject _ \<Rightarrow> Inr () | _ \<Rightarrow> Inl ExpectedNotObject) (\<lambda>_.
     andThen (RejectUnknownKeys expected [''vendor_id'', ''product_code'', ''revision'', ''output_bytes'',
                                          ''input_bytes'']) (\<lambda>_.
     andThen (CheckedUint32 expected ''vendor_id'' None) (\<lambda>vendorId.
     andThen (CheckedUint32 expected ''product_code'' None) (\<lambda>productCode.
     andThen (optional_uint32 expected ''revision'') (\<lambda>revision.
     andThen (optional_uint32 expected ''output_bytes'') (\<lambda>outputBytes.
     andThen (ensure (case outputBytes of None \<Rightarrow> True | Some v \<Rightarrow> unat v \<le> kMaximumOutputWrite) OutputBytesTooLarge) (\<lambda>_.
     andThen (optional_uint32 expected ''input_bytes'') (\<lambda>inputBytes.
       Inr \<lparr>exp_vendorId = vendorId, exp_productCode = productCode, exp_revision = revision,
            exp_outputBytes = outputBytes, exp_inputBytes = inputBytes\<rparr>))))))))"

fun parse_all :: "('a \<Rightarrow> 'e + 'b) \<Rightarrow> 'a list \<Rightarrow> 'e + 'b list" where
  "parse_all f [] = Inr []"
| "parse_all f (x # xs) = andThen (f x) (\<lambda>y. andThen (parse_all f xs) (\<lambda>ys. Inr (y # ys)))"

definition parse_topology :: "Json \<Rightarrow> ConfigError + ExpectedSubDevice list" where
  "parse_topology entry =
     (case json_find ''expected_subdevices'' entry of
        None \<Rightarrow> Inr []
      | Some (JArray values) \<Rightarrow>
          if length values \<ge> EC_MAXSLAVE then Inl TopologyNotArray else parse_all parse_expected values
      | Some other \<Rightarrow> Inl TopologyNotArray)"

definition parse_interface ::
  "bool \<Rightarrow> string list \<Rightarrow> string list \<Rightarrow> Json \<Rightarrow> ConfigError + InterfaceConfig" where
  "parse_interface allowRestricted logicalNames physicalNames entry =
     andThen (case entry of JObject _ \<Rightarrow> Inr () | _ \<Rightarrow> Inl MappingNotObject) (\<lambda>_.
     andThen (RejectUnknownKeys entry [''logical_name'', ''physical_interface'', ''enabled'', ''maximum_io_map_bytes'',
        ''distributed_clock'', ''distributed_clock_shift_ns'', ''allow_unverified_topology'', ''lock'',
        ''expected_subdevices'']) (\<lambda>_.
     andThen (lift (stringValue ''logical_name'' [] entry)) (\<lambda>logicalName.
     andThen (lift (stringValue ''physical_interface'' [] entry)) (\<lambda>physicalInterface.
     andThen (lift (boolValue ''enabled'' True entry)) (\<lambda>enabled.
     andThen (ensure (IsValidLogicalName logicalName) LogicalNameInvalid) (\<lambda>_.
     andThen (ensure (IsValidInterfaceName physicalInterface) InterfaceNameInvalid) (\<lambda>_.
     andThen (ensure (allowRestricted \<or> \<not> IsRestrictedInterface physicalInterface) RestrictedInterface) (\<lambda>_.
     andThen (ensure (logicalName \<notin> set logicalNames \<and> physicalInterface \<notin> set physicalNames) DuplicateName) (\<lambda>_.
     andThen (lift (integerValue ''maximum_io_map_bytes'' (256 * 1024) entry)) (\<lambda>ioMapLimit.
     andThen (ensure (1024 \<le> ioMapLimit \<and> ioMapLimit \<le> int kMaximumPdoImage) IoMapRange) (\<lambda>_.
     andThen (lift (boolValue ''distributed_clock'' False entry)) (\<lambda>distributedClock.
     andThen (lift (boolValue ''allow_unverified_topology'' False entry)) (\<lambda>allowUnverified.
     andThen (lift (integerValue ''distributed_clock_shift_ns'' 0 entry)) (\<lambda>dcShift.
     andThen (ensure (- (2 ^ 31) \<le> dcShift \<and> dcShift \<le> 2 ^ 31 - 1) ClockShiftRange) (\<lambda>_.
     andThen (case json_find ''lock'' entry of
                None \<Rightarrow> Inr None
              | Some lock \<Rightarrow> andThen (parse_lock lock) (\<lambda>parsed. Inr (Some parsed))) (\<lambda>lock.
     andThen (parse_topology entry) (\<lambda>expected.
       Inr \<lparr>if_logicalName = logicalName, if_physicalInterface = physicalInterface, if_enabled = enabled,
            if_lock = lock, if_expectedSubDevices = expected, if_maximumIoMapBytes = nat ioMapLimit,
            if_distributedClock = distributedClock, if_distributedClockShiftNs = dcShift,
            if_allowUnverifiedTopology = allowUnverified\<rparr>)))))))))))))))))"

text \<open>The loop over the mappings; disabled ones take part in the uniqueness check and are left out.\<close>

fun parse_interfaces ::
  "bool \<Rightarrow> string list \<Rightarrow> string list \<Rightarrow> Json list \<Rightarrow> ConfigError + InterfaceConfig list" where
  "parse_interfaces allowRestricted logicalNames physicalNames [] = Inr []"
| "parse_interfaces allowRestricted logicalNames physicalNames (entry # entries) =
     andThen (parse_interface allowRestricted logicalNames physicalNames entry) (\<lambda>interface.
     andThen (parse_interfaces allowRestricted (if_logicalName interface # logicalNames)
                (if_physicalInterface interface # physicalNames) entries) (\<lambda>interfaces.
       Inr (if if_enabled interface then interface # interfaces else interfaces)))"

section \<open>The configuration\<close>

definition parse_timing :: "Json \<Rightarrow> ConfigError + (int \<times> int \<times> int)" where
  "parse_timing root =
     andThen (lift (integerValue ''cycle_period_us'' kMinimumCyclePeriodUs root)) (\<lambda>cyclePeriod.
     andThen (ensure (kMinimumCyclePeriodUs \<le> cyclePeriod \<and> cyclePeriod \<le> kMaximumCyclePeriodUs) CyclePeriodRange) (\<lambda>_.
     andThen (lift (integerValue ''heartbeat_timeout_ms'' 250 root)) (\<lambda>heartbeat.
     andThen (ensure (100 \<le> heartbeat \<and> heartbeat \<le> 5000) HeartbeatRange) (\<lambda>_.
     andThen (lift (integerValue ''output_command_timeout_ms'' 100 root)) (\<lambda>outputCommandTimeout.
     andThen (ensure (20 \<le> outputCommandTimeout \<and> outputCommandTimeout \<le> heartbeat) OutputTimeoutRange) (\<lambda>_.
     andThen (ensure (\<not> outputCommandTimeout * 1000 < cyclePeriod * 2) OutputTimeoutTooShort) (\<lambda>_.
       Inr (cyclePeriod, heartbeat, outputCommandTimeout))))))))"

definition parse_log :: "Json \<Rightarrow> ConfigError + (string \<times> nat \<times> u64)" where
  "parse_log root =
     andThen (lift (stringValue ''log_directory'' kDefaultLogDirectory root)) (\<lambda>logDirectory.
     andThen (ensure (logDirectory = kDefaultLogDirectory) LogDirectoryFixed) (\<lambda>_.
     andThen (lift (integerValue ''log_count_limit'' 10 root)) (\<lambda>logCount.
     andThen (ensure (1 \<le> logCount \<and> logCount \<le> 1000) LogCountRange) (\<lambda>_.
     andThen (lift (integerValue ''free_space_threshold_mb'' 50 root)) (\<lambda>freeMegabytes.
     andThen (ensure (0 \<le> freeMegabytes \<and> freeMegabytes \<le> 1024 * 1024) FreeSpaceRange) (\<lambda>_.
       Inr (logDirectory, nat logCount, word_of_int freeMegabytes * 1024 * 1024)))))))"

definition parse_realtime :: "Json \<Rightarrow> ConfigError + RealtimeConfig" where
  "parse_realtime root =
     andThen (lift (boolValue ''realtime_memory_lock'' True root)) (\<lambda>memoryLock.
     andThen (lift (boolValue ''realtime_fifo'' True root)) (\<lambda>fifo.
     andThen (lift (integerValue ''realtime_priority'' 55 root)) (\<lambda>priority.
     andThen (ensure (- (2 ^ 31) \<le> priority \<and> priority \<le> 2 ^ 31 - 1) PriorityRange) (\<lambda>_.
     andThen (if json_find ''realtime_cpu'' root = None then Inr None
              else andThen (lift (integerValue ''realtime_cpu'' 0 root)) (\<lambda>cpu.
                     andThen (ensure (0 \<le> cpu \<and> cpu \<le> 2 ^ 32 - 1) CpuRange) (\<lambda>_. Inr (Some (word_of_int cpu))))) (\<lambda>cpu.
       Inr \<lparr>requestMemoryLock = memoryLock, requestFifo = fifo, fifoPriority = priority, cpuAffinity = cpu\<rparr>)))))"

definition parse_group :: "Json \<Rightarrow> ConfigError + string" where
  "parse_group root =
     andThen (lift (stringValue ''controller_group'' ''ec-systemcore-controller'' root)) (\<lambda>group.
     andThen (ensure (group \<noteq> [] \<and> length group \<le> 255 \<and> list_all name_char group) ControllerGroupInvalid) (\<lambda>_.
       Inr group))"

definition parse_peer_id :: "Json \<Rightarrow> ConfigError + u32" where
  "parse_peer_id v =
     andThen (lift (json_integer v)) (\<lambda>integer.
       if integer < 0 \<or> integer > 2 ^ 32 - 1 then Inl PeerIdInvalid else Inr (word_of_int integer))"

definition parsePeerIds :: "Json \<Rightarrow> string \<Rightarrow> u32 list \<Rightarrow> ConfigError + u32 list" where
  "parsePeerIds root key destination =
     (case json_find key root of
        None \<Rightarrow> Inr destination
      | Some (JArray values) \<Rightarrow>
          if length values > 64 then Inl PeerIdsNotArray
          else andThen (parse_all parse_peer_id values) (\<lambda>ids. Inr (remdups_adj (sort (destination @ ids))))
      | Some other \<Rightarrow> Inl PeerIdsNotArray)"

definition config_limits :: Limits where
  "config_limits = \<lparr>lim_maximumBytes = kMaximumConfigurationBytes, lim_maximumDepth = 32, lim_maximumNodes = 8192,
                    lim_maximumStringBytes = 4096\<rparr>"

definition LoadConfigRoot :: "Json \<Rightarrow> ConfigError + DaemonConfig" where
  "LoadConfigRoot root =
     andThen (case root of JObject _ \<Rightarrow> Inr () | _ \<Rightarrow> Inl RootNotObject) (\<lambda>_.
     andThen (RejectUnknownKeys root [''allow_restricted_interfaces'', ''cycle_period_us'', ''heartbeat_timeout_ms'',
        ''output_command_timeout_ms'', ''log_directory'', ''log_count_limit'', ''free_space_threshold_mb'',
        ''realtime_memory_lock'', ''realtime_fifo'', ''realtime_priority'', ''realtime_cpu'', ''controller_group'',
        ''controller_uids'', ''controller_gids'', ''interface_mappings'', ''nt4_server'', ''nt4_team'']) (\<lambda>_.
     andThen (ensure (json_find ''nt4_server'' root = None \<and> json_find ''nt4_team'' root = None) Nt4Unsupported) (\<lambda>_.
     andThen (lift (boolValue ''allow_restricted_interfaces'' False root)) (\<lambda>allowRestricted.
     andThen (parse_timing root) (\<lambda>(cyclePeriod, heartbeat, outputCommandTimeout).
     andThen (parse_log root) (\<lambda>(logDirectory, logCount, freeSpace).
     andThen (parse_realtime root) (\<lambda>realtime.
     andThen (parse_group root) (\<lambda>group.
     andThen (parsePeerIds root ''controller_uids'' (cfg_controllerUids DaemonConfig_default)) (\<lambda>uids.
     andThen (parsePeerIds root ''controller_gids'' (cfg_controllerGids DaemonConfig_default)) (\<lambda>gids.
     andThen (case json_find ''interface_mappings'' root of
                Some (JArray entries) \<Rightarrow> if length entries > kMaximumBuses then Inl TooManyBuses else Inr entries
              | _ \<Rightarrow> Inl MappingsMissing) (\<lambda>entries.
     andThen (parse_interfaces allowRestricted [] [] entries) (\<lambda>interfaces.
       Inr \<lparr>cfg_interfaces = interfaces, cfg_allowRestrictedInterfaces = allowRestricted,
            cfg_cyclePeriod = cyclePeriod, cfg_heartbeatTimeout = heartbeat,
            cfg_outputCommandTimeout = outputCommandTimeout, cfg_logDirectory = logDirectory,
            cfg_logCountLimit = logCount, cfg_freeSpaceThresholdBytes = freeSpace, cfg_realtime = realtime,
            cfg_controllerUids = uids, cfg_controllerGids = gids, cfg_controllerGroup = group\<rparr>))))))))))))"

definition LoadConfigText :: "(string \<Rightarrow> bool) \<Rightarrow> string \<Rightarrow> ConfigError + DaemonConfig" where
  "LoadConfigText finite_number txt = andThen (lift (Parse finite_number config_limits txt)) LoadConfigRoot"

definition LoadConfig ::
  "(string \<Rightarrow> bool) \<Rightarrow> (string list \<times> bool) option \<Rightarrow> ConfigError + (DaemonConfig \<times> string)" where
  "LoadConfig finite_number stream =
     andThen (ReadBoundedFile stream kMaximumConfigurationBytes) (\<lambda>sourceText.
     andThen (LoadConfigText finite_number sourceText) (\<lambda>config. Inr (config, sourceText)))"

section \<open>What an accepted configuration guarantees\<close>

lemma andThen_InrE: "andThen m f = Inr y \<Longrightarrow> (\<And>x. m = Inr x \<Longrightarrow> f x = Inr y \<Longrightarrow> P) \<Longrightarrow> P"
  by (auto simp: andThen_Inr_iff)

lemma ensure_Inr_iff [simp]: "ensure b e = Inr u \<longleftrightarrow> b"
  by (simp add: ensure_def)

definition lock_ok :: "AdapterIdentityLock \<Rightarrow> bool" where
  "lock_ok l \<longleftrightarrow> ValidateAdapterLock l = None
     \<and> Option.bind (lock_permanentMac l) NormalizeMac = lock_permanentMac l
     \<and> Option.bind (lock_usbVendorId l) NormalizeUsbId = lock_usbVendorId l
     \<and> Option.bind (lock_usbProductId l) NormalizeUsbId = lock_usbProductId l"

definition interface_ok :: "bool \<Rightarrow> InterfaceConfig \<Rightarrow> bool" where
  "interface_ok allowRestricted i \<longleftrightarrow>
     IsValidLogicalName (if_logicalName i) \<and> IsValidInterfaceName (if_physicalInterface i)
     \<and> (allowRestricted \<or> \<not> IsRestrictedInterface (if_physicalInterface i))
     \<and> 1024 \<le> if_maximumIoMapBytes i \<and> if_maximumIoMapBytes i \<le> kMaximumPdoImage
     \<and> - (2 ^ 31) \<le> if_distributedClockShiftNs i \<and> if_distributedClockShiftNs i < 2 ^ 31
     \<and> pred_option lock_ok (if_lock i)
     \<and> length (if_expectedSubDevices i) < EC_MAXSLAVE
     \<and> list_all (\<lambda>e. pred_option (\<lambda>n. unat n \<le> kMaximumOutputWrite) (exp_outputBytes e)) (if_expectedSubDevices i)"

definition config_ok :: "DaemonConfig \<Rightarrow> bool" where
  "config_ok cfg \<longleftrightarrow>
     5000 \<le> cfg_cyclePeriod cfg \<and> cfg_cyclePeriod cfg \<le> 1000000
     \<and> 100 \<le> cfg_heartbeatTimeout cfg \<and> cfg_heartbeatTimeout cfg \<le> 5000
     \<and> 20 \<le> cfg_outputCommandTimeout cfg \<and> cfg_outputCommandTimeout cfg \<le> cfg_heartbeatTimeout cfg
     \<and> 2 * cfg_cyclePeriod cfg \<le> 1000 * cfg_outputCommandTimeout cfg
     \<and> cfg_logDirectory cfg = kDefaultLogDirectory
     \<and> 1 \<le> cfg_logCountLimit cfg \<and> cfg_logCountLimit cfg \<le> 1000
     \<and> cfg_freeSpaceThresholdBytes cfg \<le> 2 ^ 40
     \<and> cfg_controllerGroup cfg \<noteq> [] \<and> length (cfg_controllerGroup cfg) \<le> 255
     \<and> list_all name_char (cfg_controllerGroup cfg)
     \<and> 0 \<in> set (cfg_controllerUids cfg) \<and> sorted (cfg_controllerUids cfg) \<and> distinct (cfg_controllerUids cfg)
     \<and> sorted (cfg_controllerGids cfg) \<and> distinct (cfg_controllerGids cfg)
     \<and> length (cfg_interfaces cfg) \<le> kMaximumBuses
     \<and> list_all (interface_ok (cfg_allowRestrictedInterfaces cfg)) (cfg_interfaces cfg)
     \<and> list_all if_enabled (cfg_interfaces cfg)
     \<and> distinct (map if_logicalName (cfg_interfaces cfg)) \<and> distinct (map if_physicalInterface (cfg_interfaces cfg))"

lemma bind_normal:
  assumes "\<And>s t. canon s = Some t \<Longrightarrow> canon t = Some t"
    and "\<not> (case v of None \<Rightarrow> False | Some s \<Rightarrow> canon s = None)"
  shows "Option.bind (Option.bind v canon) canon = Option.bind v canon"
    and "\<not> (case Option.bind v canon of None \<Rightarrow> False | Some s \<Rightarrow> canon s = None)"
  using assms by (cases v; auto)+

lemma parse_lock_ok: "parse_lock j = Inr l \<Longrightarrow> lock_ok l"
proof -
  assume "parse_lock j = Inr l"
  then obtain parsed where ok: "ValidateAdapterLock parsed = None"
    and l: "l = parsed\<lparr>lock_permanentMac := Option.bind (lock_permanentMac parsed) NormalizeMac,
                       lock_usbVendorId := Option.bind (lock_usbVendorId parsed) NormalizeUsbId,
                       lock_usbProductId := Option.bind (lock_usbProductId parsed) NormalizeUsbId\<rparr>"
    unfolding parse_lock_def by (elim andThen_InrE) (auto simp: Let_def split: option.split_asm)
  from ok have parts: "\<not> (case lock_permanentMac parsed of None \<Rightarrow> False | Some mac \<Rightarrow> NormalizeMac mac = None)"
    "\<not> (case lock_usbVendorId parsed of None \<Rightarrow> False | Some v \<Rightarrow> NormalizeUsbId v = None)"
    "\<not> (case lock_usbProductId parsed of None \<Rightarrow> False | Some v \<Rightarrow> NormalizeUsbId v = None)"
    by (auto simp: ValidateAdapterLock_def split: if_split_asm)
  show ?thesis
    using ok bind_normal [OF NormalizeMac_idem parts(1)] bind_normal [OF NormalizeUsbId_idem parts(2)]
      bind_normal [OF NormalizeUsbId_idem parts(3)]
    unfolding lock_ok_def l by (simp add: ValidateAdapterLock_def split: if_split_asm)
qed

lemma parse_all_Inr: "parse_all f xs = Inr ys \<Longrightarrow> length ys = length xs \<and> (\<forall>y \<in> set ys. \<exists>x. f x = Inr y)"
  by (induction xs arbitrary: ys) (auto elim!: andThen_InrE)

lemma parse_expected_ok: "parse_expected j = Inr e \<Longrightarrow> pred_option (\<lambda>n. unat n \<le> kMaximumOutputWrite) (exp_outputBytes e)"
  unfolding parse_expected_def by (elim andThen_InrE) (auto split: option.split_asm)

lemma parse_topology_ok:
  "parse_topology entry = Inr es \<Longrightarrow> length es < EC_MAXSLAVE
     \<and> list_all (\<lambda>e. pred_option (\<lambda>n. unat n \<le> kMaximumOutputWrite) (exp_outputBytes e)) es"
  by (auto simp: parse_topology_def EC_MAXSLAVE_def list_all_iff dest!: parse_all_Inr dest: parse_expected_ok
      split: option.split_asm Json.split_asm if_split_asm)

lemma parse_interface_ok:
  assumes "parse_interface allow logicalNames physicalNames entry = Inr i"
  shows "interface_ok allow i \<and> if_logicalName i \<notin> set logicalNames \<and> if_physicalInterface i \<notin> set physicalNames"
  using assms unfolding parse_interface_def
  by (elim andThen_InrE)
    (auto simp: interface_ok_def andThen_Inr_iff dest: parse_topology_ok parse_lock_ok split: option.split_asm)

lemma parse_interfaces_ok:
  assumes "parse_interfaces allow logicalNames physicalNames entries = Inr is"
  shows "length is \<le> length entries \<and> list_all (interface_ok allow) is \<and> list_all if_enabled is
    \<and> distinct (map if_logicalName is) \<and> distinct (map if_physicalInterface is)
    \<and> if_logicalName ` set is \<inter> set logicalNames = {} \<and> if_physicalInterface ` set is \<inter> set physicalNames = {}"
  using assms
proof (induction entries arbitrary: logicalNames physicalNames "is")
  case (Cons entry entries)
  from Cons.prems obtain i rest where
    one: "parse_interface allow logicalNames physicalNames entry = Inr i"
    and rest: "parse_interfaces allow (if_logicalName i # logicalNames) (if_physicalInterface i # physicalNames) entries = Inr rest"
    and "is": "is = (if if_enabled i then i # rest else rest)"
    by (auto elim!: andThen_InrE)
  show ?case using Cons.IH [OF rest] parse_interface_ok [OF one] "is" by auto
qed simp

lemma distinct_remdups_adj: "sorted xs \<Longrightarrow> distinct (remdups_adj xs)" for xs :: "'a::linorder list"
  by (induction xs rule: remdups_adj.induct) (auto simp: order.antisym)

lemma parsePeerIds_ok:
  assumes "parsePeerIds root key ids = Inr ids'" and "sorted ids" and "distinct ids"
  shows "sorted ids' \<and> distinct ids' \<and> set ids \<subseteq> set ids'"
  using assms
  by (auto simp: parsePeerIds_def sorted_remdups_adj distinct_remdups_adj elim!: andThen_InrE
      split: option.split_asm Json.split_asm if_split_asm)

lemma parse_timing_ok:
  "parse_timing root = Inr (cyc, hb, oct) \<Longrightarrow>
     5000 \<le> cyc \<and> cyc \<le> 1000000 \<and> 100 \<le> hb \<and> hb \<le> 5000 \<and> 20 \<le> oct \<and> oct \<le> hb \<and> 2 * cyc \<le> 1000 * oct"
  unfolding parse_timing_def by (elim andThen_InrE) (auto simp: kMinimumCyclePeriodUs_def kMaximumCyclePeriodUs_def)

lemma free_space_bound:
  assumes "0 \<le> mb" and "mb \<le> 1048576"
  shows "word_of_int mb * 1024 * 1024 \<le> (2 ^ 40 :: u64)"
proof -
  have "word_of_int mb * 1024 * 1024 = (word_of_int (mb * 1048576) :: u64)" by simp
  moreover have "uint (word_of_int (mb * 1048576) :: u64) = mb * 1048576"
    unfolding uint_word_of_int_eq using assms by (intro take_bit_int_eq_self) simp_all
  ultimately show ?thesis using assms by (simp add: word_le_def mult.commute)
qed

lemma parse_log_ok:
  "parse_log root = Inr (dir, n, space) \<Longrightarrow> dir = kDefaultLogDirectory \<and> 1 \<le> n \<and> n \<le> 1000 \<and> space \<le> 2 ^ 40"
  unfolding parse_log_def by (elim andThen_InrE) (use free_space_bound in auto)

lemma parse_group_ok: "parse_group root = Inr g \<Longrightarrow> g \<noteq> [] \<and> length g \<le> 255 \<and> list_all name_char g"
  unfolding parse_group_def by (elim andThen_InrE) auto

lemmas default_peer_ids =
  parsePeerIds_ok [of _ _ "[0]", simplified] parsePeerIds_ok [of _ _ "[]", simplified]

lemma LoadConfigRoot_ok:
  assumes "LoadConfigRoot root = Inr cfg"
  shows "config_ok cfg"
proof -
  from assms obtain entries where
    parts: "parse_timing root = Inr (cfg_cyclePeriod cfg, cfg_heartbeatTimeout cfg, cfg_outputCommandTimeout cfg)"
      "parse_log root = Inr (cfg_logDirectory cfg, cfg_logCountLimit cfg, cfg_freeSpaceThresholdBytes cfg)"
      "parse_group root = Inr (cfg_controllerGroup cfg)"
      "parsePeerIds root ''controller_uids'' [0] = Inr (cfg_controllerUids cfg)"
      "parsePeerIds root ''controller_gids'' [] = Inr (cfg_controllerGids cfg)"
      "parse_interfaces (cfg_allowRestrictedInterfaces cfg) [] [] entries = Inr (cfg_interfaces cfg)"
      "length entries \<le> kMaximumBuses"
    unfolding LoadConfigRoot_def DaemonConfig_default_def
    by (elim andThen_InrE) (auto elim!: andThen_InrE split: option.split_asm Json.split_asm if_split_asm)
  show ?thesis
    using parse_timing_ok [OF parts(1)] parse_log_ok [OF parts(2)] parse_group_ok [OF parts(3)]
      default_peer_ids(1) [OF parts(4)] default_peer_ids(2) [OF parts(5)] parse_interfaces_ok [OF parts(6)] parts(7)
    by (simp add: config_ok_def)
qed


definition example_config_text :: string where
  "example_config_text = ''{ \"interface_mappings\" :[{\"logical_name\":\"b\",\"physical_interface\":\"eth1\"}]}''"

definition example_root :: Json where
  "example_root = JObject [(''interface_mappings'', JArray [JObject
     [(''logical_name'', JString ''b''), (''physical_interface'', JString ''eth1'')]])]"

text \<open>Evaluation by rewriting: a continuation is looked at only once the result before it is known.\<close>

lemma andThen_weak_cong: "m = m' \<Longrightarrow> andThen m f = andThen m' f"
  by simp

lemma example_parsed: "Parse (\<lambda>_. True) config_limits example_config_text = Inr example_root"
  by (simp add: Parse_def example_config_text_def config_limits_def kMaximumConfigurationBytes_def example_root_def
      skipWhitespace_def IsJsonWhitespace_def IsDigit_def parseString_def expect_def appendByte_def string_bytes_def
      obj_emplace_def obj_find_def Let_def cong: andThen_weak_cong)

lemma map_sum_InrE: "map_sum id f m = Inr y \<Longrightarrow> (\<And>x. m = Inr x \<Longrightarrow> f x = y \<Longrightarrow> P) \<Longrightarrow> P"
  by (cases m) simp_all


end
