(* ===== verification/Daemon_State.thy ===== *)
theory Daemon_State
  imports Complex_Main Step_Monad Daemon_Config Frame_Decoder Safety_Gate Bus_Run
begin

text \<open>
  The object \<^verbatim>\<open>Daemon\<close> of \<^verbatim>\<open>main.cpp\<close> and the part of its methods that
  everything else calls: propagation of the safety state to the buses, the output queues of the
  clients, closing a client and the broadcast of a disable message. A client is named by its position
  in the vector of clients. The two clocks are sequences of readings, consumed one by one; a rate of
  type \<^verbatim>\<open>double\<close> is a rational number, so its rounding is not modelled, and neither is
  the failure of an allocation.
\<close>

section \<open>Data\<close>

definition kMaximumClients :: nat where
  "kMaximumClients = 16"

definition kMaximumClientOutputBytes :: nat where
  "kMaximumClientOutputBytes = 2 * 1024 * 1024"

definition CapabilityOutputs :: u32 where
  "CapabilityOutputs = push_bit 0 1"

definition CapabilityInputs :: u32 where
  "CapabilityInputs = push_bit 1 1"

definition CapabilityAdapterIdentity :: u32 where
  "CapabilityAdapterIdentity = push_bit 2 1"

definition CapabilityDistributedClock :: u32 where
  "CapabilityDistributedClock = push_bit 3 1"

definition kCapabilities :: u32 where
  "kCapabilities = CapabilityOutputs OR CapabilityInputs OR CapabilityAdapterIdentity OR
     CapabilityDistributedClock"

record InputPublicationAccumulator =
  pub_epoch :: u64
  pub_cycleSequence :: u64
  pub_expectedChunks :: u16
  pub_nextChunk :: u16
  pub_totalBytes :: nat
  pub_frames :: "bytes list"

definition publication_Reset :: InputPublicationAccumulator where
  "publication_Reset =
     \<lparr>pub_epoch = 0, pub_cycleSequence = 0, pub_expectedChunks = 0, pub_nextChunk = 0, pub_totalBytes = 0,
      pub_frames = []\<rparr>"

record AdapterRuntime =
  ar_resolution :: AdapterResolution
  ar_runtimeUnlocked :: bool
  ar_workerStarted :: bool
  ar_boundInterface :: string
  ar_boundIdPath :: string
  ar_observedFaultSequence :: u64

record ClientConnection =
  cl_descriptor :: int
  cl_id :: u64
  cl_pid :: u32
  cl_uid :: u32
  cl_gid :: u32
  cl_peerGroups :: "u32 list"
  cl_helloReceived :: bool
  cl_role :: ClientRole
  cl_subscribeInputs :: bool
  cl_inputPeriodMs :: u16
  cl_lastInputSequence :: "u64 list"
  cl_selectedInputSequence :: "u64 list"
  cl_nextInputPublication :: "int list"
  cl_decoder :: FrameDecoder
  cl_outgoing :: "bytes list"
  cl_outgoingOffset :: nat
  cl_outgoingBytes :: nat
  cl_closeAfterWrite :: bool
  cl_acceptedAt :: int
  cl_rateUpdated :: int
  cl_rateTokens :: rat
  cl_rateCapacity :: rat
  cl_rateRefillPerSecond :: rat
  cl_optionalQueueDrops :: nat
  cl_firstOptionalDrop :: int

record Daemon =
  d_configuration :: DaemonConfig
  d_initialConfigurationText :: string
  d_safety :: SafetyGate
  d_preemptRtAvailable :: bool
  d_globalFaultedEpoch :: u64
  d_buses :: "EthercatBus list"
  d_adapters :: "AdapterRuntime list"
  d_clients :: "ClientConnection list"
  d_inputPublications :: "InputPublicationAccumulator list"
  d_nextClientId :: u64
  d_forceAdapterScan :: bool
  d_nextObserverRescanAllowed :: int
  d_shutdown :: bool
  d_exitCode :: int
  d_steady :: "nat \<Rightarrow> int"
  d_monotonic :: "nat \<Rightarrow> timespec option"
  d_readings :: nat

type_synonym 'a daemon = "(Daemon, 'a) state"

section \<open>Access to the object\<close>

definition steady_now :: "int daemon" where
  "steady_now = State (\<lambda>d. (d_steady d (d_readings d), d\<lparr>d_readings := Suc (d_readings d)\<rparr>))"

definition monotonic_now :: "u64 daemon" where
  "monotonic_now =
     State (\<lambda>d. (MonotonicMicros (d_monotonic d (d_readings d)), d\<lparr>d_readings := Suc (d_readings d)\<rparr>))"

definition client :: "nat \<Rightarrow> ClientConnection daemon" where
  "client c = asks (\<lambda>d. d_clients d ! c)"

definition update_client :: "nat \<Rightarrow> (ClientConnection \<Rightarrow> ClientConnection) \<Rightarrow> unit daemon" where
  "update_client c f = modify (\<lambda>d. d\<lparr>d_clients := (d_clients d)[c := f (d_clients d ! c)]\<rparr>)"

definition client_positions :: "nat list daemon" where
  "client_positions = asks (\<lambda>d. [0..<length (d_clients d)])"

definition on_safety :: "(SafetyGate \<Rightarrow> 'r \<times> SafetyGate) \<Rightarrow> 'r daemon" where
  "on_safety f = State (\<lambda>d. let (r, g) = f (d_safety d) in (r, d\<lparr>d_safety := g\<rparr>))"

definition on_buses :: "(EthercatBus \<Rightarrow> EthercatBus) \<Rightarrow> unit daemon" where
  "on_buses f = modify (\<lambda>d. d\<lparr>d_buses := map f (d_buses d)\<rparr>)"

section \<open>Safety state of the buses\<close>

definition ApplySafetyToBuses :: "unit daemon" where
  "ApplySafetyToBuses = do {
     g \<leftarrow> asks d_safety;
     on_buses (bus_SetSafety (gate_epoch g) (gate_outputsEnabled g))
   }"

definition subscribed :: "ClientConnection \<Rightarrow> bool" where
  "subscribed cl \<longleftrightarrow> \<not> (\<not> cl_helloReceived cl \<or> \<not> cl_subscribeInputs cl \<or> cl_descriptor cl < 0)"

definition fastest_period :: "ClientConnection list \<Rightarrow> u16" where
  "fastest_period clients =
     fold (\<lambda>cl fastestPeriodMs.
         if \<not> subscribed cl then fastestPeriodMs
         else if fastestPeriodMs = 0 \<or> cl_inputPeriodMs cl < fastestPeriodMs then cl_inputPeriodMs cl
         else fastestPeriodMs)
       clients 0"

definition UpdateInputPublicationDemand :: "unit daemon" where
  "UpdateInputPublicationDemand = do {
     clients \<leftarrow> asks d_clients;
     on_buses (SetInputPublicationPeriod (uint (fastest_period clients)))
   }"

section \<open>Output queues and closing a client\<close>

text \<open>
  \<^verbatim>\<open>CloseClient\<close>, \<^verbatim>\<open>BroadcastOutputsDisabled\<close> and \<^verbatim>\<open>QueueFrame\<close> call each
  other. The body of each takes the one it calls as an argument, and the recursion is cut at a depth
  of two: closing the controller broadcasts, closing a client during that broadcast does not. That the
  equations of the source hold without the cut is a theorem below.
\<close>

definition note_drop :: "(nat \<Rightarrow> unit daemon) \<Rightarrow> nat \<Rightarrow> unit daemon" where
  "note_drop close c = do {
     now \<leftarrow> steady_now;
     update_client c (\<lambda>cl. if cl_optionalQueueDrops cl = 0 then cl\<lparr>cl_firstOptionalDrop := now\<rparr> else cl);
     update_client c (\<lambda>cl. cl\<lparr>cl_optionalQueueDrops := cl_optionalQueueDrops cl + 1\<rparr>);
     cl \<leftarrow> client c;
     whenever (cl_optionalQueueDrops cl \<ge> 100 \<or> now - cl_firstOptionalDrop cl \<ge> 5000000000) (close c)
   }"

definition queue_space :: "ClientConnection \<Rightarrow> nat" where
  "queue_space cl = kMaximumClientOutputBytes - min (cl_outgoingBytes cl) kMaximumClientOutputBytes"

definition queue_frame :: "(nat \<Rightarrow> unit daemon) \<Rightarrow> nat \<Rightarrow> bytes \<Rightarrow> bool \<Rightarrow> bool daemon" where
  "queue_frame close c frame required = do {
     cl \<leftarrow> client c;
     if cl_descriptor cl < 0 \<or> frame = [] \<or> length frame > queue_space cl
     then do {
       (if required then close c else note_drop close c);
       return False
     }
     else do {
       update_client c (\<lambda>cl.
         if \<not> required \<and> cl_optionalQueueDrops cl \<noteq> 0
            \<and> cl_outgoingBytes cl < kMaximumClientOutputBytes div 4
         then cl\<lparr>cl_optionalQueueDrops := 0\<rparr> else cl);
       update_client c (\<lambda>cl. cl\<lparr>cl_outgoingBytes := cl_outgoingBytes cl + length frame\<rparr>);
       update_client c (\<lambda>cl. cl\<lparr>cl_outgoing := cl_outgoing cl @ [frame]\<rparr>);
       return True
     }
   }"

definition broadcast_frame :: "(nat \<Rightarrow> unit daemon) \<Rightarrow> bytes \<Rightarrow> unit daemon" where
  "broadcast_frame close frame = do {
     positions \<leftarrow> client_positions;
     for_each positions (\<lambda>c. do {
       cl \<leftarrow> client c;
       whenever (cl_helloReceived cl \<and> cl_descriptor cl \<ge> 0) (ignore (queue_frame close c frame False))
     })
   }"

definition broadcast_disabled :: "(nat \<Rightarrow> unit daemon) \<Rightarrow> DisableReason \<Rightarrow> u16 \<Rightarrow> unit daemon" where
  "broadcast_disabled close reason busIndex = do {
     g \<leftarrow> asks d_safety;
     broadcast_frame close
       (EncodeFrame MtOutputsDisabled 0
         (EncodeOutputsDisabledPayload
           \<lparr>disabled_reason = reason, disabled_busIndex = busIndex, disabled_epoch = gate_epoch g\<rparr>))
   }"

definition close_client :: "(DisableReason \<Rightarrow> u16 \<Rightarrow> unit daemon) \<Rightarrow> nat \<Rightarrow> unit daemon" where
  "close_client broadcast c = do {
     cl \<leftarrow> client c;
     if cl_descriptor cl < 0 then return ()
     else do {
       g \<leftarrow> asks d_safety;
       let controller = (controllerId g = Some (cl_id cl));
       update_client c (\<lambda>cl. cl\<lparr>cl_descriptor := - 1\<rparr>);
       update_client c (\<lambda>cl. cl\<lparr>cl_outgoing := []\<rparr>);
       update_client c (\<lambda>cl. cl\<lparr>cl_outgoingBytes := 0\<rparr>);
       UpdateInputPublicationDemand;
       whenever controller (do {
         result \<leftarrow> on_safety (Disconnect (cl_id cl));
         whenever (res_epochChanged result) (do {
           ApplySafetyToBuses;
           broadcast DrDisconnect 0xffff
         })
       })
     }
   }"

primrec CloseClient_at :: "nat \<Rightarrow> nat \<Rightarrow> unit daemon" where
  "CloseClient_at 0 = close_client (\<lambda>_ _. return ())"
| "CloseClient_at (Suc depth) = close_client (broadcast_disabled (CloseClient_at depth))"

definition CloseClient :: "nat \<Rightarrow> unit daemon" where
  "CloseClient = CloseClient_at 1"

definition QueueFrame :: "nat \<Rightarrow> bytes \<Rightarrow> bool \<Rightarrow> bool daemon" where
  "QueueFrame = queue_frame CloseClient"

definition BroadcastOutputsDisabled :: "DisableReason \<Rightarrow> u16 \<Rightarrow> unit daemon" where
  "BroadcastOutputsDisabled = broadcast_disabled CloseClient"

definition QueueFramesAtomically :: "nat \<Rightarrow> bytes list \<Rightarrow> nat \<Rightarrow> bool daemon" where
  "QueueFramesAtomically c frames totalBytes = do {
     cl \<leftarrow> client c;
     if cl_descriptor cl < 0 \<or> totalBytes > queue_space cl
     then do { note_drop CloseClient c; return False }
     else do {
       for_each frames (\<lambda>frame. update_client c (\<lambda>cl. cl\<lparr>cl_outgoing := cl_outgoing cl @ [frame]\<rparr>));
       update_client c (\<lambda>cl. cl\<lparr>cl_outgoingBytes := cl_outgoingBytes cl + totalBytes\<rparr>);
       return True
     }
   }"

definition QueueAck :: "nat \<Rightarrow> MessageType \<Rightarrow> u32 \<Rightarrow> AckStatus \<Rightarrow> u32 \<Rightarrow> bool \<Rightarrow> bool daemon" where
  "QueueAck c mt requestId status detail required =
     QueueFrame c (EncodeFrame mt requestId (EncodeAckPayload status detail)) required"

end
