(* ===== verification/Daemon_Session.thy ===== *)
theory Daemon_Session
  imports Daemon_State
begin

text \<open>
  The requests of clients: the daemon's handler for each message type, the dispatcher
  \<^verbatim>\<open>HandleFrame\<close>, rate limiting, reading from and writing to a client's socket. What
  the kernel returns for a \<^verbatim>\<open>recv\<close> or \<^verbatim>\<open>send\<close> is given as a list of
  results; the end of the list is a call that would block.
\<close>

section \<open>Epoch changes and readiness\<close>

definition FindClient :: "u64 \<Rightarrow> nat option daemon" where
  "FindClient i = asks (\<lambda>d. find (\<lambda>c. cl_id (d_clients d ! c) = i \<and> cl_descriptor (d_clients d ! c) \<ge> 0)
     [0..<length (d_clients d)])"

definition close_controller_after_write :: "u64 option \<Rightarrow> unit daemon" where
  "close_controller_after_write controller =
     (case controller of
        None \<Rightarrow> return ()
      | Some i \<Rightarrow> do {
          found \<leftarrow> FindClient i;
          (case found of
             None \<Rightarrow> return ()
           | Some c \<Rightarrow> update_client c (\<lambda>cl. cl\<lparr>cl_closeAfterWrite := True\<rparr>))
        })"

definition AdvanceEpoch :: "DisableReason \<Rightarrow> u16 \<Rightarrow> unit daemon" where
  "AdvanceEpoch reason busIndex = do {
     g \<leftarrow> asks d_safety;
     ignore (on_safety Invalidate);
     ApplySafetyToBuses;
     BroadcastOutputsDisabled reason busIndex;
     close_controller_after_write (controllerId g)
   }"

definition HandleSafetyTimeouts :: "int \<Rightarrow> unit daemon" where
  "HandleSafetyTimeouts now = do {
     g \<leftarrow> asks d_safety;
     result \<leftarrow> on_safety (ExpireOutputCommands now);
     if res_epochChanged result
     then do {
       ApplySafetyToBuses;
       BroadcastOutputsDisabled DrOutputCommandTimeout 0xffff;
       close_controller_after_write (controllerId g)
     }
     else do {
       g \<leftarrow> asks d_safety;
       result \<leftarrow> on_safety (Expire now);
       whenever (res_epochChanged result) (do {
         ApplySafetyToBuses;
         BroadcastOutputsDisabled DrHeartbeatTimeout 0xffff;
         close_controller_after_write (controllerId g)
       })
     }
   }"

definition resolution_usable :: "AdapterResolution \<Rightarrow> bool" where
  "resolution_usable r \<longleftrightarrow>
     resolution_identity r \<noteq> None
     \<and> (resolution_state r = LockUnlocked \<or> resolution_state r = LockMatched
        \<or> resolution_state r = LockRuntimeUnlocked)"

definition resolution_linkUp :: "AdapterResolution \<Rightarrow> bool" where
  "resolution_linkUp r = (case resolution_identity r of None \<Rightarrow> False | Some identity \<Rightarrow> id_linkUp identity)"

definition bus_ready_for_outputs :: "u64 \<Rightarrow> AdapterRuntime \<Rightarrow> EthercatBus \<Rightarrow> bool" where
  "bus_ready_for_outputs epoch adapter b \<longleftrightarrow>
     (resolution_usable (ar_resolution adapter) \<and> resolution_linkUp (ar_resolution adapter))
     \<and> snap_state (Snapshot b) = BusOperational \<and> SafetyBarrierComplete b epoch
     \<and> distributedClockHealthy b"

definition AllBusesOperational :: "Daemon \<Rightarrow> bool" where
  "AllBusesOperational d \<longleftrightarrow>
     d_buses d \<noteq> [] \<and> d_globalFaultedEpoch d \<noteq> gate_epoch (d_safety d)
     \<and> list_all (\<lambda>(adapter, b). bus_ready_for_outputs (gate_epoch (d_safety d)) adapter b)
         (zip (d_adapters d) (d_buses d))
     \<and> list_ex bus_outputTopologyVerified (d_buses d)"

definition OutputCapabilityAvailable :: "Daemon \<Rightarrow> bool" where
  "OutputCapabilityAvailable d \<longleftrightarrow> list_ex bus_outputTopologyVerified (d_buses d)"

definition ControllerAuthorized :: "DaemonConfig \<Rightarrow> ClientConnection \<Rightarrow> bool" where
  "ControllerAuthorized configuration cl \<longleftrightarrow>
     cl_uid cl \<in> set (cfg_controllerUids configuration)
     \<or> list_ex (\<lambda>peerGroup. peerGroup \<in> set (cfg_controllerGids configuration)) (cl_peerGroups cl)"

section \<open>Rate limiting\<close>

definition refill_tokens :: "int \<Rightarrow> ClientConnection \<Rightarrow> ClientConnection" where
  "refill_tokens now cl =
     (let elapsed = of_int (now - cl_rateUpdated cl) / 1000000000
      in cl\<lparr>cl_rateUpdated := now,
            cl_rateTokens := min (cl_rateCapacity cl) (cl_rateTokens cl + elapsed * cl_rateRefillPerSecond cl)\<rparr>)"

definition ConsumeRateToken :: "nat \<Rightarrow> bool daemon" where
  "ConsumeRateToken c = do {
     now \<leftarrow> steady_now;
     update_client c (refill_tokens now);
     cl \<leftarrow> client c;
     if cl_rateTokens cl < 1
     then do {
       update_client c (\<lambda>cl. cl\<lparr>cl_closeAfterWrite := True\<rparr>);
       ignore (QueueAck c MtError 0 AckQueueFull 0 True);
       return False
     }
     else do {
       update_client c (\<lambda>cl. cl\<lparr>cl_rateTokens := cl_rateTokens cl - 1\<rparr>);
       return True
     }
   }"

section \<open>Handlers\<close>

definition malformed :: "nat \<Rightarrow> Frame \<Rightarrow> bool daemon" where
  "malformed c frame = QueueAck c MtError (frame_requestId frame) AckMalformed 0 True"

definition acknowledge :: "nat \<Rightarrow> Frame \<Rightarrow> AckStatus \<Rightarrow> bool daemon" where
  "acknowledge c frame status = QueueAck c MtAck (frame_requestId frame) status 0 True"

definition output_targets :: "InterfaceConfig list \<Rightarrow> nat" where
  "output_targets interfaces =
     sum_list (map (\<lambda>mapping. length (filter (\<lambda>sd. (case exp_outputBytes sd of None \<Rightarrow> 0 | Some n \<Rightarrow> n) \<noteq> 0)
                                        (if_expectedSubDevices mapping))) interfaces)"

definition grant_rate :: "ControllerRateLimit \<Rightarrow> ClientConnection \<Rightarrow> ClientConnection" where
  "grant_rate controllerRate cl =
     cl\<lparr>cl_rateCapacity := of_nat (unat (rl_burstFrames controllerRate)),
        cl_rateRefillPerSecond := of_nat (unat (rl_framesPerSecond controllerRate)),
        cl_rateTokens := of_nat (unat (rl_burstFrames controllerRate))\<rparr>"

definition acquire_control :: "nat \<Rightarrow> ClientRole daemon" where
  "acquire_control c = do {
     cl \<leftarrow> client c;
     now \<leftarrow> steady_now;
     acquisition \<leftarrow> on_safety (Acquire (cl_id cl) (cl_pid cl) now);
     if res_status acquisition = AckOk
     then do {
       configuration \<leftarrow> asks d_configuration;
       update_client c (grant_rate
         (CalculateControllerRateLimit (of_nat (output_targets (cfg_interfaces configuration)))
            (cfg_outputCommandTimeout configuration)));
       ApplySafetyToBuses;
       return Controller
     }
     else return Observer
   }"

definition hello_acknowledgement :: "Daemon \<Rightarrow> ClientConnection \<Rightarrow> ClientRole \<Rightarrow> HelloAckPayload" where
  "hello_acknowledgement d cl granted =
     \<lparr>helloack_grantedRole = granted, helloack_outputsEnabled = gate_outputsEnabled (d_safety d),
      helloack_heartbeatTimeoutMs = word_of_int (cfg_heartbeatTimeout (d_configuration d)),
      helloack_epoch = gate_epoch (d_safety d), helloack_peerPid = cl_pid cl,
      helloack_capabilities =
        (if OutputCapabilityAvailable d then kCapabilities else kCapabilities AND NOT CapabilityOutputs)\<rparr>"

definition HandleHello :: "nat \<Rightarrow> Frame \<Rightarrow> bool daemon" where
  "HandleHello c frame =
     (case DecodeHelloPayload (frame_payload frame) of
        None \<Rightarrow> do { CloseClient c; return False }
      | Some hello \<Rightarrow> do {
          cl \<leftarrow> client c;
          configuration \<leftarrow> asks d_configuration;
          granted \<leftarrow>
            (if hello_role hello = Controller \<and> ControllerAuthorized configuration cl
             then acquire_control c else return Observer);
          update_client c (\<lambda>cl. cl\<lparr>cl_helloReceived := True, cl_role := granted,
            cl_subscribeInputs := hello_subscribeInputs hello, cl_inputPeriodMs := hello_inputPeriodMs hello\<rparr>);
          UpdateInputPublicationDemand;
          acknowledgement \<leftarrow> asks (\<lambda>d. hello_acknowledgement d cl granted);
          QueueFrame c (EncodeFrame MtHelloAck (frame_requestId frame) (EncodeHelloAckPayload acknowledgement))
            True
        })"

definition HandleHeartbeat :: "nat \<Rightarrow> Frame \<Rightarrow> bool daemon" where
  "HandleHeartbeat c frame =
     (case DecodeEpochPayload (frame_payload frame) of
        None \<Rightarrow> malformed c frame
      | Some epoch \<Rightarrow> do {
          cl \<leftarrow> client c;
          now \<leftarrow> steady_now;
          result \<leftarrow> on_safety (Heartbeat (cl_id cl) epoch now);
          acknowledge c frame (res_status result)
        })"

definition HandleOutputEnable :: "nat \<Rightarrow> Frame \<Rightarrow> bool daemon" where
  "HandleOutputEnable c frame =
     (case DecodeOutputEnablePayload (frame_payload frame) of
        None \<Rightarrow> malformed c frame
      | Some request \<Rightarrow> do {
          cl \<leftarrow> client c;
          healthy \<leftarrow> asks AllBusesOperational;
          now \<leftarrow> steady_now;
          result \<leftarrow> on_safety (SetOutputEnabled (cl_id cl) (enable_epoch request) (enable_enabled request)
            healthy now);
          ApplySafetyToBuses;
          queued \<leftarrow> acknowledge c frame (res_status result);
          whenever (res_status result = AckOk \<and> \<not> enable_enabled request) (do {
            BroadcastOutputsDisabled DrRequested 0xffff;
            update_client c (\<lambda>cl. cl\<lparr>cl_closeAfterWrite := True\<rparr>)
          });
          return queued
        })"

definition queue_output :: "nat \<Rightarrow> OutputCommand \<Rightarrow> bool daemon" where
  "queue_output busIndex command =
     State (\<lambda>d. let (queued, b) = QueueOutput command (d_buses d ! busIndex)
                in (queued, d\<lparr>d_buses := (d_buses d)[busIndex := b]\<rparr>))"

definition queue_command :: "nat \<Rightarrow> Frame \<Rightarrow> OutputWritePayload \<Rightarrow> bool daemon" where
  "queue_command c frame request = do {
     accepted \<leftarrow> monotonic_now;
     if accepted = 0 then acknowledge c frame AckInternalError
     else do {
       cl \<leftarrow> client c;
       queued \<leftarrow> queue_output (unat (write_busIndex request))
         \<lparr>cmd_epoch = write_epoch request, cmd_subDeviceIndex = write_subDeviceIndex request,
          cmd_offset = write_offset request, cmd_acceptedMonotonicUs = accepted,
          cmd_data = write_data request\<rparr>;
       if queued
       then do {
         now \<leftarrow> steady_now;
         refreshed \<leftarrow> on_safety (RecordOutputWrite (cl_id cl) (write_epoch request) now);
         acknowledge c frame (if res_status refreshed \<noteq> AckOk then res_status refreshed else AckOk)
       }
       else acknowledge c frame AckQueueFull
     }
   }"

definition HandleOutputWrite :: "nat \<Rightarrow> Frame \<Rightarrow> bool daemon" where
  "HandleOutputWrite c frame =
     (case DecodeOutputWritePayload (frame_payload frame) of
        None \<Rightarrow> malformed c frame
      | Some request \<Rightarrow> do {
          cl \<leftarrow> client c;
          g \<leftarrow> asks d_safety;
          buses \<leftarrow> asks d_buses;
          let authorization = AuthorizeWrite g (cl_id cl) (write_epoch request);
          if res_status authorization \<noteq> AckOk then acknowledge c frame (res_status authorization)
          else if unat (write_busIndex request) \<ge> length buses then acknowledge c frame AckBadTarget
          else do {
            let bounds = ValidateOutput (buses ! unat (write_busIndex request)) (write_subDeviceIndex request)
              (write_offset request) (write_data request);
            if bounds \<noteq> AckOk then acknowledge c frame bounds else queue_command c frame request
          }
        })"

definition HandleClearCounters :: "nat \<Rightarrow> Frame \<Rightarrow> bool daemon" where
  "HandleClearCounters c frame =
     (if frame_payload frame \<noteq> [] then malformed c frame
      else do { on_buses bus_ResetCounters; acknowledge c frame AckOk })"

definition HandleRelease :: "nat \<Rightarrow> Frame \<Rightarrow> bool daemon" where
  "HandleRelease c frame =
     (case DecodeEpochPayload (frame_payload frame) of
        None \<Rightarrow> malformed c frame
      | Some epoch \<Rightarrow> do {
          cl \<leftarrow> client c;
          result \<leftarrow> on_safety (Release (cl_id cl) epoch);
          queued \<leftarrow> acknowledge c frame (res_status result);
          whenever (res_epochChanged result) (do {
            ApplySafetyToBuses;
            BroadcastOutputsDisabled DrRequested 0xffff;
            update_client c (\<lambda>cl. cl\<lparr>cl_closeAfterWrite := True\<rparr>)
          });
          return queued
        })"

definition HandleSubscribeInputs :: "nat \<Rightarrow> Frame \<Rightarrow> bool daemon" where
  "HandleSubscribeInputs c frame =
     (case DecodeSubscribeInputsPayload (frame_payload frame) of
        None \<Rightarrow> malformed c frame
      | Some subscription \<Rightarrow> do {
          update_client c (\<lambda>cl. cl\<lparr>cl_subscribeInputs := subscribe_enabled subscription,
            cl_inputPeriodMs := subscribe_periodMs subscription,
            cl_lastInputSequence := map (\<lambda>_. 0) (cl_lastInputSequence cl),
            cl_selectedInputSequence := map (\<lambda>_. 0) (cl_selectedInputSequence cl)\<rparr>);
          UpdateInputPublicationDemand;
          acknowledge c frame AckOk
        })"

definition HandleAdapterUnlock :: "nat \<Rightarrow> Frame \<Rightarrow> bool daemon" where
  "HandleAdapterUnlock c frame =
     (case DecodeAdapterUnlockPayload (frame_payload frame) of
        None \<Rightarrow> malformed c frame
      | Some request \<Rightarrow> do {
          cl \<leftarrow> client c;
          g \<leftarrow> asks d_safety;
          adapters \<leftarrow> asks d_adapters;
          let authorization = AuthorizeController g (cl_id cl) (unlock_epoch request);
          if res_status authorization \<noteq> AckOk then acknowledge c frame (res_status authorization)
          else if unat (unlock_busIndex request) \<ge> length adapters then acknowledge c frame AckBadTarget
          else do {
            modify (\<lambda>d. d\<lparr>d_adapters := (d_adapters d)[unat (unlock_busIndex request) :=
              (d_adapters d ! unat (unlock_busIndex request))\<lparr>ar_runtimeUnlocked := True\<rparr>]\<rparr>);
            queued \<leftarrow> acknowledge c frame AckOk;
            AdvanceEpoch DrAdapterMismatch (unlock_busIndex request);
            modify (\<lambda>d. d\<lparr>d_forceAdapterScan := True\<rparr>);
            return queued
          }
        })"

definition HandleAdapterRescan :: "nat \<Rightarrow> Frame \<Rightarrow> bool daemon" where
  "HandleAdapterRescan c frame =
     (if frame_payload frame \<noteq> [] then malformed c frame
      else do {
        now \<leftarrow> steady_now;
        modify (\<lambda>d. if now \<ge> d_nextObserverRescanAllowed d
          then d\<lparr>d_forceAdapterScan := True, d_nextObserverRescanAllowed := now + 250000000\<rparr> else d);
        acknowledge c frame AckOk
      })"

definition drop_client :: "nat \<Rightarrow> bool daemon" where
  "drop_client c = do { CloseClient c; return False }"

definition HandleFrame :: "nat \<Rightarrow> Frame \<Rightarrow> bool daemon" where
  "HandleFrame c frame = do {
     cl \<leftarrow> client c;
     if frame_requestId frame = 0 \<and> frame_type frame \<noteq> MtHello
        \<or> MessageType_code (frame_type frame) > MessageType_code MtAdapterRescan
     then drop_client c
     else if \<not> cl_helloReceived cl \<and> frame_type frame \<noteq> MtHello then drop_client c
     else if cl_helloReceived cl \<and> frame_type frame = MtHello then drop_client c
     else case frame_type frame of
         MtHello \<Rightarrow> HandleHello c frame
       | MtHeartbeat \<Rightarrow> HandleHeartbeat c frame
       | MtOutputEnable \<Rightarrow> HandleOutputEnable c frame
       | MtOutputWrite \<Rightarrow> HandleOutputWrite c frame
       | MtClearCounters \<Rightarrow> HandleClearCounters c frame
       | MtReleaseControl \<Rightarrow> HandleRelease c frame
       | MtSubscribeInputs \<Rightarrow> HandleSubscribeInputs c frame
       | MtAdapterUnlock \<Rightarrow> HandleAdapterUnlock c frame
       | MtAdapterRescan \<Rightarrow> HandleAdapterRescan c frame
       | _ \<Rightarrow> drop_client c
   }"

section \<open>Sockets of clients\<close>

datatype RecvResult = Received bytes | RecvWouldBlock | RecvInterrupted | RecvFailed

datatype SendResult = Sent nat | SendWouldBlock | SendInterrupted | SendFailed

primrec handle_frames :: "nat \<Rightarrow> Frame list \<Rightarrow> bool daemon" where
  "handle_frames c [] = return True"
| "handle_frames c (frame # frames) = do {
     token \<leftarrow> ConsumeRateToken c;
     if \<not> token then return False
     else do {
       continue \<leftarrow> HandleFrame c frame;
       if \<not> continue then return False else handle_frames c frames
     }
   }"

definition feed_client :: "nat \<Rightarrow> bytes \<Rightarrow> (bool \<times> Frame list) daemon" where
  "feed_client c bs =
     State (\<lambda>d. let (ok, frames, decoder) = Feed (cl_decoder (d_clients d ! c)) bs
                in ((ok, frames), d\<lparr>d_clients := (d_clients d)[c := (d_clients d ! c)\<lparr>cl_decoder := decoder\<rparr>]\<rparr>))"

text \<open>A read from the socket of a client that was closed in the meantime fails.\<close>

primrec read_loop :: "nat \<Rightarrow> nat \<Rightarrow> RecvResult list \<Rightarrow> unit daemon" where
  "read_loop c totalRead [] = return ()"
| "read_loop c totalRead (result # results) = do {
     cl \<leftarrow> client c;
     case (if cl_descriptor cl < 0 then RecvFailed else result) of
         RecvWouldBlock \<Rightarrow> return ()
       | RecvInterrupted \<Rightarrow> read_loop c totalRead results
       | RecvFailed \<Rightarrow> CloseClient c
       | Received bs \<Rightarrow>
           (if bs = [] then CloseClient c
            else do {
              (ok, frames) \<leftarrow> feed_client c bs;
              if \<not> ok then CloseClient c
              else do {
                continue \<leftarrow> handle_frames c frames;
                if \<not> continue \<or> totalRead + length bs \<ge> 64 * 1024 then return ()
                else read_loop c (totalRead + length bs) results
              }
            })
   }"

definition ReadClient :: "nat \<Rightarrow> RecvResult list \<Rightarrow> unit daemon" where
  "ReadClient c results = read_loop c 0 results"

text \<open>The bytes the kernel accepts are returned; it accepts no more than it is offered.\<close>

definition sent_bytes :: "nat \<Rightarrow> ClientConnection \<Rightarrow> ClientConnection" where
  "sent_bytes count cl =
     (let frame = hd (cl_outgoing cl);
          cl = cl\<lparr>cl_outgoingOffset := cl_outgoingOffset cl + count,
                  cl_outgoingBytes := cl_outgoingBytes cl - count\<rparr>
      in if cl_outgoingOffset cl = length frame
         then cl\<lparr>cl_outgoing := tl (cl_outgoing cl), cl_outgoingOffset := 0\<rparr> else cl)"

definition finish_flush :: "nat \<Rightarrow> bytes daemon" where
  "finish_flush c = do {
     cl \<leftarrow> client c;
     whenever (cl_closeAfterWrite cl \<and> cl_outgoing cl = []) (CloseClient c);
     return []
   }"

primrec FlushClient :: "nat \<Rightarrow> SendResult list \<Rightarrow> bytes daemon" where
  "FlushClient c [] = do {
     cl \<leftarrow> client c;
     if cl_descriptor cl \<ge> 0 \<and> cl_outgoing cl \<noteq> [] then return [] else finish_flush c
   }"
| "FlushClient c (result # results) = do {
     cl \<leftarrow> client c;
     if \<not> (cl_descriptor cl \<ge> 0 \<and> cl_outgoing cl \<noteq> []) then finish_flush c
     else case result of
         SendWouldBlock \<Rightarrow> return []
       | SendInterrupted \<Rightarrow> FlushClient c results
       | SendFailed \<Rightarrow> do { CloseClient c; return [] }
       | Sent n \<Rightarrow> do {
           let offered = drop (cl_outgoingOffset cl) (hd (cl_outgoing cl));
           let count = min n (length offered);
           if count = 0 then do { CloseClient c; return [] }
           else do {
             update_client c (sent_bytes count);
             more \<leftarrow> FlushClient c results;
             return (take count offered @ more)
           }
         }
   }"

end
