(* ===== verification/Daemon_Loop.thy ===== *)
theory Daemon_Loop
  imports Daemon_Session
begin

text \<open>
  What the daemon does without being asked: scanning adapters and starting or stopping workers,
  reacting to bus faults, status and bus information, forwarding process inputs, accepting clients, the
  poll step, the event loop of \<^verbatim>\<open>Run\<close>, construction and shutdown. The results of system
  calls in one turn of the loop are collected in a record.
\<close>

section \<open>Adapters and bus faults\<close>

definition on_bus :: "nat \<Rightarrow> (EthercatBus \<Rightarrow> EthercatBus) \<Rightarrow> unit daemon" where
  "on_bus index f = modify (\<lambda>d. d\<lparr>d_buses := (d_buses d)[index := f (d_buses d ! index)]\<rparr>)"

definition update_adapter :: "nat \<Rightarrow> (AdapterRuntime \<Rightarrow> AdapterRuntime) \<Rightarrow> unit daemon" where
  "update_adapter index f = modify (\<lambda>d. d\<lparr>d_adapters := (d_adapters d)[index := f (d_adapters d ! index)]\<rparr>)"

record PlannedBinding =
  plan_resolution :: AdapterResolution
  plan_ready :: bool
  plan_bindingChanged :: bool
  plan_linkLost :: bool
  plan_interfaceName :: string
  plan_idPath :: string
  plan_linkUp :: bool

definition plan_binding :: "AdapterIdentity list \<Rightarrow> InterfaceConfig \<Rightarrow> AdapterRuntime \<Rightarrow> PlannedBinding" where
  "plan_binding identities mapping runtime =
     (let next = ResolveAdapter identities (if_physicalInterface mapping) (if_lock mapping)
                   (ar_runtimeUnlocked runtime);
          nextInterface = (case resolution_identity next of None \<Rightarrow> '''' | Some i \<Rightarrow> id_interfaceName i);
          nextIdPath = (case resolution_identity next of None \<Rightarrow> '''' | Some i \<Rightarrow> id_idPath i);
          nextLink = resolution_linkUp next;
          priorLink = resolution_linkUp (ar_resolution runtime)
      in \<lparr>plan_resolution = next, plan_ready = resolution_usable next,
          plan_bindingChanged =
            (nextInterface \<noteq> ar_boundInterface runtime \<or> nextIdPath \<noteq> ar_boundIdPath runtime
             \<or> resolution_state next \<noteq> resolution_state (ar_resolution runtime)
             \<or> resolution_reason next \<noteq> resolution_reason (ar_resolution runtime)),
          plan_linkLost = (priorLink \<and> \<not> nextLink),
          plan_interfaceName = nextInterface, plan_idPath = nextIdPath, plan_linkUp = nextLink\<rparr>)"

text \<open>The last bus that changes determines the reason and the index that are reported.\<close>

definition safety_change :: "PlannedBinding list \<Rightarrow> (DisableReason \<times> u16) option" where
  "safety_change planned =
     fold (\<lambda>(index, p) change.
         if plan_bindingChanged p \<or> plan_linkLost p
         then Some (if plan_linkLost p then DrLinkLoss else DrAdapterMismatch, of_nat index)
         else change)
       (zip [0..<length planned] planned) None"

text \<open>\<^verbatim>\<open>Stop\<close> returns once the worker has left its loop and closed its context.\<close>

definition stop_worker :: "EthercatBus \<Rightarrow> EthercatBus" where
  "stop_worker b = worker_exit (bus_Stop b)"

definition bind_adapter :: "nat \<Rightarrow> PlannedBinding \<Rightarrow> unit daemon" where
  "bind_adapter index next = do {
     d \<leftarrow> asks id;
     let started = ar_workerStarted (d_adapters d ! index);
     (if \<not> plan_ready next then
        whenever started (do {
          on_bus index stop_worker;
          update_adapter index (\<lambda>a. a\<lparr>ar_workerStarted := False\<rparr>)
        })
      else if \<not> started \<or> plan_bindingChanged next then do {
        whenever started (on_bus index stop_worker);
        on_bus index (bus_Start (plan_interfaceName next) (plan_linkUp next) (gate_epoch (d_safety d)));
        update_adapter index (\<lambda>a. a\<lparr>ar_workerStarted := True\<rparr>)
      }
      else on_bus index (bus_SetLinkUp (plan_linkUp next)));
     update_adapter index (\<lambda>a. a\<lparr>ar_boundInterface := plan_interfaceName next,
       ar_boundIdPath := plan_idPath next, ar_resolution := plan_resolution next\<rparr>)
   }"

definition ScanAdapters :: "AdapterIdentity list \<Rightarrow> bool \<Rightarrow> unit daemon" where
  "ScanAdapters identities initial = do {
     planned \<leftarrow> asks (\<lambda>d. map (\<lambda>(mapping, runtime). plan_binding identities mapping runtime)
       (zip (cfg_interfaces (d_configuration d)) (d_adapters d)));
     (case (if initial then None else safety_change planned) of
        None \<Rightarrow> return ()
      | Some (reason, index) \<Rightarrow> AdvanceEpoch reason index);
     for_each (zip [0..<length planned] planned) (\<lambda>(index, next). bind_adapter index next)
   }"

definition HandleBusFaults :: "unit daemon" where
  "HandleBusFaults = do {
     positions \<leftarrow> asks (\<lambda>d. [0..<length (d_buses d)]);
     for_each positions (\<lambda>index. do {
       d \<leftarrow> asks id;
       let sequence = bus_faultSequence (d_buses d ! index);
       whenever (sequence \<noteq> ar_observedFaultSequence (d_adapters d ! index)) (do {
         update_adapter index (\<lambda>a. a\<lparr>ar_observedFaultSequence := sequence\<rparr>);
         AdvanceEpoch (bus_faultReason (d_buses d ! index)) (of_nat index)
       })
     })
   }"

section \<open>Status and bus information\<close>

record StatusFolds =
  sf_allOperational :: bool
  sf_anyFault :: bool
  sf_anyInitializing :: bool
  sf_allRealtimeApplied :: bool
  sf_timingDegraded :: bool
  sf_fifo :: bool

definition adapter_fault :: "AdapterResolution \<Rightarrow> bool" where
  "adapter_fault r \<longleftrightarrow> resolution_state r = LockMismatch \<or> resolution_state r = LockMissing
     \<or> resolution_identity r = None \<or> \<not> resolution_linkUp r"

definition saturating_add :: "u64 \<Rightarrow> u64 \<Rightarrow> u64" where
  "saturating_add counter amount = (if counter > - 1 - amount then - 1 else counter + amount)"

definition status_flags_step :: "DaemonConfig \<Rightarrow> BusSnapshot \<Rightarrow> AdapterResolution \<Rightarrow> StatusFolds \<Rightarrow> StatusFolds" where
  "status_flags_step configuration b r f =
     \<lparr>sf_allOperational = (sf_allOperational f \<and> snap_state b = BusOperational),
      sf_anyFault = (sf_anyFault f \<or> snap_state b = BusFault \<or> adapter_fault r),
      sf_anyInitializing = (sf_anyInitializing f \<or> snap_reinitializing b \<or> snap_state b = BusInitializing),
      sf_allRealtimeApplied =
        (sf_allRealtimeApplied f \<and> \<not> (snap_schedulingMode b \<noteq> SchedFifo \<or> snap_realtimeErrorBits b \<noteq> 0)),
      sf_timingDegraded =
        (sf_timingDegraded f \<or> snap_cycleOverruns b \<noteq> 0
         \<or> snap_currentJitterUs b > word_of_int (cfg_cyclePeriod configuration)),
      sf_fifo = (sf_fifo f \<and> snap_schedulingMode b = SchedFifo)\<rparr>"

definition status_counts_step :: "BusSnapshot \<Rightarrow> AdapterResolution \<Rightarrow> StatusPayload \<Rightarrow> StatusPayload" where
  "status_counts_step b r st =
     (let busFaultCount = (if snap_state b = BusFault then max 1 (unat (snap_faults b)) else unat (snap_faults b))
      in st\<lparr>status_activeAdapters := of_nat (min 65535
              (unat (status_activeAdapters st) + (if resolution_identity r \<noteq> None then 1 else 0))),
            status_subDevices := of_nat (min 65535 (unat (status_subDevices st) + unat (snap_subDeviceCount b))),
            status_activeFaults := of_nat (min 65535
              (unat (status_activeFaults st) + busFaultCount + (if adapter_fault r then 1 else 0))),
            status_lostFrames := saturating_add (status_lostFrames st) (snap_lostFrames b),
            status_cycleOverruns := saturating_add (status_cycleOverruns st) (snap_cycleOverruns b),
            status_maximumJitterUs := max (status_maximumJitterUs st) (snap_maximumJitterUs b),
            status_currentJitterUs := max (status_currentJitterUs st) (snap_currentJitterUs b),
            status_realtimeErrorBits := status_realtimeErrorBits st OR snap_realtimeErrorBits b\<rparr>)"

definition flag_bit :: "nat \<Rightarrow> bool \<Rightarrow> u8" where
  "flag_bit n b = (if b then push_bit n 1 else 0)"

definition Status :: "Daemon \<Rightarrow> u64 \<Rightarrow> StatusPayload" where
  "Status d monotonicTimestampUs =
     (let g = d_safety d;
          configuration = d_configuration d;
          some = (d_buses d \<noteq> []);
          pairs = zip (map Snapshot (d_buses d)) (map ar_resolution (d_adapters d));
          f = fold (\<lambda>(b, r). status_flags_step configuration b r) pairs
                \<lparr>sf_allOperational = some, sf_anyFault = False, sf_anyInitializing = False,
                 sf_allRealtimeApplied = some, sf_timingDegraded = False, sf_fifo = some\<rparr>;
          st = fold (\<lambda>(b, r). status_counts_step b r) pairs
                \<lparr>status_aggregateState = BusState_code (if some then BusOperational else BusStarting),
                 status_flags = 0, status_activeAdapters = 0, status_subDevices = 0, status_activeFaults = 0,
                 status_maximumJitterUs = 0, status_currentJitterUs = 0, status_lostFrames = 0,
                 status_cycleOverruns = 0, status_epoch = gate_epoch g, status_controllerPid = controllerPid g,
                 status_configuredBuses = of_nat (length (d_buses d)), status_schedulingMode = SchedOther,
                 status_realtimeErrorBits = 0, status_monotonicTimestampUs = monotonicTimestampUs\<rparr>
      in st\<lparr>status_flags :=
              flag_bit 0 (sf_allOperational f) OR flag_bit 1 (gate_outputsEnabled g)
              OR flag_bit 2 (hasController g) OR flag_bit 3 (d_preemptRtAvailable d)
              OR flag_bit 4 (sf_allRealtimeApplied f)
              OR flag_bit 5 (requestFifo (cfg_realtime configuration)
                   \<or> requestMemoryLock (cfg_realtime configuration)
                   \<or> cpuAffinity (cfg_realtime configuration) \<noteq> None)
              OR flag_bit 6 (sf_timingDegraded f) OR flag_bit 7 (sf_anyInitializing f),
            status_aggregateState :=
              (if sf_anyFault f then BusState_code BusFault
               else if sf_anyInitializing f then BusState_code BusInitializing
               else if \<not> sf_allOperational f \<and> some then BusState_code BusWaitingForLink
               else status_aggregateState st),
            status_schedulingMode := (if sf_fifo f then SchedFifo else SchedOther)\<rparr>)"

definition BroadcastStatus :: "unit daemon" where
  "BroadcastStatus = do {
     now \<leftarrow> monotonic_now;
     st \<leftarrow> asks (\<lambda>d. Status d now);
     broadcast_frame CloseClient (EncodeFrame MtStatus 0 (EncodeStatusPayload st))
   }"

definition attribute :: "string option \<Rightarrow> string" where
  "attribute v = (case v of None \<Rightarrow> '''' | Some s \<Rightarrow> s)"

definition bus_information :: "Daemon \<Rightarrow> nat \<Rightarrow> BusInfoPayload" where
  "bus_information d index =
     (let resolution = ar_resolution (d_adapters d ! index);
          snapshot = Snapshot (d_buses d ! index);
          mapping = cfg_interfaces (d_configuration d) ! index;
          identity = resolution_identity resolution;
          state = (if resolution_state resolution = LockMismatch then BusFault
                   else if identity = None then BusWaitingForLink else snap_state snapshot)
      in case identity of
           None \<Rightarrow>
             \<lparr>bi_busIndex = of_nat index, bi_state = state, bi_linkUp = False,
              bi_lockState = resolution_state resolution, bi_lockReason = resolution_reason resolution,
              bi_subDeviceCount = snap_subDeviceCount snapshot, bi_logicalName = if_logicalName mapping,
              bi_physicalInterface = if_physicalInterface mapping, bi_idPath = '''', bi_permanentMac = '''',
              bi_usbSerial = '''', bi_usbVendorId = '''', bi_usbProductId = '''',
              bi_epoch = gate_epoch (d_safety d)\<rparr>
         | Some i \<Rightarrow>
             \<lparr>bi_busIndex = of_nat index, bi_state = state, bi_linkUp = id_linkUp i,
              bi_lockState = resolution_state resolution, bi_lockReason = resolution_reason resolution,
              bi_subDeviceCount = snap_subDeviceCount snapshot, bi_logicalName = if_logicalName mapping,
              bi_physicalInterface = id_interfaceName i, bi_idPath = id_idPath i,
              bi_permanentMac = attribute (id_permanentMac i), bi_usbSerial = attribute (id_usbSerial i),
              bi_usbVendorId = attribute (id_usbVendorId i), bi_usbProductId = attribute (id_usbProductId i),
              bi_epoch = gate_epoch (d_safety d)\<rparr>)"

definition BroadcastBusInformation :: "unit daemon" where
  "BroadcastBusInformation = do {
     positions \<leftarrow> asks (\<lambda>d. [0..<length (d_buses d)]);
     for_each positions (\<lambda>index. do {
       information \<leftarrow> asks (\<lambda>d. bus_information d index);
       let payload = EncodeBusInfoPayload information;
       whenever (payload \<noteq> []) (broadcast_frame CloseClient (EncodeFrame MtBusInfo 0 payload))
     })
   }"

section \<open>Process inputs\<close>

text \<open>One chunk added to the publication of its bus; the flag tells that the publication is complete.\<close>

definition accumulate_chunk ::
  "InputChunk \<Rightarrow> InputPublicationAccumulator \<Rightarrow> bool \<times> InputPublicationAccumulator" where
  "accumulate_chunk chunk publication =
     (let header = chunk_header chunk; index = chunk_snapshotChunkIndex chunk; n = chunk_snapshotChunkCount chunk
      in if n = 0 \<or> n > 128 \<or> index \<ge> n then (False, publication_Reset)
         else let publication =
                    (if index = 0
                     then publication_Reset\<lparr>pub_epoch := pdo_epoch header,
                            pub_cycleSequence := pdo_cycleSequence header, pub_expectedChunks := n\<rparr>
                     else publication)
              in if pub_epoch publication \<noteq> pdo_epoch header
                    \<or> pub_cycleSequence publication \<noteq> pdo_cycleSequence header
                    \<or> pub_expectedChunks publication \<noteq> n \<or> pub_nextChunk publication \<noteq> index
                 then (False, publication_Reset)
                 else let payload = EncodePdoInputPayload (header\<lparr>pdo_data := chunk_data chunk\<rparr>);
                          frame = EncodeFrame MtPdoInput 0 payload
                      in if payload = [] \<or> frame = []
                            \<or> length frame > kMaximumClientOutputBytes
                                - min (pub_totalBytes publication) kMaximumClientOutputBytes
                         then (False, publication_Reset)
                         else let publication =
                                    publication\<lparr>pub_totalBytes := pub_totalBytes publication + length frame,
                                      pub_frames := pub_frames publication @ [frame],
                                      pub_nextChunk := pub_nextChunk publication + 1\<rparr>
                              in (pub_nextChunk publication = pub_expectedChunks publication, publication))"

definition publish_to_client :: "int \<Rightarrow> nat \<Rightarrow> InputPublicationAccumulator \<Rightarrow> nat \<Rightarrow> unit daemon" where
  "publish_to_client now busIndex publication c = do {
     cl \<leftarrow> client c;
     whenever (subscribed cl \<and> \<not> now < cl_nextInputPublication cl ! busIndex) (do {
       update_client c (\<lambda>cl. cl\<lparr>cl_nextInputPublication :=
         (cl_nextInputPublication cl)[busIndex := now + uint (cl_inputPeriodMs cl) * 1000000]\<rparr>);
       g \<leftarrow> asks d_safety;
       whenever (pub_epoch publication = gate_epoch g)
         (ignore (QueueFramesAtomically c (pub_frames publication) (pub_totalBytes publication)))
     })
   }"

definition set_publication :: "nat \<Rightarrow> InputPublicationAccumulator \<Rightarrow> unit daemon" where
  "set_publication busIndex publication =
     modify (\<lambda>d. d\<lparr>d_inputPublications := (d_inputPublications d)[busIndex := publication]\<rparr>)"

definition drain_chunk :: "int \<Rightarrow> nat \<Rightarrow> bool \<Rightarrow> InputChunk \<Rightarrow> unit daemon" where
  "drain_chunk now busIndex hasSubscriber chunk = do {
     publication \<leftarrow> asks (\<lambda>d. d_inputPublications d ! busIndex);
     if \<not> hasSubscriber then set_publication busIndex publication_Reset
     else do {
       let (complete, publication) = accumulate_chunk chunk publication;
       set_publication busIndex publication;
       whenever complete (do {
         positions \<leftarrow> client_positions;
         for_each positions (publish_to_client now busIndex publication);
         set_publication busIndex publication_Reset
       })
     }
   }"

definition pop_input :: "nat \<Rightarrow> InputChunk option daemon" where
  "pop_input busIndex =
     State (\<lambda>d. let (chunk, b) = PopInput (d_buses d ! busIndex)
                in (chunk, d\<lparr>d_buses := (d_buses d)[busIndex := b]\<rparr>))"

text \<open>The loop ends when the queue is empty; its fuel is the capacity, which no content reaches.\<close>

primrec drain_bus :: "nat \<Rightarrow> int \<Rightarrow> nat \<Rightarrow> bool \<Rightarrow> unit daemon" where
  "drain_bus 0 now busIndex hasSubscriber = return ()"
| "drain_bus (Suc fuel) now busIndex hasSubscriber = do {
     popped \<leftarrow> pop_input busIndex;
     case popped of
         None \<Rightarrow> return ()
       | Some chunk \<Rightarrow> do {
           drain_chunk now busIndex hasSubscriber chunk;
           drain_bus fuel now busIndex hasSubscriber
         }
   }"

definition DrainInputs :: "int \<Rightarrow> unit daemon" where
  "DrainInputs now = do {
     positions \<leftarrow> asks (\<lambda>d. [0..<length (d_buses d)]);
     for_each positions (\<lambda>busIndex. do {
       d \<leftarrow> asks id;
       drain_bus (Capacity (bus_inputChunks (d_buses d ! busIndex))) now busIndex
         (list_ex subscribed (d_clients d))
     })
   }"

section \<open>Accepting and polling clients\<close>

record Credentials =
  cred_pid :: int
  cred_uid :: u32
  cred_gid :: u32

text \<open>An accepted connection comes with its peer's credentials and, where the kernel gives them, groups.\<close>

datatype AcceptResult =
  Accepted int "Credentials option" "u32 list option" | AcceptWouldBlock | AcceptInterrupted | AcceptFailed

definition new_client :: "int \<Rightarrow> u64 \<Rightarrow> Credentials \<Rightarrow> u32 list option \<Rightarrow> int \<Rightarrow> ClientConnection" where
  "new_client descriptor i credentials groups now =
     \<lparr>cl_descriptor = descriptor, cl_id = i, cl_pid = word_of_int (cred_pid credentials),
      cl_uid = cred_uid credentials, cl_gid = cred_gid credentials,
      cl_peerGroups = remdups (sort (cred_gid credentials #
        (case groups of None \<Rightarrow> [] | Some gs \<Rightarrow> take 256 gs))),
      cl_helloReceived = False, cl_role = Observer, cl_subscribeInputs = False, cl_inputPeriodMs = 100,
      cl_lastInputSequence = replicate kMaximumBuses 0, cl_selectedInputSequence = replicate kMaximumBuses 0,
      cl_nextInputPublication = replicate kMaximumBuses 0, cl_decoder = decoder_init, cl_outgoing = [],
      cl_outgoingOffset = 0, cl_outgoingBytes = 0, cl_closeAfterWrite = False, cl_acceptedAt = now,
      cl_rateUpdated = now, cl_rateTokens = 500, cl_rateCapacity = 500, cl_rateRefillPerSecond = 1000,
      cl_optionalQueueDrops = 0, cl_firstOptionalDrop = 0\<rparr>"

definition take_client_id :: "u64 daemon" where
  "take_client_id = do {
     i \<leftarrow> asks d_nextClientId;
     modify (\<lambda>d. d\<lparr>d_nextClientId := d_nextClientId d + 1\<rparr>);
     return i
   }"

definition accept_client :: "int \<Rightarrow> Credentials option \<Rightarrow> u32 list option \<Rightarrow> unit daemon" where
  "accept_client descriptor peer groups = do {
     clients \<leftarrow> asks d_clients;
     if length clients \<ge> kMaximumClients then return ()
     else case peer of
         None \<Rightarrow> return ()
       | Some credentials \<Rightarrow>
           if cred_pid credentials \<le> 0 then return ()
           else if length (filter (\<lambda>cl. cl_descriptor cl \<ge> 0 \<and> cl_uid cl = cred_uid credentials) clients) \<ge> 8
           then return ()
           else do {
             now \<leftarrow> steady_now;
             i \<leftarrow> take_client_id;
             i \<leftarrow> (if i = 0 then take_client_id else return i);
             modify (\<lambda>d. d\<lparr>d_clients := d_clients d @ [new_client descriptor i credentials groups now]\<rparr>)
           }
   }"

text \<open>The result is false when the call throws.\<close>

primrec AcceptClients :: "AcceptResult list \<Rightarrow> bool daemon" where
  "AcceptClients [] = return True"
| "AcceptClients (result # results) =
     (case result of
        AcceptWouldBlock \<Rightarrow> return True
      | AcceptInterrupted \<Rightarrow> AcceptClients results
      | AcceptFailed \<Rightarrow> return False
      | Accepted descriptor peer groups \<Rightarrow> do {
          accept_client descriptor peer groups;
          AcceptClients results
        })"

record ClientEvents =
  ev_hangup :: bool
  ev_in :: bool
  ev_out :: bool
  ev_recv :: "RecvResult list"
  ev_send :: "SendResult list"

datatype PollResult =
  Polled bool "AcceptResult list" "ClientEvents list" | PollInterrupted | PollFailed

definition serve_client :: "nat \<Rightarrow> ClientEvents \<Rightarrow> unit daemon" where
  "serve_client c events =
     (if ev_hangup events then CloseClient c
      else do {
        whenever (ev_in events) (ReadClient c (ev_recv events));
        cl \<leftarrow> client c;
        whenever (cl_descriptor cl \<ge> 0 \<and> ev_out events) (ignore (FlushClient c (ev_send events)));
        cl \<leftarrow> client c;
        whenever (\<not> cl_helloReceived cl) (do {
          now \<leftarrow> steady_now;
          whenever (now - cl_acceptedAt cl > 1000000000) (CloseClient c)
        })
      })"

definition PollClients :: "PollResult \<Rightarrow> bool daemon" where
  "PollClients result =
     (case result of
        PollFailed \<Rightarrow> return False
      | PollInterrupted \<Rightarrow> return True
      | Polled pending accepted events \<Rightarrow> do {
          polledClientCount \<leftarrow> asks (\<lambda>d. length (d_clients d));
          ok \<leftarrow> (if pending then AcceptClients accepted else return True);
          if \<not> ok then return False
          else do {
            for_each (zip [0..<polledClientCount] events) (\<lambda>(c, ev). serve_client c ev);
            return True
          }
        })"

definition RemoveClosedClients :: "unit daemon" where
  "RemoveClosedClients = modify (\<lambda>d. d\<lparr>d_clients := filter (\<lambda>cl. \<not> cl_descriptor cl < 0) (d_clients d)\<rparr>)"

section \<open>Construction, the event loop and shutdown\<close>

definition kMaximumOutputCommands :: nat where
  "kMaximumOutputCommands = 512"

definition kMaximumInputChunks :: nat where
  "kMaximumInputChunks = 256"

definition AbsoluteIoMapAllocationSize :: nat where
  "AbsoluteIoMapAllocationSize = (EC_MAXSLAVE + 1) * 2 * ((65535 + 7) div 8) + 64 * 1024"

definition OutputCommand_default :: OutputCommand where
  "OutputCommand_default =
     \<lparr>cmd_epoch = 0, cmd_subDeviceIndex = 0, cmd_offset = 0, cmd_acceptedMonotonicUs = 0, cmd_data = []\<rparr>"

definition InputChunk_default :: InputChunk where
  "InputChunk_default =
     \<lparr>chunk_header = \<lparr>pdo_busIndex = 0, pdo_subDeviceIndex = 0, pdo_offset = 0, pdo_totalSize = 0,
        pdo_epoch = 0, pdo_cycleSequence = 0, pdo_data = []\<rparr>,
      chunk_data = [], chunk_snapshotChunkIndex = 0, chunk_snapshotChunkCount = 0\<rparr>"

text \<open>The address of the IO map is the one thing of a new bus that is not determined by the program.\<close>

definition EthercatBus_init :: "DaemonConfig \<Rightarrow> (nat \<Rightarrow> nat) \<Rightarrow> nat \<Rightarrow> EthercatBus" where
  "EthercatBus_init configuration address index =
     \<lparr>bus_index = of_nat index, bus_configuration = cfg_interfaces configuration ! index,
      bus_cyclePeriod = cfg_cyclePeriod configuration,
      bus_outputCommandTimeout = cfg_outputCommandTimeout configuration, bus_globalFaultedEpoch = 0,
      bus_interfaceName = '''', bus_running = False, bus_linkUp = False, bus_outputsPermitted = False,
      bus_safetyEpoch = 1, bus_safetyEpochApplied = 0, bus_inputPublicationPeriodUs = 0,
      bus_observedSafetyEpoch = 0, bus_outputsWerePermitted = False,
      bus_lastOutputCommandUs = replicate EC_MAXSLAVE 0, bus_staleOutput = replicate EC_MAXSLAVE False,
      bus_staleOutputFaults = 0, bus_faultedEpoch = 0,
      bus_outputCommands =
        \<lparr>q_values = replicate kMaximumOutputCommands OutputCommand_default, q_read = 0, q_write = 0\<rparr>,
      bus_inputChunks = \<lparr>q_values = replicate kMaximumInputChunks InputChunk_default, q_read = 0, q_write = 0\<rparr>,
      bus_devices = [],
      bus_io = \<lparr>io_base = address index, io_bytes = replicate AbsoluteIoMapAllocationSize 0\<rparr>,
      bus_contextAttempted = False, bus_contextOpen = False,
      bus_dcConfigured = False, bus_dcController = dc_init (cfg_cyclePeriod configuration * 1000),
      bus_expectedWorkingCounter = 0, bus_state = BusStarting, bus_reinitializing = False,
      bus_subDeviceCount = 0, bus_outputSizes = replicate EC_MAXSLAVE 0, bus_outputBits = replicate EC_MAXSLAVE 0,
      bus_faults = 0, bus_lostFrames = 0, bus_cycleOverruns = 0, bus_currentJitterUs = 0,
      bus_maximumJitterUs = 0, bus_cycleSequence = 0, bus_schedulingMode = SchedOther,
      bus_realtimeErrorBits = 0, bus_resetCounterSequence = 0, bus_faultSequence = 0,
      bus_faultReason = DrProcessDataFault, bus_outputTopologyVerified = False, bus_dcSynchronized = False,
      bus_inputChunkCursor = 0\<rparr>"

definition AdapterRuntime_default :: AdapterRuntime where
  "AdapterRuntime_default =
     \<lparr>ar_resolution = \<lparr>resolution_state = LockMissing, resolution_reason = ReasonInterfaceMissing,
        resolution_identity = None\<rparr>,
      ar_runtimeUnlocked = False, ar_workerStarted = False, ar_boundInterface = '''', ar_boundIdPath = '''',
      ar_observedFaultSequence = 0\<rparr>"

text \<open>
  The constructor is given what the system tells it: the group of the controllers if it exists, the
  initial epoch, whether the kernel is real-time, and the two clocks.
\<close>

record Surroundings =
  sur_controllerGid :: "u32 option"
  sur_epoch :: u64
  sur_preemptRt :: bool
  sur_address :: "nat \<Rightarrow> nat"
  sur_steady :: "nat \<Rightarrow> int"
  sur_monotonic :: "nat \<Rightarrow> timespec option"

definition Daemon_init :: "DaemonConfig \<Rightarrow> string \<Rightarrow> Surroundings \<Rightarrow> Daemon" where
  "Daemon_init configuration configurationText sur =
     (let configuration =
            (case sur_controllerGid sur of
               None \<Rightarrow> configuration
             | Some gid \<Rightarrow> configuration\<lparr>cfg_controllerGids :=
                 remdups (sort (cfg_controllerGids configuration @ [gid]))\<rparr>);
          n = length (cfg_interfaces configuration)
      in \<lparr>d_configuration = configuration, d_initialConfigurationText = configurationText,
          d_safety = SafetyGate_init (sur_epoch sur) (cfg_heartbeatTimeout configuration)
            (cfg_outputCommandTimeout configuration),
          d_preemptRtAvailable = sur_preemptRt sur, d_globalFaultedEpoch = 0,
          d_buses = map (EthercatBus_init configuration (sur_address sur)) [0..<n],
          d_adapters = replicate n AdapterRuntime_default, d_clients = [],
          d_inputPublications = replicate kMaximumBuses publication_Reset, d_nextClientId = 1,
          d_forceAdapterScan = False, d_nextObserverRescanAllowed = 0, d_shutdown = False, d_exitCode = 0,
          d_steady = sur_steady sur, d_monotonic = sur_monotonic sur, d_readings = 0\<rparr>)"

record RunLocals =
  run_nextStatus :: int
  run_nextAdapterScan :: int
  run_nextConfigurationCheck :: int

text \<open>
  What a worker may do between two turns of the daemon: a step of its outer loop or one cycle, without
  stores of the daemon in between. The cell for the last faulted epoch is shared by all buses.
\<close>

datatype WorkerAction = WaWait | WaBegin bool SoemReply | WaCycle CycleEnv CycleLocals | WaLeave

primrec worker_action :: "WorkerAction \<Rightarrow> EthercatBus \<Rightarrow> EthercatBus" where
  "worker_action WaWait b = b\<lparr>bus_state := BusWaitingForLink\<rparr>"
| "worker_action (WaBegin attempted sr) b =
     (let b = (if attempted then RaiseFault DrReinitialize b else b);
          (initialized, b) = Initialize sr (b\<lparr>bus_reinitializing := True\<rparr>);
          b = b\<lparr>bus_reinitializing := False\<rparr>
      in if \<not> initialized then b\<lparr>bus_state := BusFault\<rparr> else b)"
| "worker_action (WaCycle e loc) b = snd (snd (cycle_body (e\<lparr>env_stores := (\<lambda>_. [])\<rparr>) loc b))"
| "worker_action WaLeave b = CloseContext (if \<not> bus_linkUp b then RaiseFault DrLinkLoss b else b)"

definition worker_moves :: "nat \<Rightarrow> WorkerAction \<Rightarrow> unit daemon" where
  "worker_moves index action =
     modify (\<lambda>d. if index < length (d_buses d)
       then let b = worker_action action (d_buses d ! index); e = bus_globalFaultedEpoch b
            in d\<lparr>d_globalFaultedEpoch := e,
                 d_buses := map (\<lambda>b. b\<lparr>bus_globalFaultedEpoch := e\<rparr>) ((d_buses d)[index := b])\<rparr>
       else d)"

record TurnInput =
  turn_workers :: "(nat \<times> WorkerAction) list"
  turn_identities :: "AdapterIdentity list"
  turn_file :: "(string list \<times> bool) option"
  turn_poll :: PollResult

datatype TurnResult = Continue RunLocals | Break | Thrown

definition ConfigurationChanged :: "(string list \<times> bool) option \<Rightarrow> string \<Rightarrow> bool" where
  "ConfigurationChanged stream initialConfigurationText =
     (case ReadBoundedFile stream kMaximumConfigurationBytes of
        Inl _ \<Rightarrow> True
      | Inr configurationText \<Rightarrow> configurationText \<noteq> initialConfigurationText)"

definition scan_when_due :: "int \<Rightarrow> TurnInput \<Rightarrow> RunLocals \<Rightarrow> RunLocals daemon" where
  "scan_when_due now t locals = do {
     force \<leftarrow> asks d_forceAdapterScan;
     if now \<ge> run_nextAdapterScan locals \<or> force
     then do {
       ScanAdapters (turn_identities t) False;
       modify (\<lambda>d. d\<lparr>d_forceAdapterScan := False\<rparr>);
       return (locals\<lparr>run_nextAdapterScan := now + 250000000\<rparr>)
     }
     else return locals
   }"

definition status_when_due :: "int \<Rightarrow> RunLocals \<Rightarrow> RunLocals daemon" where
  "status_when_due now locals =
     (if now \<ge> run_nextStatus locals
      then do {
        BroadcastStatus;
        BroadcastBusInformation;
        return (locals\<lparr>run_nextStatus := now + 100000000\<rparr>)
      }
      else return locals)"

definition configuration_check :: "int \<Rightarrow> TurnInput \<Rightarrow> RunLocals \<Rightarrow> (bool \<times> RunLocals) daemon" where
  "configuration_check now t locals =
     (if now \<ge> run_nextConfigurationCheck locals
      then do {
        let locals = locals\<lparr>run_nextConfigurationCheck := now + 500000000\<rparr>;
        initialText \<leftarrow> asks d_initialConfigurationText;
        if ConfigurationChanged (turn_file t) initialText
        then do {
          AdvanceEpoch DrReinitialize 0xffff;
          modify (\<lambda>d. d\<lparr>d_exitCode := 75\<rparr>);
          return (True, locals)
        }
        else return (False, locals)
      }
      else return (False, locals))"

definition daemon_turn :: "TurnInput \<Rightarrow> RunLocals \<Rightarrow> TurnResult daemon" where
  "daemon_turn t locals = do {
     now \<leftarrow> steady_now;
     locals \<leftarrow> scan_when_due now t locals;
     HandleBusFaults;
     HandleSafetyTimeouts now;
     DrainInputs now;
     locals \<leftarrow> status_when_due now locals;
     (changed, locals) \<leftarrow> configuration_check now t locals;
     if changed then return Break
     else do {
       ok \<leftarrow> PollClients (turn_poll t);
       if \<not> ok then return Thrown
       else do { RemoveClosedClients; return (Continue locals) }
     }
   }"

text \<open>
  The list holds the inputs of the turns; it ends when a signal clears \<^verbatim>\<open>gRunning\<close>. The
  workers act before each turn. The result tells whether the loop was left by an exception.
\<close>

primrec daemon_turns :: "TurnInput list \<Rightarrow> RunLocals \<Rightarrow> bool daemon" where
  "daemon_turns [] locals = return False"
| "daemon_turns (t # ts) locals = do {
     for_each (turn_workers t) (\<lambda>(index, action). worker_moves index action);
     result \<leftarrow> daemon_turn t locals;
     case result of Continue locals \<Rightarrow> daemon_turns ts locals | Break \<Rightarrow> return False | Thrown \<Rightarrow> return True
   }"

primrec flush_round :: "(nat \<times> SendResult list) list \<Rightarrow> bool daemon" where
  "flush_round [] = return False"
| "flush_round (visit # visits) = do {
     cl \<leftarrow> client (fst visit);
     if cl_descriptor cl \<ge> 0 \<and> cl_outgoing cl \<noteq> []
     then do {
       ignore (FlushClient (fst visit) (snd visit));
       ignore (flush_round visits);
       return True
     }
     else flush_round visits
   }"

primrec FlushClientsFor :: "int \<Rightarrow> SendResult list list list \<Rightarrow> unit daemon" where
  "FlushClientsFor deadline [] = return ()"
| "FlushClientsFor deadline (sends # rounds) = do {
     now \<leftarrow> steady_now;
     if \<not> now < deadline then return ()
     else do {
       positions \<leftarrow> client_positions;
       pending \<leftarrow> flush_round (zip positions sends);
       if \<not> pending then return () else FlushClientsFor deadline rounds
     }
   }"

definition Shutdown :: "unit daemon" where
  "Shutdown = do {
     already \<leftarrow> asks d_shutdown;
     whenever (\<not> already) (do {
       modify (\<lambda>d. d\<lparr>d_shutdown := True\<rparr>);
       g \<leftarrow> asks d_safety;
       on_buses (bus_SetSafety (gate_epoch g) False);
       on_buses (\<lambda>b. if bus_running b then stop_worker b else bus_Stop b);
       modify (\<lambda>d. d\<lparr>d_clients := []\<rparr>)
     })
   }"

text \<open>An exception that leaves \<^verbatim>\<open>Run\<close> reaches the destructor, which shuts down; the exit code is then 1.\<close>

definition Daemon_Run :: "AdapterIdentity list \<Rightarrow> TurnInput list \<Rightarrow> SendResult list list list \<Rightarrow> int daemon" where
  "Daemon_Run identities ts rounds = do {
     ScanAdapters identities True;
     nextStatus \<leftarrow> steady_now;
     nextAdapterScan \<leftarrow> steady_now;
     now \<leftarrow> steady_now;
     thrown \<leftarrow> daemon_turns ts \<lparr>run_nextStatus = nextStatus, run_nextAdapterScan = nextAdapterScan,
       run_nextConfigurationCheck = now + 500000000\<rparr>;
     if thrown then do { Shutdown; return 1 }
     else do {
       AdvanceEpoch DrShutdown 0xffff;
       now \<leftarrow> steady_now;
       FlushClientsFor (now + 20000000) rounds;
       Shutdown;
       asks d_exitCode
     }
   }"

end
