(* ===== verification/Daemon_Safety.thy ===== *)
theory Daemon_Safety
  imports Daemon_Loop
begin

text \<open>
  Invariants of the daemon object along the event loop: every bus follows the safety gate, the lease is
  held by a connected and authorised controller, and the output queue of every client is accounted for
  and bounded.
\<close>

section \<open>Statements on the object\<close>

lemma run_access [simp]:
  "run_state (client c) d = (d_clients d ! c, d)"
  "run_state (update_client c f) d = ((), d\<lparr>d_clients := (d_clients d)[c := f (d_clients d ! c)]\<rparr>)"
  "run_state (on_safety h) d = (fst (h (d_safety d)), d\<lparr>d_safety := snd (h (d_safety d))\<rparr>)"
  "run_state (on_buses g) d = ((), d\<lparr>d_buses := map g (d_buses d)\<rparr>)"
  "run_state client_positions d = ([0..<length (d_clients d)], d)"
  "run_state steady_now d = (d_steady d (d_readings d), d\<lparr>d_readings := Suc (d_readings d)\<rparr>)"
  "run_state monotonic_now d =
     (MonotonicMicros (d_monotonic d (d_readings d)), d\<lparr>d_readings := Suc (d_readings d)\<rparr>)"
  by (simp_all add: client_def update_client_def on_safety_def on_buses_def client_positions_def
      steady_now_def monotonic_now_def split_beta)

lemma run_ApplySafety [simp]:
  "run_state ApplySafetyToBuses d =
     ((), d\<lparr>d_buses := map (bus_SetSafety (gate_epoch (d_safety d)) (gate_outputsEnabled (d_safety d))) (d_buses d)\<rparr>)"
  by (simp add: ApplySafetyToBuses_def)

lemma run_Demand [simp]:
  "run_state UpdateInputPublicationDemand d =
     ((), d\<lparr>d_buses := map (SetInputPublicationPeriod (uint (fastest_period (d_clients d)))) (d_buses d)\<rparr>)"
  by (simp add: UpdateInputPublicationDemand_def)

section \<open>Closing a client ends\<close>

definition no_controller :: "Daemon \<Rightarrow> bool" where
  "no_controller d \<longleftrightarrow> controllerId (d_safety d) = None"

lemma close_client_idle:
  "no_controller d \<Longrightarrow> run_state (close_client f c) d = run_state (close_client g c) d"
  by (simp add: close_client_def no_controller_def Let_def)

lemma close_client_no_controller: "keeps no_controller (close_client f c)"
  by (rule tripleI) (simp add: close_client_def no_controller_def Let_def)

lemma note_drop_agree:
  assumes "\<And>c d. no_controller d \<Longrightarrow> run_state (f c) d = run_state (g c) d" and "no_controller d"
  shows "run_state (note_drop f c) d = run_state (note_drop g c) d"
  using assms by (simp add: note_drop_def no_controller_def Let_def)

lemma note_drop_no_controller: "(\<And>c. keeps no_controller (f c)) \<Longrightarrow> keeps no_controller (note_drop f c)"
  unfolding note_drop_def
  by (intro triple_rules) (simp_all add: triple_def no_controller_def)

lemma queue_frame_agree:
  assumes "\<And>c d. no_controller d \<Longrightarrow> run_state (f c) d = run_state (g c) d" and "no_controller d"
  shows "run_state (queue_frame f c frame required) d = run_state (queue_frame g c frame required) d"
  using assms note_drop_agree [OF assms] by (simp add: queue_frame_def Let_def)

lemma queue_frame_no_controller:
  "(\<And>c. keeps no_controller (f c)) \<Longrightarrow> keeps no_controller (queue_frame f c frame required)"
  unfolding queue_frame_def
  by (intro triple_rules note_drop_no_controller) (simp_all add: triple_def no_controller_def)

lemma broadcast_agree:
  assumes "\<And>c d. no_controller d \<Longrightarrow> run_state (f c) d = run_state (g c) d"
    and "\<And>c. keeps no_controller (g c)" and "no_controller d"
  shows "run_state (broadcast_disabled f r i) d = run_state (broadcast_disabled g r i) d"
proof -
  have "run_state (for_each ps (\<lambda>c. do { cl \<leftarrow> client c;
       whenever (cl_helloReceived cl \<and> cl_descriptor cl \<ge> 0) (ignore (queue_frame f c frame False)) })) d =
     run_state (for_each ps (\<lambda>c. do { cl \<leftarrow> client c;
       whenever (cl_helloReceived cl \<and> cl_descriptor cl \<ge> 0) (ignore (queue_frame g c frame False)) })) d"
    for ps frame
  proof (rule for_each_agree [where I = no_controller])
    show "keeps no_controller (do { cl \<leftarrow> client c;
       whenever (cl_helloReceived cl \<and> cl_descriptor cl \<ge> 0) (ignore (queue_frame g c frame False)) })" for c
      by (intro triple_rules queue_frame_no_controller assms(2)) (simp add: triple_def)
  qed (use assms in \<open>simp_all add: queue_frame_agree [OF assms(1)]\<close>)
  then show ?thesis by (simp add: broadcast_disabled_def broadcast_frame_def)
qed

lemma Disconnect_controller:
  "controllerId g = Some i \<Longrightarrow> controllerId (snd (Disconnect i g)) = None \<and> res_epochChanged (fst (Disconnect i g))"
  by (simp add: gate_defs)

lemma close_client_cut:
  assumes "\<And>r i d. no_controller d \<Longrightarrow> run_state (f r i) d = run_state (g r i) d"
  shows "close_client f c = close_client g c"
  by (rule state_ext)
    (simp add: close_client_def Let_def Disconnect_controller assms no_controller_def)

lemma CloseClient_at_stable: "CloseClient_at (Suc depth) = CloseClient"
proof -
  have idle: "no_controller d \<Longrightarrow> run_state (CloseClient_at m c) d = run_state (CloseClient_at n c) d" for m n c d
    by (cases m; cases n) (simp_all add: close_client_idle)
  have keep: "keeps no_controller (CloseClient_at n c)" for n c
    by (cases n) (simp_all add: close_client_no_controller)
  have "close_client (broadcast_disabled (CloseClient_at depth)) c =
      close_client (broadcast_disabled (CloseClient_at 0)) c" for c
    by (rule close_client_cut) (rule broadcast_agree [OF idle keep])
  then show ?thesis by (simp add: CloseClient_def fun_eq_iff)
qed

text \<open>
  C1: closing a client terminates although \<^verbatim>\<open>CloseClient\<close>,
  \<^verbatim>\<open>BroadcastOutputsDisabled\<close> and \<^verbatim>\<open>QueueFrame\<close> call each other. The
  equation of the source, in which the broadcast may close further clients, holds in every state, and
  every bound on the depth of the recursion of at least two calls gives the same computation: the lease
  is gone before the broadcast begins, so no nested call broadcasts again.
\<close>

theorem closing_terminates:
  "CloseClient c = close_client BroadcastOutputsDisabled c \<and> CloseClient_at (Suc depth) c = CloseClient c"
proof
  have "CloseClient_at (Suc (Suc 0)) c = CloseClient c" by (simp only: CloseClient_at_stable)
  then show "CloseClient c = close_client BroadcastOutputsDisabled c"
    by (simp add: BroadcastOutputsDisabled_def CloseClient_def fun_eq_iff)
qed (simp only: CloseClient_at_stable)

section \<open>The invariant\<close>

definition client_ok :: "ClientConnection \<Rightarrow> bool" where
  "client_ok cl \<longleftrightarrow>
     (if cl_descriptor cl < 0 then cl_outgoing cl = [] \<and> cl_outgoingBytes cl = 0
      else cl_outgoingOffset cl + cl_outgoingBytes cl = length (concat (cl_outgoing cl))
        \<and> cl_outgoingBytes cl \<le> kMaximumClientOutputBytes \<and> [] \<notin> set (cl_outgoing cl)
        \<and> (if cl_outgoing cl = [] then cl_outgoingOffset cl = 0
            else cl_outgoingOffset cl < length (hd (cl_outgoing cl))))"

definition publication_ok :: "InputPublicationAccumulator \<Rightarrow> bool" where
  "publication_ok p \<longleftrightarrow> pub_totalBytes p = length (concat (pub_frames p)) \<and> [] \<notin> set (pub_frames p)"

definition holds_lease :: "DaemonConfig \<Rightarrow> u64 \<Rightarrow> ClientConnection \<Rightarrow> bool" where
  "holds_lease configuration i cl \<longleftrightarrow>
     cl_id cl = i \<and> cl_descriptor cl \<ge> 0 \<and> cl_helloReceived cl \<and> cl_role cl = Controller
     \<and> ControllerAuthorized configuration cl"

definition lease_ok :: "Daemon \<Rightarrow> bool" where
  "lease_ok d \<longleftrightarrow>
     (\<forall>i. controllerId (d_safety d) = Some i \<longrightarrow> (\<exists>cl \<in> set (d_clients d). holds_lease (d_configuration d) i cl))"

definition bus_follows :: "SafetyGate \<Rightarrow> AdapterRuntime \<Rightarrow> EthercatBus \<Rightarrow> bool" where
  "bus_follows g adapter b \<longleftrightarrow>
     (bus_outputsPermitted b \<longrightarrow> gate_outputsEnabled g \<and> bus_safetyEpoch b = gate_epoch g)
     \<and> (ar_workerStarted adapter \<longrightarrow> bus_safetyEpoch b = gate_epoch g)"

definition buses_follow :: "Daemon \<Rightarrow> bool" where
  "buses_follow d \<longleftrightarrow> list_all2 (bus_follows (d_safety d)) (d_adapters d) (d_buses d)"

definition base_inv :: "Daemon \<Rightarrow> bool" where
  "base_inv d \<longleftrightarrow>
     \<not> d_shutdown d \<and> gate_inv (d_safety d) \<and> lease_ok d \<and> list_all client_ok (d_clients d)
     \<and> list_all publication_ok (d_inputPublications d)
     \<and> length (d_adapters d) = length (d_buses d)
     \<and> length (d_buses d) \<le> kMaximumBuses \<and> length (d_inputPublications d) = kMaximumBuses
     \<and> list_all (\<lambda>b. bus_globalFaultedEpoch b = d_globalFaultedEpoch d) (d_buses d)"

text \<open>
  While a method runs, some facts hold only for a time: whether the buses follow the gate, and the clients
  that are known to exist or to have said hello. They are the parameters of the invariant.
\<close>

definition dinv :: "bool \<Rightarrow> nat \<Rightarrow> nat set \<Rightarrow> Daemon \<Rightarrow> bool" where
  "dinv follow n greeted d \<longleftrightarrow>
     base_inv d \<and> (follow \<longrightarrow> buses_follow d) \<and> n \<le> length (d_clients d)
     \<and> (\<forall>c \<in> greeted. c < length (d_clients d) \<and> cl_helloReceived (d_clients d ! c))"

abbreviation daemon_inv :: "Daemon \<Rightarrow> bool" where
  "daemon_inv \<equiv> dinv True 0 {}"

lemmas dinv_defs = dinv_def base_inv_def buses_follow_def lease_ok_def

text \<open>A change of a client that no other component can notice.\<close>

definition same_peer :: "ClientConnection \<Rightarrow> ClientConnection \<Rightarrow> bool" where
  "same_peer cl cl' \<longleftrightarrow>
     cl_id cl' = cl_id cl \<and> cl_descriptor cl' = cl_descriptor cl \<and> cl_helloReceived cl' = cl_helloReceived cl
     \<and> cl_role cl' = cl_role cl \<and> cl_uid cl' = cl_uid cl \<and> cl_peerGroups cl' = cl_peerGroups cl"

lemma holds_lease_same: "same_peer cl cl' \<Longrightarrow> holds_lease configuration i cl' = holds_lease configuration i cl"
  by (simp add: same_peer_def holds_lease_def ControllerAuthorized_def)

lemma nth_update: "xs[c := y] ! k = (if c = k \<and> c < length xs then y else xs ! k)"
  by (cases "c < length xs") (auto simp: nth_list_update list_update_beyond)

lemma list_all_update: "list_all P xs \<Longrightarrow> (c < length xs \<Longrightarrow> P x) \<Longrightarrow> list_all P (xs[c := x])"
  by (cases "c < length xs") (auto simp: list_all_length nth_list_update)

lemma bex_update:
  assumes "\<exists>x \<in> set xs. P x" and "c < length xs \<Longrightarrow> P (xs ! c) \<Longrightarrow> P y"
  shows "\<exists>x \<in> set (xs[c := y]). P x"
proof -
  obtain k where k: "k < length xs" "P (xs ! k)" using assms(1) by (auto simp: in_set_conv_nth)
  then have "P (xs[c := y] ! k)" using assms(2) by (cases "c = k") auto
  with k(1) show ?thesis by (metis length_list_update nth_mem)
qed

lemma dinv_client:
  assumes "dinv f n G d"
    and "c < length (d_clients d) \<Longrightarrow> client_ok (d_clients d ! c) \<Longrightarrow> client_ok cl \<and> same_peer (d_clients d ! c) cl"
  shows "dinv f n G (d\<lparr>d_clients := (d_clients d)[c := cl]\<rparr>)"
proof -
  have ok: "list_all client_ok (d_clients d)" using assms(1) by (simp add: dinv_defs)
  have like: "client_ok cl \<and> same_peer (d_clients d ! c) cl" if "c < length (d_clients d)"
    using assms(2) ok that by (simp add: list_all_length)
  have "list_all client_ok ((d_clients d)[c := cl])" using ok like by (auto intro: list_all_update)
  moreover have "lease_ok (d\<lparr>d_clients := (d_clients d)[c := cl]\<rparr>)"
  proof (cases "controllerId (d_safety d)")
    case (Some i)
    have "\<exists>cl \<in> set (d_clients d). holds_lease (d_configuration d) i cl"
      using assms(1) Some by (simp add: dinv_defs)
    then have "\<exists>x \<in> set ((d_clients d)[c := cl]). holds_lease (d_configuration d) i x"
      by (rule bex_update) (use like holds_lease_same in blast)
    with Some show ?thesis by (simp add: lease_ok_def)
  qed (simp add: lease_ok_def)
  moreover have "\<forall>k \<in> G. k < length (d_clients d) \<and> cl_helloReceived ((d_clients d)[c := cl] ! k)"
    using assms(1) like by (auto simp: dinv_def nth_update same_peer_def)
  ultimately show ?thesis using assms(1) by (simp add: dinv_def base_inv_def buses_follow_def)
qed

lemma keeps_update_client [triple_rules]:
  assumes "\<And>cl. client_ok cl \<Longrightarrow> client_ok (u cl) \<and> same_peer cl (u cl)"
  shows "keeps (dinv f n G) (update_client c u)"
  by (rule tripleI) (simp add: dinv_client assms)

text \<open>Reading a clock and the fields that carry no invariant.\<close>

lemma dinv_other [simp]:
  "dinv f n G (d\<lparr>d_readings := k\<rparr>) = dinv f n G d"
  "dinv f n G (d\<lparr>d_forceAdapterScan := b\<rparr>) = dinv f n G d"
  "dinv f n G (d\<lparr>d_nextObserverRescanAllowed := t\<rparr>) = dinv f n G d"
  "dinv f n G (d\<lparr>d_nextClientId := i\<rparr>) = dinv f n G d"
  "dinv f n G (d\<lparr>d_exitCode := e\<rparr>) = dinv f n G d"
  by (simp_all add: dinv_defs)

lemma keeps_clocks [triple_rules]: "keeps (dinv f n G) steady_now" "keeps (dinv f n G) monotonic_now"
  by (simp_all add: triple_def)

lemma keeps_readers [triple_rules]: "keeps (dinv f n G) (client c)" "keeps (dinv f n G) client_positions"
  by (simp_all add: triple_def)

text \<open>Changes of the buses.\<close>

definition quiet_bus :: "EthercatBus \<Rightarrow> EthercatBus \<Rightarrow> bool" where
  "quiet_bus b b' \<longleftrightarrow>
     (bus_outputsPermitted b' \<longrightarrow> bus_outputsPermitted b) \<and> bus_safetyEpoch b' = bus_safetyEpoch b
     \<and> bus_globalFaultedEpoch b' = bus_globalFaultedEpoch b"

lemma dinv_buses:
  assumes "dinv f n G d" and "list_all2 quiet_bus (d_buses d) bs"
  shows "dinv f n G (d\<lparr>d_buses := bs\<rparr>)"
proof -
  have len: "length bs = length (d_buses d)" using assms(2) by (simp add: list_all2_lengthD)
  have q: "quiet_bus (d_buses d ! k) (bs ! k)" if "k < length (d_buses d)" for k
    using assms(2) that by (simp add: list_all2_conv_all_nth)
  have "list_all (\<lambda>b. bus_globalFaultedEpoch b = d_globalFaultedEpoch d) bs"
    using assms(1) q len by (simp add: dinv_defs list_all_length quiet_bus_def)
  moreover have "f \<longrightarrow> list_all2 (bus_follows (d_safety d)) (d_adapters d) bs"
    using assms(1) q len
    by (auto simp: dinv_defs list_all2_conv_all_nth quiet_bus_def bus_follows_def)
  ultimately show ?thesis using assms(1) len by (simp add: dinv_defs)
qed

lemma dinv_map_buses:
  "dinv f n G d \<Longrightarrow> (\<And>b. quiet_bus b (g b)) \<Longrightarrow> dinv f n G (d\<lparr>d_buses := map g (d_buses d)\<rparr>)"
  by (erule dinv_buses) (simp add: list_all2_conv_all_nth)

lemma dinv_bus:
  "dinv f n G d \<Longrightarrow> quiet_bus (d_buses d ! k) b \<Longrightarrow> dinv f n G (d\<lparr>d_buses := (d_buses d)[k := b]\<rparr>)"
  by (erule dinv_buses) (auto simp: list_all2_conv_all_nth nth_update quiet_bus_def)

lemma quiet_period [simp]: "quiet_bus b (SetInputPublicationPeriod p b)"
  by (simp add: quiet_bus_def SetInputPublicationPeriod_def Let_def)

lemma keeps_demand [triple_rules]: "keeps (dinv f n G) UpdateInputPublicationDemand"
  by (rule tripleI) (simp add: dinv_map_buses)

lemma apply_follows: "triple (dinv f n G) ApplySafetyToBuses (\<lambda>_. dinv f' n G)"
proof (rule tripleI)
  fix d assume d: "dinv f n G d"
  then show "dinv f' n G (snd (run_state ApplySafetyToBuses d))"
    by (simp add: dinv_defs list_all2_conv_all_nth bus_follows_def bus_SetSafety_def Let_def list_all_length)
qed

lemma keeps_apply [triple_rules]: "keeps (dinv f n G) ApplySafetyToBuses"
  by (rule apply_follows)

text \<open>Changes of the gate.\<close>

lemma dinv_gate:
  assumes "dinv f n G d" and "gate_inv g" and "controllerId g = None \<or> controllerId g = controllerId (d_safety d)"
    and "f' \<Longrightarrow> f \<and> gate_epoch g = gate_epoch (d_safety d) \<and> (gate_outputsEnabled (d_safety d) \<longrightarrow> gate_outputsEnabled g)"
  shows "dinv f' n G (d\<lparr>d_safety := g\<rparr>)"
proof -
  have "f' \<longrightarrow> buses_follow (d\<lparr>d_safety := g\<rparr>)"
    using assms(1,4) by (auto simp: dinv_defs bus_follows_def elim!: list_all2_mono)
  then show ?thesis using assms(1-3) by (auto simp: dinv_defs)
qed

section \<open>Queues and closing\<close>

lemma update_fuse:
  "do { update_client c u; update_client c v; m } = do { update_client c (\<lambda>cl. v (u cl)); m }"
proof (rule state_ext)
  fix d show "run_state (do { update_client c u; update_client c v; m }) d =
      run_state (do { update_client c (\<lambda>cl. v (u cl)); m }) d"
    by (cases "c < length (d_clients d)") (simp_all add: list_update_beyond)
qed

lemma keeps_note_drop:
  "(\<And>c. keeps (dinv f n G) (close c)) \<Longrightarrow> keeps (dinv f n G) (note_drop close c)"
  unfolding note_drop_def
  by (intro triple_rules) (simp_all add: client_ok_def same_peer_def)

lemma keeps_queue_frame:
  assumes "\<And>c. keeps (dinv f n G) (close c)"
  shows "keeps (dinv f n G) (queue_frame close c frame required)"
proof (rule tripleI)
  fix d assume d: "dinv f n G d"
  let ?cl = "d_clients d ! c"
  show "dinv f n G (snd (run_state (queue_frame close c frame required) d))"
  proof (cases "cl_descriptor ?cl < 0 \<or> frame = [] \<or> length frame > queue_space ?cl")
    case True
    then show ?thesis
      using tripleD [OF assms d] tripleD [OF keeps_note_drop [OF assms] d]
      by (auto simp: queue_frame_def split_beta)
  next
    case False
    then show ?thesis
      using d by (auto simp: queue_frame_def update_fuse client_ok_def same_peer_def queue_space_def
          hd_append intro!: dinv_client)
  qed
qed

lemma keeps_broadcast_frame:
  "(\<And>c. keeps (dinv f n G) (close c)) \<Longrightarrow> keeps (dinv f n G) (broadcast_frame close frame)"
  unfolding broadcast_frame_def by (intro triple_rules keeps_queue_frame)

lemma keeps_broadcast_disabled:
  "(\<And>c. keeps (dinv f n G) (close c)) \<Longrightarrow> keeps (dinv f n G) (broadcast_disabled close r i)"
  unfolding broadcast_disabled_def by (intro triple_rules keeps_broadcast_frame)

definition closed_client :: "ClientConnection \<Rightarrow> ClientConnection" where
  "closed_client cl = cl\<lparr>cl_descriptor := - 1, cl_outgoing := [], cl_outgoingBytes := 0\<rparr>"

lemma dinv_close:
  assumes "dinv f n G d" and "controllerId (d_safety d) \<noteq> Some (cl_id (d_clients d ! c))"
  shows "dinv f n G (d\<lparr>d_clients := (d_clients d)[c := closed_client (d_clients d ! c)]\<rparr>)"
proof -
  let ?cs = "(d_clients d)[c := closed_client (d_clients d ! c)]"
  have "list_all client_ok ?cs"
    using assms(1) by (intro list_all_update) (simp_all add: dinv_defs client_ok_def closed_client_def)
  moreover have "\<exists>cl \<in> set ?cs. holds_lease (d_configuration d) i cl" if "controllerId (d_safety d) = Some i" for i
  proof (rule bex_update)
    show "\<exists>cl \<in> set (d_clients d). holds_lease (d_configuration d) i cl"
      using assms(1) that by (simp add: dinv_defs)
  qed (use assms(2) that in \<open>simp add: holds_lease_def\<close>)
  moreover have "\<forall>k \<in> G. k < length ?cs \<and> cl_helloReceived (?cs ! k)"
    using assms(1) by (auto simp: dinv_def nth_update closed_client_def)
  ultimately show ?thesis using assms(1) by (simp add: dinv_defs)
qed

lemma run_close_client:
  "run_state (close_client bc c) d =
     (if cl_descriptor (d_clients d ! c) < 0 then ((), d)
      else let d1 = d\<lparr>d_clients := (d_clients d)[c := closed_client (d_clients d ! c)]\<rparr>;
               d2 = snd (run_state UpdateInputPublicationDemand d1);
               (r, g) = Disconnect (cl_id (d_clients d ! c)) (d_safety d)
           in if controllerId (d_safety d) = Some (cl_id (d_clients d ! c))
              then run_state (whenever (res_epochChanged r) (do { ApplySafetyToBuses; bc DrDisconnect 0xffff }))
                     (d2\<lparr>d_safety := g\<rparr>)
              else ((), d2))"
  by (simp add: close_client_def update_fuse Let_def split_beta closed_client_def)

lemma gate_inv_Disconnect: "gate_inv g \<Longrightarrow> gate_inv (snd (Disconnect i g))"
  using gate_step_inv [of g "OpDisconnect i"] by simp

lemma keeps_close_client:
  assumes "\<And>r i. keeps (dinv f n G) (bc r i)"
  shows "keeps (dinv f n G) (close_client bc c)"
proof (rule tripleI)
  fix d assume d: "dinv f n G d"
  let ?cl = "d_clients d ! c"
  let ?g = "snd (Disconnect (cl_id ?cl) (d_safety d))"
  let ?d1 = "d\<lparr>d_clients := (d_clients d)[c := closed_client ?cl]\<rparr>"
  show "dinv f n G (snd (run_state (close_client bc c) d))"
  proof (cases "controllerId (d_safety d) = Some (cl_id ?cl)")
    case False
    then have "dinv f n G (snd (run_state UpdateInputPublicationDemand ?d1))"
      using tripleD [OF keeps_demand] dinv_close [OF d] by blast
    then show ?thesis using d False by (simp add: run_close_client Let_def split_beta)
  next
    case True
    note gone = Disconnect_controller [OF True]
    have "dinv False n G (d\<lparr>d_safety := ?g\<rparr>)"
      by (rule dinv_gate [OF d]) (use d gone in \<open>simp_all add: dinv_defs gate_inv_Disconnect\<close>)
    from dinv_close [OF this, of c] gone
    have "dinv False n G (d\<lparr>d_safety := ?g, d_clients := (d_clients d)[c := closed_client ?cl]\<rparr>)" by simp
    then have "dinv False n G (snd (run_state UpdateInputPublicationDemand
        (d\<lparr>d_safety := ?g, d_clients := (d_clients d)[c := closed_client ?cl]\<rparr>)))"
      by (rule tripleD [OF keeps_demand])
    moreover have "snd (run_state UpdateInputPublicationDemand
        (d\<lparr>d_safety := ?g, d_clients := (d_clients d)[c := closed_client ?cl]\<rparr>)) =
        (snd (run_state UpdateInputPublicationDemand ?d1))\<lparr>d_safety := ?g\<rparr>" by simp
    ultimately have "dinv False n G ((snd (run_state UpdateInputPublicationDemand ?d1))\<lparr>d_safety := ?g\<rparr>)"
      by (simp only:)
    moreover have "triple (dinv False n G) (do { ApplySafetyToBuses; bc DrDisconnect 0xffff }) (\<lambda>_. dinv f n G)"
      by (rule triple_bind [OF apply_follows assms])
    ultimately show ?thesis
      using d True gone tripleD by (fastforce simp: run_close_client Let_def split_beta)
  qed
qed

lemma keeps_CloseClient [triple_rules]: "keeps (dinv f n G) (CloseClient c)"
proof -
  have "keeps (dinv f n G) (CloseClient_at 0 c)" for c by (simp add: keeps_close_client keeps_return)
  then show ?thesis by (simp add: CloseClient_def keeps_close_client keeps_broadcast_disabled del: CloseClient_at.simps(1))
qed

lemma keeps_queueing [triple_rules]:
  "keeps (dinv f n G) (QueueFrame c frame required)"
  "keeps (dinv f n G) (QueueAck c mt i status detail required)"
  "keeps (dinv f n G) (BroadcastOutputsDisabled r index)"
  "keeps (dinv f n G) (broadcast_frame CloseClient frame)"
  by (simp_all add: QueueFrame_def QueueAck_def BroadcastOutputsDisabled_def keeps_queue_frame keeps_CloseClient
      keeps_broadcast_disabled keeps_broadcast_frame)

section \<open>Epoch changes\<close>

text \<open>Operations of the gate that keep or drop the lease; without an epoch change outputs stay as enabled as they were.\<close>

definition lease_preserving :: "(SafetyGate \<Rightarrow> GateResult \<times> SafetyGate) \<Rightarrow> bool" where
  "lease_preserving h \<longleftrightarrow>
     (\<forall>g. gate_inv g \<longrightarrow> gate_inv (snd (h g))
        \<and> (controllerId (snd (h g)) = None \<or> controllerId (snd (h g)) = controllerId g)
        \<and> (\<not> res_epochChanged (fst (h g)) \<longrightarrow>
             gate_epoch (snd (h g)) = gate_epoch g \<and> (gate_outputsEnabled g \<longrightarrow> gate_outputsEnabled (snd (h g)))))"

lemma lease_preserving_ops [simp]:
  "lease_preserving Invalidate" "lease_preserving (ExpireOutputCommands now)" "lease_preserving (Expire now)"
  "lease_preserving (SetOutputEnabled i e b healthy now)" "lease_preserving (Release i e)"
  "lease_preserving (Heartbeat i e now)" "lease_preserving (RecordOutputWrite i e now)"
  by (auto simp: lease_preserving_def gate_inv_def gate_defs next_epoch_nonzero split: option.splits)

lemma gate_change:
  assumes "lease_preserving h"
  shows "triple (dinv f n G) (on_safety h) (\<lambda>r. dinv (f \<and> \<not> res_epochChanged r) n G)"
proof (rule tripleI)
  fix d assume d: "dinv f n G d"
  then have "gate_inv (d_safety d)" by (simp add: dinv_defs)
  with assms have "gate_inv (snd (h (d_safety d)))"
    "controllerId (snd (h (d_safety d))) = None \<or> controllerId (snd (h (d_safety d))) = controllerId (d_safety d)"
    "\<not> res_epochChanged (fst (h (d_safety d))) \<Longrightarrow> gate_epoch (snd (h (d_safety d))) = gate_epoch (d_safety d)
      \<and> (gate_outputsEnabled (d_safety d) \<longrightarrow> gate_outputsEnabled (snd (h (d_safety d))))"
    by (auto simp: lease_preserving_def)
  then show "dinv (f \<and> \<not> res_epochChanged (fst (run_state (on_safety h) d))) n G (snd (run_state (on_safety h) d))"
    by (simp add: dinv_gate [OF d])
qed

lemma dinv_weaken: "dinv f n G d \<Longrightarrow> (f' \<Longrightarrow> f) \<Longrightarrow> n' \<le> n \<Longrightarrow> G' \<subseteq> G \<Longrightarrow> dinv f' n' G' d"
  by (auto simp: dinv_def)

lemma gate_drop: "lease_preserving h \<Longrightarrow> triple (dinv f n G) (on_safety h) (\<lambda>_. dinv False n G)"
  by (rule triple_weaken [OF gate_change]) (auto elim: dinv_weaken)

lemma keeps_gate:
  assumes "lease_preserving h" and "\<And>g. \<not> res_epochChanged (fst (h g))"
  shows "keeps (dinv f n G) (on_safety h)"
  by (rule tripleI) (use tripleD [OF gate_change [OF assms(1)]] assms(2) in fastforce)

lemma keeps_close_after_write [triple_rules]:
  "keeps (dinv f n G) (update_client c (\<lambda>cl. cl\<lparr>cl_closeAfterWrite := b\<rparr>))"
  by (rule keeps_update_client) (simp add: client_ok_def same_peer_def)

lemma keeps_close_controller [triple_rules]: "keeps (dinv f n G) (close_controller_after_write controller)"
  unfolding close_controller_after_write_def FindClient_def by (intro triple_rules)

lemma after_epoch_change:
  assumes "keeps (dinv f' n G) m"
  shows "triple (dinv f n G) (do { ApplySafetyToBuses; BroadcastOutputsDisabled r i; m }) (\<lambda>_. dinv f' n G)"
  by (rule triple_bind [OF apply_follows [where f' = f']]) (intro triple_rules assms)

lemma gate_and_apply:
  assumes "lease_preserving h" and "\<And>r. keeps (dinv f n G) (m r)"
  shows "keeps (dinv f n G) (do { r \<leftarrow> on_safety h; ApplySafetyToBuses; m r })"
  by (rule triple_bind [OF gate_drop [OF assms(1)]]) (rule triple_bind [OF apply_follows assms(2)])

lemma keeps_AdvanceEpoch [triple_rules]: "keeps (dinv f n G) (AdvanceEpoch r i)"
proof -
  have "triple (dinv f n G) (ignore (on_safety Invalidate)) (\<lambda>_. dinv False n G)"
    unfolding ignore_def by (intro triple_bind [OF gate_drop] triple_return) simp_all
  then show ?thesis
    unfolding AdvanceEpoch_def
    by (intro triple_bind [OF keeps_asks]) (rule triple_bind, assumption, rule after_epoch_change, rule triple_rules)
qed

lemma keeps_HandleSafetyTimeouts: "keeps (dinv True n G) (HandleSafetyTimeouts now)"
proof -
  have branch: "triple (dinv (True \<and> \<not> b) n G) (whenever b (do { ApplySafetyToBuses; BroadcastOutputsDisabled r i;
       close_controller_after_write k })) (\<lambda>_. dinv True n G)" for b r i k
    by (cases b) (simp_all add: whenever_def after_epoch_change keeps_close_controller keeps_return)
  have second: "triple (dinv True n G) (do { g \<leftarrow> asks d_safety; result \<leftarrow> on_safety (Expire now);
      whenever (res_epochChanged result) (do { ApplySafetyToBuses; BroadcastOutputsDisabled DrHeartbeatTimeout 0xffff;
        close_controller_after_write (controllerId g) }) }) (\<lambda>_. dinv True n G)"
    by (intro triple_bind [OF keeps_asks] triple_bind [OF gate_change] branch) simp
  show ?thesis
    unfolding HandleSafetyTimeouts_def
  proof (intro triple_bind [OF keeps_asks] triple_bind [OF gate_change])
    fix g result
    show "triple (dinv (True \<and> \<not> res_epochChanged result) n G) (if res_epochChanged result
        then do { ApplySafetyToBuses; BroadcastOutputsDisabled DrOutputCommandTimeout 0xffff;
          close_controller_after_write (controllerId g) }
        else do { g \<leftarrow> asks d_safety; result \<leftarrow> on_safety (Expire now);
          whenever (res_epochChanged result) (do { ApplySafetyToBuses;
            BroadcastOutputsDisabled DrHeartbeatTimeout 0xffff; close_controller_after_write (controllerId g) }) })
        (\<lambda>_. dinv True n G)"
      by (rule triple_if) (use second in \<open>simp_all add: after_epoch_change keeps_close_controller\<close>)
  qed simp
qed

section \<open>Requests of a client that has said hello\<close>

lemma keeps_ConsumeRateToken: "keeps (dinv f n G) (ConsumeRateToken c)"
  unfolding ConsumeRateToken_def
  by (intro triple_rules) (simp_all add: client_ok_def same_peer_def refill_tokens_def Let_def)

lemma keeps_replies [triple_rules]:
  "keeps (dinv f n G) (malformed c frame)" "keeps (dinv f n G) (acknowledge c frame status)"
  "keeps (dinv f n G) (drop_client c)"
  unfolding malformed_def acknowledge_def drop_client_def by (intro triple_rules)+

lemma keeps_Heartbeat: "keeps (dinv f n G) (HandleHeartbeat c frame)"
  unfolding HandleHeartbeat_def by (intro triple_rules keeps_gate) (simp_all add: gate_defs)

lemma keeps_OutputEnable: "keeps (dinv f n G) (HandleOutputEnable c frame)"
  unfolding HandleOutputEnable_def
  by (intro keeps_case_option keeps_replies triple_bind [OF keeps_readers(1)] triple_bind [OF keeps_asks]
      triple_bind [OF keeps_clocks(1)] gate_and_apply lease_preserving_ops
      triple_bind [OF keeps_replies(2)] triple_bind [OF keeps_whenever] triple_rules)
    (simp_all add: client_ok_def same_peer_def)

lemma quiet_queue: "quiet_bus b (snd (QueueOutput command b))"
  by (simp add: quiet_bus_def QueueOutput_def split_beta)

lemma keeps_queue_output [triple_rules]: "keeps (dinv f n G) (queue_output k command)"
  by (rule tripleI) (simp add: queue_output_def split_beta dinv_bus quiet_queue)

lemma keeps_queue_command [triple_rules]: "keeps (dinv f n G) (queue_command c frame request)"
  unfolding queue_command_def by (intro triple_rules keeps_gate) (simp_all add: gate_defs)

lemma keeps_OutputWrite: "keeps (dinv f n G) (HandleOutputWrite c frame)"
  unfolding HandleOutputWrite_def Let_def by (intro triple_rules)

lemma keeps_ClearCounters: "keeps (dinv f n G) (HandleClearCounters c frame)"
proof -
  have "keeps (dinv f n G) (on_buses bus_ResetCounters)"
    by (rule tripleI) (simp add: dinv_map_buses quiet_bus_def bus_ResetCounters_def)
  then show ?thesis unfolding HandleClearCounters_def by (intro triple_rules)
qed

lemma keeps_Release: "keeps (dinv True n G) (HandleRelease c frame)"
proof -
  have branch: "triple (dinv (True \<and> \<not> b) n G) (do { whenever b (do { ApplySafetyToBuses;
       BroadcastOutputsDisabled r i; update_client c (\<lambda>cl. cl\<lparr>cl_closeAfterWrite := True\<rparr>) }); return q })
       (\<lambda>_. dinv True n G)" for b r i q
    by (cases b) (auto simp: whenever_def intro!: after_epoch_change triple_bind [OF after_epoch_change] triple_rules)
  show ?thesis
    unfolding HandleRelease_def
    by (intro keeps_case_option keeps_replies triple_bind [OF keeps_readers(1)] triple_bind [OF gate_change]
        triple_bind [OF keeps_replies(2)] branch) simp
qed

lemma keeps_SubscribeInputs: "keeps (dinv f n G) (HandleSubscribeInputs c frame)"
  unfolding HandleSubscribeInputs_def
  by (intro triple_rules) (simp_all add: client_ok_def same_peer_def)

lemma dinv_adapter:
  assumes "dinv f n G d" and "k < length (d_buses d) \<Longrightarrow> ar_workerStarted a \<Longrightarrow>
      ar_workerStarted (d_adapters d ! k) \<or> bus_safetyEpoch (d_buses d ! k) = gate_epoch (d_safety d)"
  shows "dinv f n G (d\<lparr>d_adapters := (d_adapters d)[k := a]\<rparr>)"
  using assms by (auto simp: dinv_defs list_all2_conv_all_nth nth_update bus_follows_def)

lemma keeps_AdapterUnlock: "keeps (dinv f n G) (HandleAdapterUnlock c frame)"
  unfolding HandleAdapterUnlock_def Let_def
  by (intro triple_rules triple_modify) (auto intro!: dinv_adapter)

lemma keeps_AdapterRescan: "keeps (dinv f n G) (HandleAdapterRescan c frame)"
  unfolding HandleAdapterRescan_def by (intro triple_rules triple_modify) simp_all

lemmas keeps_handlers = keeps_Heartbeat keeps_OutputEnable keeps_OutputWrite keeps_ClearCounters keeps_Release
  keeps_SubscribeInputs keeps_AdapterUnlock keeps_AdapterRescan

section \<open>The first request of a client\<close>

lemma dinv_client_ok: "dinv f n G d \<Longrightarrow> c < length (d_clients d) \<Longrightarrow> client_ok (d_clients d ! c)"
  by (simp add: dinv_defs list_all_length)

lemma dinv_introduce:
  assumes "dinv f n G d" and "c < length (d_clients d)" and "\<not> cl_helloReceived (d_clients d ! c)"
    and "client_ok cl" and "cl_helloReceived cl"
  shows "dinv f n (insert c G) (d\<lparr>d_clients := (d_clients d)[c := cl]\<rparr>)"
proof -
  let ?cs = "(d_clients d)[c := cl]"
  have "list_all client_ok ?cs" using assms(1,4) by (intro list_all_update) (simp_all add: dinv_defs)
  moreover have "lease_ok (d\<lparr>d_clients := ?cs\<rparr>)"
    unfolding lease_ok_def
  proof (intro allI impI)
    fix i assume "controllerId (d_safety (d\<lparr>d_clients := ?cs\<rparr>)) = Some i"
    then have "\<exists>x \<in> set (d_clients d). holds_lease (d_configuration d) i x" using assms(1) by (simp add: dinv_defs)
    then have "\<exists>x \<in> set ?cs. holds_lease (d_configuration d) i x"
      by (rule bex_update) (use assms(3) in \<open>simp add: holds_lease_def\<close>)
    then show "\<exists>x \<in> set (d_clients (d\<lparr>d_clients := ?cs\<rparr>)).
        holds_lease (d_configuration (d\<lparr>d_clients := ?cs\<rparr>)) i x" by simp
  qed
  moreover have "\<forall>k \<in> insert c G. k < length ?cs \<and> cl_helloReceived (?cs ! k)"
    using assms(1,2,5) by (auto simp: dinv_def nth_update)
  ultimately show ?thesis
    using assms(1,2,5) by (simp add: dinv_def base_inv_def buses_follow_def)
qed

lemma dinv_lease:
  assumes "dinv f n G d" and "gate_inv g"
    and "\<And>i. controllerId g = Some i \<Longrightarrow> \<exists>cl \<in> set (d_clients d). holds_lease (d_configuration d) i cl"
  shows "dinv False n G (d\<lparr>d_safety := g\<rparr>)"
  using assms by (auto simp: dinv_defs)

text \<open>The state in which recording the role that was granted restores the invariant.\<close>

definition greets :: "nat \<Rightarrow> nat set \<Rightarrow> nat \<Rightarrow> ClientRole \<Rightarrow> Daemon \<Rightarrow> bool" where
  "greets n G c granted d \<longleftrightarrow>
     c < length (d_clients d) \<and> client_ok (d_clients d ! c)
     \<and> (\<forall>cl. client_ok cl \<and> same_peer ((d_clients d ! c)\<lparr>cl_helloReceived := True, cl_role := granted\<rparr>) cl
          \<longrightarrow> dinv True n (insert c G) (d\<lparr>d_clients := (d_clients d)[c := cl]\<rparr>))"

definition awaits_hello :: "nat \<Rightarrow> Daemon \<Rightarrow> bool" where
  "awaits_hello c d \<longleftrightarrow> c < length (d_clients d) \<and> cl_descriptor (d_clients d ! c) \<ge> 0
     \<and> \<not> cl_helloReceived (d_clients d ! c)"

lemma greets_Observer: "dinv True n G d \<Longrightarrow> awaits_hello c d \<Longrightarrow> greets n G c granted d"
  by (auto simp: greets_def awaits_hello_def same_peer_def dest: dinv_client_ok intro!: dinv_introduce)

lemma gate_inv_Acquire: "gate_inv g \<Longrightarrow> gate_inv (snd (Acquire i pid now g))"
  using gate_step_inv [of g "OpAcquire i pid now"] by simp

lemma Acquire_cases:
  "res_status (fst (Acquire i pid now g)) = AckOk \<and> controllerId (snd (Acquire i pid now g)) = Some i
   \<or> res_status (fst (Acquire i pid now g)) \<noteq> AckOk \<and> snd (Acquire i pid now g) = g"
  by (simp add: gate_defs)

lemma client_ok_grant: "client_ok (grant_rate rate cl) = client_ok cl"
  by (simp add: client_ok_def grant_rate_def)

lemma same_peer_grant: "same_peer ((grant_rate rate cl)\<lparr>cl_helloReceived := b, cl_role := r\<rparr>) cl'
    = same_peer (cl\<lparr>cl_helloReceived := b, cl_role := r\<rparr>) cl'"
  by (simp add: same_peer_def grant_rate_def)

lemma acquire_control_greets:
  assumes "dinv True n G d" and "awaits_hello c d" and "ControllerAuthorized (d_configuration d) (d_clients d ! c)"
  shows "greets n G c (fst (run_state (acquire_control c) d)) (snd (run_state (acquire_control c) d))"
proof -
  let ?cl = "d_clients d ! c"
  define r where "r = d_steady d (d_readings d)"
  define e where "e = d\<lparr>d_readings := Suc (d_readings d)\<rparr>"
  define g where "g = snd (Acquire (cl_id ?cl) (cl_pid ?cl) r (d_safety d))"
  have e: "dinv True n G e" "awaits_hello c e" using assms by (simp_all add: e_def awaits_hello_def)
  have gi: "gate_inv g" using assms(1) by (simp add: g_def gate_inv_Acquire dinv_defs)
  show ?thesis
  proof (cases "res_status (fst (Acquire (cl_id ?cl) (cl_pid ?cl) r (d_safety d))) = AckOk")
    case False
    with Acquire_cases [of "cl_id ?cl" "cl_pid ?cl" r "d_safety d"] have "g = d_safety d" by (simp add: g_def)
    then have "run_state (acquire_control c) d = (Observer, e)"
      using False by (simp add: acquire_control_def g_def r_def e_def)
    then show ?thesis using greets_Observer [OF e] by simp
  next
    case True
    with Acquire_cases [of "cl_id ?cl" "cl_pid ?cl" r "d_safety d"] have cid: "controllerId g = Some (cl_id ?cl)"
      by (simp add: g_def)
    define rate where "rate = CalculateControllerRateLimit
      (of_nat (output_targets (cfg_interfaces (d_configuration d)))) (cfg_outputCommandTimeout (d_configuration d))"
    have run: "run_state (acquire_control c) d =
        (Controller, snd (run_state ApplySafetyToBuses (e\<lparr>d_safety := g, d_clients := (d_clients d)[c := grant_rate rate ?cl]\<rparr>)))"
      using True by (simp add: acquire_control_def g_def r_def e_def rate_def)
    have "dinv True n (insert c G) ((snd (run_state ApplySafetyToBuses (e\<lparr>d_safety := g\<rparr>)))\<lparr>d_clients := (d_clients d)[c := cl]\<rparr>)"
      if cl: "client_ok cl" "same_peer (?cl\<lparr>cl_helloReceived := True, cl_role := Controller\<rparr>) cl" for cl
    proof -
      have "dinv True n (insert c G) (e\<lparr>d_clients := (d_clients e)[c := cl]\<rparr>)"
        using e cl by (intro dinv_introduce) (simp_all add: awaits_hello_def same_peer_def)
      then have "dinv True n (insert c G) (e\<lparr>d_clients := (d_clients d)[c := cl]\<rparr>)" by (simp add: e_def)
      then have "dinv False n (insert c G) (e\<lparr>d_clients := (d_clients d)[c := cl], d_safety := g\<rparr>)"
      proof (rule dinv_lease [OF _ gi])
        fix i assume "controllerId g = Some i"
        with cid cl(2) assms(2,3) have "holds_lease (d_configuration d) i cl"
          by (simp add: holds_lease_def same_peer_def awaits_hello_def ControllerAuthorized_def)
        moreover have "cl \<in> set ((d_clients d)[c := cl])"
          using assms(2) by (simp add: awaits_hello_def set_update_memI)
        ultimately show "\<exists>x \<in> set (d_clients (e\<lparr>d_clients := (d_clients d)[c := cl]\<rparr>)).
            holds_lease (d_configuration (e\<lparr>d_clients := (d_clients d)[c := cl]\<rparr>)) i x" by (auto simp: e_def)
      qed
      then have "dinv True n (insert c G) (snd (run_state ApplySafetyToBuses
          (e\<lparr>d_clients := (d_clients d)[c := cl], d_safety := g\<rparr>)))"
        by (rule tripleD [OF apply_follows])
      moreover have "snd (run_state ApplySafetyToBuses (e\<lparr>d_clients := x, d_safety := g\<rparr>)) =
          (snd (run_state ApplySafetyToBuses (e\<lparr>d_safety := g\<rparr>)))\<lparr>d_clients := x\<rparr>" for x by simp
      ultimately show ?thesis by (simp only:)
    qed
    then show ?thesis
      using assms(2) dinv_client_ok [OF assms(1)]
      by (simp add: run greets_def awaits_hello_def client_ok_grant same_peer_grant e_def)
  qed
qed

text \<open>What one request may leave behind: the invariant, and a greeted client if the session goes on.\<close>

definition after_frame :: "nat \<Rightarrow> nat set \<Rightarrow> nat \<Rightarrow> bool \<Rightarrow> Daemon \<Rightarrow> bool" where
  "after_frame n G c continue d \<longleftrightarrow> dinv True n (if continue then insert c G else G) d"

lemma HandleHello_after:
  "triple (\<lambda>d. dinv True n G d \<and> awaits_hello c d) (HandleHello c frame) (after_frame n G c)"
proof (cases "DecodeHelloPayload (frame_payload frame)")
  case None
  have "triple (dinv True n G) (do { CloseClient c; return False }) (after_frame n G c)"
    by (rule triple_bind [OF keeps_CloseClient]) (simp add: triple_def after_frame_def)
  then show ?thesis unfolding HandleHello_def None by (auto intro: triple_weaken)
next
  case (Some hello)
  have greet: "triple (greets n G c granted) (update_client c (\<lambda>cl. cl\<lparr>cl_helloReceived := True, cl_role := granted,
       cl_subscribeInputs := s, cl_inputPeriodMs := p\<rparr>)) (\<lambda>_. dinv True n (insert c G))" for granted s p
    by (rule tripleI) (auto simp: greets_def client_ok_def same_peer_def)
  have rest: "keeps (dinv True n (insert c G)) (do { UpdateInputPublicationDemand;
      acknowledgement \<leftarrow> asks (\<lambda>d. hello_acknowledgement d cl granted);
      QueueFrame c (EncodeFrame MtHelloAck i (EncodeHelloAckPayload acknowledgement)) True })" for cl granted i
    by (intro triple_rules)
  have role: "triple (\<lambda>d. dinv True n G d \<and> awaits_hello c d) (do { cl \<leftarrow> client c; configuration \<leftarrow> asks d_configuration;
      granted \<leftarrow> (if hello_role hello = Controller \<and> ControllerAuthorized configuration cl
        then acquire_control c else return Observer); m cl granted }) Q"
    if "\<And>cl granted. triple (greets n G c granted) (m cl granted) Q" for m and Q :: "bool \<Rightarrow> Daemon \<Rightarrow> bool"
  proof (rule tripleI)
    fix d assume d: "dinv True n G d \<and> awaits_hello c d"
    let ?b = "hello_role hello = Controller \<and> ControllerAuthorized (d_configuration d) (d_clients d ! c)"
    let ?out = "run_state (if ?b then acquire_control c else return Observer) d"
    have "greets n G c (fst ?out) (snd ?out)"
      using d acquire_control_greets greets_Observer by (cases ?b) auto
    from tripleD [OF that this, of "d_clients d ! c"]
    show "Q (fst (run_state (do { cl \<leftarrow> client c; configuration \<leftarrow> asks d_configuration;
      granted \<leftarrow> (if hello_role hello = Controller \<and> ControllerAuthorized configuration cl
        then acquire_control c else return Observer); m cl granted }) d))
      (snd (run_state (do { cl \<leftarrow> client c; configuration \<leftarrow> asks d_configuration;
      granted \<leftarrow> (if hello_role hello = Controller \<and> ControllerAuthorized configuration cl
        then acquire_control c else return Observer); m cl granted }) d))" by (simp add: split_beta)
  qed
  have "triple (\<lambda>d. dinv True n G d \<and> awaits_hello c d) (HandleHello c frame) (\<lambda>_. dinv True n (insert c G))"
    unfolding HandleHello_def Some option.case by (intro role triple_bind [OF greet rest])
  then show ?thesis
    by (rule triple_weaken) (auto simp: after_frame_def elim: dinv_weaken)
qed

end
