(* ===== verification/Spec2Isabelle.thy ===== *)
theory Spec2Isabelle
  imports Frame_Decoder Safety_Gate Bus_Safety Json_Grammar Daemon_Safety
begin

text \<open>
  Verification of the EC-Systemcore EtherCAT daemon.
\<close>

end
